(* ===== verification/KM_Prelude.thy ===== *)
theory KM_Prelude
  imports Main "HOL-Library.Word"
begin

text \<open>
  Shared vocabulary of the development: the result type of kernel code that may fault,
  bounds-checked access to C buffers, the C integer conversions the drivers rely on,
  and linked lists laid out in a heap of nodes.

  A driver function is a HOL function that returns \<open>fault + 'a\<close>.  \<open>Inl f\<close>
  is an execution that crashes the kernel or has undefined behaviour; \<open>Inr x\<close> is a
  normal return.  An error code that the C code returns is a normal return.
\<close>

unbundle bit_operations_syntax

named_theorems res_simps \<open>unfolding of sequential composition and bounds checks\<close>

type_synonym byte = "8 word"

section \<open>Results that may fault\<close>

datatype fault =
    NullDeref     \<comment> \<open>a NULL pointer is dereferenced\<close>
  | BadPointer    \<comment> \<open>a pointer to memory that is not (any more) allocated is dereferenced\<close>
  | DoubleFree    \<comment> \<open>an object is handed back a second time\<close>
  | Overrun       \<comment> \<open>a buffer is read or written outside its bounds\<close>
  | SelfDeadlock  \<comment> \<open>a spinlock is taken by its holder\<close>
  | DivideTrap    \<comment> \<open>the division instruction traps\<close>
  | KernelBug     \<comment> \<open>a BUG_ON of the kernel fires\<close>
  | OutOfFuel     \<comment> \<open>a loop did not end within the fuel given\<close>

type_synonym 'a res = "fault + 'a"

fun bind_res :: "'a res \<Rightarrow> ('a \<Rightarrow> 'b res) \<Rightarrow> 'b res" where
  "bind_res (Inl e) f = Inl e"
| "bind_res (Inr x) f = f x"

definition succeeds :: "('a \<Rightarrow> bool) \<Rightarrow> 'a res \<Rightarrow> bool" where
  "succeeds P r = (case r of Inl _ \<Rightarrow> False | Inr x \<Rightarrow> P x)"

lemma succeeds_simps [simp, res_simps]:
  "succeeds P (Inl e) = False"
  "succeeds P (Inr x) = P x"
  by (simp_all add: succeeds_def)

lemma succeeds_bind [res_simps]:
  "succeeds P (bind_res r f) = succeeds (\<lambda>x. succeeds P (f x)) r"
  by (cases r) simp_all

lemma succeedsD: "succeeds P r \<Longrightarrow> \<exists>x. r = Inr x \<and> P x"
  by (cases r) simp_all

lemma succeeds_mono: "succeeds P r \<Longrightarrow> (\<And>x. P x \<Longrightarrow> Q x) \<Longrightarrow> succeeds Q r"
  by (cases r) simp_all

lemma bind_res_eq_Inr: "bind_res r f = Inr y \<longleftrightarrow> (\<exists>x. r = Inr x \<and> f x = Inr y)"
  by (cases r) simp_all

lemma bind_res_assoc: "bind_res (bind_res r f) g = bind_res r (\<lambda>x. bind_res (f x) g)"
  by (cases r) simp_all

section \<open>C buffers\<close>

text \<open>
  A C array is the list of its elements.  Each access checks its bounds; an access outside
  them is the fault \<open>Overrun\<close>, never an unspecified HOL value.
\<close>

definition mem_read :: "'a list \<Rightarrow> nat \<Rightarrow> 'a res" where
  "mem_read xs i = (if i < length xs then Inr (xs ! i) else Inl Overrun)"

definition mem_write :: "'a list \<Rightarrow> nat \<Rightarrow> 'a \<Rightarrow> 'a list res" where
  "mem_write xs i x = (if i < length xs then Inr (xs[i := x]) else Inl Overrun)"

definition mem_load :: "'a list \<Rightarrow> nat \<Rightarrow> nat \<Rightarrow> 'a list res" where
  "mem_load xs off n =
     (if off + n \<le> length xs then Inr (take n (drop off xs)) else Inl Overrun)"

definition mem_store :: "'a list \<Rightarrow> nat \<Rightarrow> 'a list \<Rightarrow> 'a list res" where
  "mem_store xs off ys =
     (if off + length ys \<le> length xs
      then Inr (take off xs @ ys @ drop (off + length ys) xs) else Inl Overrun)"

text \<open>\<open>memcpy\<close> of \<open>n\<close> elements out of an array: a negative length is a huge size_t.\<close>

definition mem_copy :: "'a list \<Rightarrow> int \<Rightarrow> 'a list res" where
  "mem_copy xs n = (if 0 \<le> n \<and> nat n \<le> length xs then Inr (take (nat n) xs) else Inl Overrun)"

lemma mem_copy_ok [simp]: "n \<le> length xs \<Longrightarrow> mem_copy xs (int n) = Inr (take n xs)"
  by (simp add: mem_copy_def)

lemma mem_copy_too_long [simp]: "length xs < n \<Longrightarrow> mem_copy xs (int n) = Inl Overrun"
  by (simp add: mem_copy_def)

lemma mem_read_ok [simp]: "i < length xs \<Longrightarrow> mem_read xs i = Inr (xs ! i)"
  by (simp add: mem_read_def)

lemma mem_write_ok [simp]: "i < length xs \<Longrightarrow> mem_write xs i x = Inr (xs[i := x])"
  by (simp add: mem_write_def)

lemma mem_load_ok [simp]:
  "off + n \<le> length xs \<Longrightarrow> mem_load xs off n = Inr (take n (drop off xs))"
  by (simp add: mem_load_def)

lemma mem_store_ok [simp]:
  "off + length ys \<le> length xs \<Longrightarrow>
     mem_store xs off ys = Inr (take off xs @ ys @ drop (off + length ys) xs)"
  by (simp add: mem_store_def)

lemma mem_store_too_long [simp]:
  "length xs < off + length ys \<Longrightarrow> mem_store xs off ys = Inl Overrun"
  by (simp add: mem_store_def)

lemma mem_store_length: "mem_store xs off ys = Inr zs \<Longrightarrow> length zs = length xs"
  by (auto simp: mem_store_def split: if_splits)

lemma mem_store_prefix: "mem_store xs 0 ys = Inr zs \<Longrightarrow> take (length ys) zs = ys"
  by (auto simp: mem_store_def split: if_splits)

section \<open>C integer conversions\<close>

text \<open>
  \<open>c_int\<close> converts to a 32-bit signed int, \<open>c_ulong\<close> to a 64-bit unsigned long
  (the kernels the drivers are built for are x86-64 and gcc wraps both).
\<close>

definition c_int :: "int \<Rightarrow> int" where
  "c_int x = signed_take_bit 31 x"

definition c_ulong :: "int \<Rightarrow> int" where
  "c_ulong x = x mod 2 ^ 64"

lemma c_int_id: "- (2 ^ 31) \<le> x \<Longrightarrow> x < 2 ^ 31 \<Longrightarrow> c_int x = x"
  unfolding c_int_def by (rule signed_take_bit_int_eq_self) simp_all

lemma c_int_nat [simp]: "n < 2 ^ 31 \<Longrightarrow> c_int (int n) = int n"
  by (rule c_int_id) simp_all

lemma c_int_range: "- (2 ^ 31) \<le> c_int x \<and> c_int x < 2 ^ 31"
  unfolding c_int_def
  using signed_take_bit_int_greater_eq_minus_exp [of 31 x]
    signed_take_bit_int_less_exp [of 31 x] by simp

lemma c_ulong_id: "0 \<le> x \<Longrightarrow> x < 2 ^ 64 \<Longrightarrow> c_ulong x = x"
  by (simp add: c_ulong_def)

lemma c_ulong_neg: "- (2 ^ 63) \<le> x \<Longrightarrow> x < 0 \<Longrightarrow> 2 ^ 63 \<le> c_ulong x"
proof -
  assume a: "- (2 ^ 63) \<le> x" "x < 0"
  have "x mod 2 ^ 64 = (x + 2 ^ 64) mod 2 ^ 64" by simp
  also have "\<dots> = x + 2 ^ 64" using a by (intro mod_pos_pos_trivial) auto
  finally show ?thesis using a by (simp add: c_ulong_def)
qed

section \<open>Error numbers of the kernel\<close>

abbreviation (input) EPERM :: int where "EPERM \<equiv> 1"
abbreviation (input) EIO :: int where "EIO \<equiv> 5"
abbreviation (input) ENOMEM :: int where "ENOMEM \<equiv> 12"
abbreviation (input) EFAULT :: int where "EFAULT \<equiv> 14"
abbreviation (input) EBUSY :: int where "EBUSY \<equiv> 16"
abbreviation (input) ENODEV :: int where "ENODEV \<equiv> 19"
abbreviation (input) EINVAL :: int where "EINVAL \<equiv> 22"
abbreviation (input) EOPNOTSUPP :: int where "EOPNOTSUPP \<equiv> 95"
abbreviation (input) ERESTARTSYS :: int where "ERESTARTSYS \<equiv> 512"

section \<open>Linked lists in a heap\<close>

text \<open>
  \<open>chain h x as\<close>: following the next-pointers \<open>h\<close> from pointer \<open>x\<close> visits
  exactly the allocated nodes \<open>as\<close>, in this order, and ends with NULL.
\<close>

primrec chain :: "('a \<Rightarrow> 'a option option) \<Rightarrow> 'a option \<Rightarrow> 'a list \<Rightarrow> bool" where
  "chain h x [] \<longleftrightarrow> x = None"
| "chain h x (a # as) \<longleftrightarrow> x = Some a \<and> (\<exists>y. h a = Some y \<and> chain h y as)"

definition list_head :: "'a list \<Rightarrow> 'a option" where
  "list_head xs = (case xs of [] \<Rightarrow> None | x # _ \<Rightarrow> Some x)"

lemma list_head_simps [simp]: "list_head [] = None" "list_head (x # xs) = Some x"
  by (simp_all add: list_head_def)

lemma list_head_None [simp]: "list_head xs = None \<longleftrightarrow> xs = []"
  by (cases xs) simp_all

lemma chain_None [simp]: "chain h None as \<longleftrightarrow> as = []"
  by (cases as) simp_all

lemma chain_head: "chain h x as \<Longrightarrow> x = list_head as"
  by (cases as) simp_all

lemma chain_Some: "chain h (Some a) as \<longleftrightarrow> (\<exists>y bs. as = a # bs \<and> h a = Some y \<and> chain h y bs)"
  by (cases as) auto

lemma chain_unique: "chain h x as \<Longrightarrow> chain h x bs \<Longrightarrow> as = bs"
  by (induction as arbitrary: x bs) (auto simp: chain_Some)

lemma chain_append_tail: "chain h x (as @ bs) \<Longrightarrow> \<exists>y. chain h y bs"
  by (induction as arbitrary: x) auto

lemma chain_distinct: "chain h x as \<Longrightarrow> distinct as"
proof (induction as arbitrary: x)
  case Nil
  then show ?case by simp
next
  case (Cons a as)
  then obtain y where h: "h a = Some y" and tl: "chain h y as" by auto
  have "a \<notin> set as"
  proof
    assume "a \<in> set as"
    then obtain us vs where as: "as = us @ a # vs" by (auto simp: in_set_conv_decomp)
    with tl obtain z where "chain h z (a # vs)" by (blast dest: chain_append_tail)
    with h have "chain h y vs" by simp
    with tl have "as = vs" by (rule chain_unique)
    with as show False by simp
  qed
  with Cons.IH [OF tl] show ?case by simp
qed

lemma chain_allocated: "chain h x as \<Longrightarrow> a \<in> set as \<Longrightarrow> h a \<noteq> None"
  by (induction as arbitrary: x) auto

lemma chain_cong: "chain h x as \<Longrightarrow> (\<And>a. a \<in> set as \<Longrightarrow> h' a = h a) \<Longrightarrow> chain h' x as"
  by (induction as arbitrary: x) auto

lemma chain_upd [simp]: "a \<notin> set as \<Longrightarrow> chain (h(a := v)) x as = chain h x as"
  by (induction as arbitrary: x) auto

lemma chain_push: "chain h x as \<Longrightarrow> a \<notin> set as \<Longrightarrow> chain (h(a := Some x)) (Some a) (a # as)"
  by simp

end
