(* ===== verification/Snull_Defs.thy ===== *)
theory Snull_Defs
  imports KM_Prelude
begin

text \<open>
  The network driver \<open>ndd/04_NIC_snull_drv/snull.c\<close>: its data and its operations, in the
  order of the source.  Two virtual Ethernet interfaces share the module; what one transmits
  the other (or, for a ping, the same one) receives through an interrupt that is simulated by
  a function call.

  Pointers are explicit: packets, network devices and socket buffers live in partial maps of
  the state, a pointer to something freed is a lookup that fails, and NULL is \<open>None\<close>.
  The kernel below the driver is the environment \<open>snull_env\<close>: every answer it gives is an
  arbitrary function of the calls made so far, which the state records in \<open>ktrace\<close>
  (latest call first).  \<open>printk\<close>, the MSG and PDEBUG macros and the hex dumps have no effect
  on the state and are left out.
\<close>

section \<open>Data\<close>

type_synonym paddr = nat    \<comment> \<open>address of a struct snull_packet\<close>
type_synonym devp = nat     \<comment> \<open>address of a struct net_device\<close>
type_synonym skbp = nat     \<comment> \<open>identity of a struct sk_buff handed to the driver\<close>

definition ETH_ALEN :: nat where "ETH_ALEN = 6"
definition ETH_HLEN :: nat where "ETH_HLEN = 14"
definition ETH_ZLEN :: nat where "ETH_ZLEN = 60"
definition ETH_DATA_LEN :: nat where "ETH_DATA_LEN = 1500"
definition SIZEOF_IPHDR :: nat where "SIZEOF_IPHDR = 20"

definition ICMP_ECHOREPLY :: byte where "ICMP_ECHOREPLY = 0"
definition ICMP_ECHO :: byte where "ICMP_ECHO = 8"

definition IFF_UP :: "32 word" where "IFF_UP = 0x1"
definition IFF_NOARP :: "32 word" where "IFF_NOARP = 0x80"

definition SNULL_RX_INTR :: "32 word" where "SNULL_RX_INTR = 0x0001"
definition SNULL_TX_INTR :: "32 word" where "SNULL_TX_INTR = 0x0002"

record snull_packet =
  pkt_next :: "paddr option"
  pkt_dev :: devp
  datalen :: int
  pkt_data :: "byte list"

text \<open>The counters of \<open>struct net_device_stats\<close> that the driver writes (unsigned long).\<close>

record net_device_stats =
  rx_packets :: "64 word"
  tx_packets :: "64 word"
  rx_bytes :: "64 word"
  tx_bytes :: "64 word"
  tx_errors :: "64 word"
  rx_dropped :: "64 word"

text \<open>\<open>tx_packetdata\<close> points into an skb or to the stack buffer \<open>shortpkt\<close> of \<open>snull_tx\<close>.\<close>

datatype bufp = SkbData skbp | ShortPkt

record snull_priv =
  stats :: net_device_stats
  status :: "32 word"
  ppool :: "paddr option"
  rx_queue :: "paddr option"
  rx_int_enabled :: int
  tx_packetlen :: int
  tx_packetdata :: "bufp option"
  priv_skb :: "skbp option"
  lock :: bool
  pstNapi :: "nat option"

text \<open>
  The fields of \<open>struct net_device\<close> the driver or its original version reads or writes, with
  its private area.
\<close>

record net_device =
  dev_addr :: "byte list"
  dev_flags :: "32 word"
  dev_mtu :: int
  dev_irq :: int
  base_addr :: int
  trans_start :: "64 word"
  watchdog_timeo :: int
  netdev_ops_set :: bool
  dev_features :: "32 word"
  dev_weight :: int
  dev_quota :: int
  poll_set :: bool
  dev_priv :: snull_priv

record ifmap =
  map_base_addr :: int
  map_irq :: int

text \<open>A socket buffer: the bytes from \<open>skb->data\<close> on, and the metadata set on reception.\<close>

record sk_buff =
  skb_data :: "byte list"
  skb_dev :: "devp option"
  skb_protocol :: "16 word"
  skb_csum_unnecessary :: bool

section \<open>The kernel below the driver\<close>

datatype kcall =
    KMalloc "paddr option"
  | KFree paddr
  | StartQueue devp
  | StopQueue devp
  | WakeQueue devp
  | DevAllocSkb int bool
  | NetifRx sk_buff
  | NetifReceiveSkb sk_buff
  | DevKfreeSkb "skbp option"
  | NapiAdd devp "nat option"
  | NapiDisable "nat option"
  | NetifRxSchedule devp
  | NetifRxComplete devp
  | AllocNetdev "devp option"
  | RegisterNetdev devp int
  | UnregisterNetdev devp
  | FreeNetdev devp

text \<open>
  The module parameters and the answers of the kernel.  \<open>k_kmalloc\<close> also gives the stale
  contents of the block, \<open>k_alloc_netdev\<close> the contents of the new device.
\<close>

record snull_env =
  lockup :: int
  timeout :: int
  use_napi :: int
  pool_size :: int
  k_kmalloc :: "kcall list \<Rightarrow> (paddr \<times> snull_packet) option"
  k_dev_alloc_skb :: "kcall list \<Rightarrow> int \<Rightarrow> bool"
  k_eth_type_trans :: "devp \<Rightarrow> byte list \<Rightarrow> 16 word \<times> byte list"
  k_ip_fast_csum :: "byte list \<Rightarrow> nat \<Rightarrow> 16 word"
  k_queue_stopped :: "kcall list \<Rightarrow> devp \<Rightarrow> bool"
  k_jiffies :: "kcall list \<Rightarrow> 64 word"
  k_ether_setup :: "net_device \<Rightarrow> net_device"
  k_napi_add_ok :: "nat option \<Rightarrow> bool"
  k_napi_disable_ok :: "nat option \<Rightarrow> bool"
  k_alloc_netdev :: "kcall list \<Rightarrow> (devp \<times> net_device) option"
  k_register_netdev :: "kcall list \<Rightarrow> devp \<Rightarrow> int"

datatype intr_fn = RegularInterrupt | NapiInterrupt

record snull_state =
  pkts :: "paddr \<rightharpoonup> snull_packet"
  netdevs :: "devp \<rightharpoonup> net_device"
  skbs :: "skbp \<rightharpoonup> sk_buff"
  shortpkt :: "byte list"
  snull_devs :: "nat \<Rightarrow> devp option"
  snull_interrupt :: "intr_fn option"
  ktrace :: "kcall list"

definition emit :: "kcall \<Rightarrow> snull_state \<Rightarrow> snull_state" where
  "emit k s = s\<lparr>ktrace := k # ktrace s\<rparr>"

section \<open>Access through pointers\<close>

definition get_dev :: "snull_state \<Rightarrow> devp \<Rightarrow> net_device res" where
  "get_dev s d = (case netdevs s d of None \<Rightarrow> Inl BadPointer | Some nd \<Rightarrow> Inr nd)"

definition upd_dev :: "devp \<Rightarrow> (net_device \<Rightarrow> net_device) \<Rightarrow> snull_state \<Rightarrow> snull_state res" where
  "upd_dev d f s = bind_res (get_dev s d) (\<lambda>nd. Inr (s\<lparr>netdevs := (netdevs s)(d \<mapsto> f nd)\<rparr>))"

definition netdev_priv :: "snull_state \<Rightarrow> devp \<Rightarrow> snull_priv res" where
  "netdev_priv s d = bind_res (get_dev s d) (\<lambda>nd. Inr (dev_priv nd))"

definition upd_priv :: "devp \<Rightarrow> (snull_priv \<Rightarrow> snull_priv) \<Rightarrow> snull_state \<Rightarrow> snull_state res" where
  "upd_priv d f s = upd_dev d (\<lambda>nd. nd\<lparr>dev_priv := f (dev_priv nd)\<rparr>) s"

definition get_pkt :: "snull_state \<Rightarrow> paddr option \<Rightarrow> snull_packet res" where
  "get_pkt s p = (case p of None \<Rightarrow> Inl NullDeref
     | Some a \<Rightarrow> (case pkts s a of None \<Rightarrow> Inl BadPointer | Some k \<Rightarrow> Inr k))"

definition upd_pkt :: "paddr \<Rightarrow> (snull_packet \<Rightarrow> snull_packet) \<Rightarrow> snull_state \<Rightarrow> snull_state res" where
  "upd_pkt a f s = bind_res (get_pkt s (Some a)) (\<lambda>k. Inr (s\<lparr>pkts := (pkts s)(a \<mapsto> f k)\<rparr>))"

definition spin_lock :: "devp \<Rightarrow> snull_state \<Rightarrow> snull_state res" where
  "spin_lock d s = bind_res (netdev_priv s d) (\<lambda>pr.
     if lock pr then Inl SelfDeadlock else upd_priv d (\<lambda>pr. pr\<lparr>lock := True\<rparr>) s)"

definition spin_unlock :: "devp \<Rightarrow> snull_state \<Rightarrow> snull_state res" where
  "spin_unlock d s = upd_priv d (\<lambda>pr. pr\<lparr>lock := False\<rparr>) s"

definition upd_stats :: "devp \<Rightarrow> (net_device_stats \<Rightarrow> net_device_stats) \<Rightarrow> snull_state \<Rightarrow> snull_state res" where
  "upd_stats d f s = upd_priv d (\<lambda>pr. pr\<lparr>stats := f (stats pr)\<rparr>) s"

text \<open>\<open>dev_kfree_skb\<close> of NULL does nothing; freeing an skb a second time is a fault.\<close>

definition dev_kfree_skb :: "skbp option \<Rightarrow> snull_state \<Rightarrow> snull_state res" where
  "dev_kfree_skb q s =
     (case q of None \<Rightarrow> Inr (emit (DevKfreeSkb None) s)
      | Some p \<Rightarrow> (case skbs s p of None \<Rightarrow> Inl DoubleFree
          | Some _ \<Rightarrow> Inr (emit (DevKfreeSkb (Some p)) (s\<lparr>skbs := (skbs s)(p := None)\<rparr>))))"

definition load_buf :: "snull_state \<Rightarrow> bufp \<Rightarrow> byte list res" where
  "load_buf s b = (case b of ShortPkt \<Rightarrow> Inr (shortpkt s)
     | SkbData p \<Rightarrow> (case skbs s p of None \<Rightarrow> Inl BadPointer | Some k \<Rightarrow> Inr (skb_data k)))"

definition store_buf :: "bufp \<Rightarrow> byte list \<Rightarrow> snull_state \<Rightarrow> snull_state res" where
  "store_buf b xs s = (case b of ShortPkt \<Rightarrow> Inr (s\<lparr>shortpkt := xs\<rparr>)
     | SkbData p \<Rightarrow> (case skbs s p of None \<Rightarrow> Inl BadPointer
         | Some k \<Rightarrow> Inr (s\<lparr>skbs := (skbs s)(p \<mapsto> k\<lparr>skb_data := xs\<rparr>)\<rparr>)))"

text \<open>\<open>kmalloc\<close> and \<open>kfree\<close> of a packet.\<close>

definition new_pkt :: "paddr \<Rightarrow> snull_packet \<Rightarrow> snull_state \<Rightarrow> snull_state" where
  "new_pkt p junk s = (emit (KMalloc (Some p)) s)\<lparr>pkts := (pkts s)(p \<mapsto> junk)\<rparr>"

definition kfree_pkt :: "paddr \<Rightarrow> snull_state \<Rightarrow> snull_state" where
  "kfree_pkt p s = (emit (KFree p) s)\<lparr>pkts := (pkts s)(p := None)\<rparr>"

section \<open>The packet pool\<close>

fun setup_pool_loop :: "snull_env \<Rightarrow> devp \<Rightarrow> nat \<Rightarrow> snull_state \<Rightarrow> snull_state res" where
  "setup_pool_loop E d 0 s = Inr s"
| "setup_pool_loop E d (Suc n) s =
     (case k_kmalloc E (ktrace s) of
        None \<Rightarrow> Inr (emit (KMalloc None) s)
      | Some (p, junk) \<Rightarrow>
          bind_res (upd_pkt p (\<lambda>k. k\<lparr>pkt_dev := d\<rparr>) (new_pkt p junk s)) (\<lambda>s2.
          bind_res (netdev_priv s2 d) (\<lambda>pr.
          bind_res (upd_pkt p (\<lambda>k. k\<lparr>pkt_next := ppool pr\<rparr>) s2) (\<lambda>s3.
          bind_res (upd_priv d (\<lambda>pr. pr\<lparr>ppool := Some p\<rparr>) s3) (\<lambda>s4.
          setup_pool_loop E d n s4)))))"

definition snull_setup_pool :: "snull_env \<Rightarrow> devp \<Rightarrow> snull_state \<Rightarrow> snull_state res" where
  "snull_setup_pool E d s =
     bind_res (upd_priv d (\<lambda>pr. pr\<lparr>ppool := None\<rparr>) s)
       (setup_pool_loop E d (nat (pool_size E)))"

text \<open>The while loop of \<open>snull_teardown_pool\<close>, with fuel for its iterations.\<close>

fun snull_teardown_pool :: "nat \<Rightarrow> devp \<Rightarrow> snull_state \<Rightarrow> snull_state res" where
  "snull_teardown_pool fuel d s =
     bind_res (netdev_priv s d) (\<lambda>pr.
       (case ppool pr of
          None \<Rightarrow> Inr s
        | Some p \<Rightarrow>
            (case fuel of
               0 \<Rightarrow> Inl OutOfFuel
             | Suc fuel' \<Rightarrow>
                 bind_res (get_pkt s (Some p)) (\<lambda>k.
                 bind_res (upd_priv d (\<lambda>pr. pr\<lparr>ppool := pkt_next k\<rparr>) s) (\<lambda>s1.
                 snull_teardown_pool fuel' d (kfree_pkt p s1))))))"

declare snull_teardown_pool.simps [simp del]

definition snull_get_tx_buffer ::
  "snull_env \<Rightarrow> devp \<Rightarrow> snull_state \<Rightarrow> (paddr \<times> snull_state) res" where
  "snull_get_tx_buffer E d s =
     bind_res (spin_lock d s) (\<lambda>s1.
     bind_res (netdev_priv s1 d) (\<lambda>pr.
     bind_res (get_pkt s1 (ppool pr)) (\<lambda>k.
     bind_res (upd_priv d (\<lambda>pr. pr\<lparr>ppool := pkt_next k\<rparr>) s1) (\<lambda>s2.
     bind_res (spin_unlock d (if pkt_next k = None then emit (StopQueue d) s2 else s2)) (\<lambda>s3.
     Inr (the (ppool pr), s3))))))"

definition snull_release_buffer :: "snull_env \<Rightarrow> paddr \<Rightarrow> snull_state \<Rightarrow> snull_state res" where
  "snull_release_buffer E p s =
     bind_res (get_pkt s (Some p)) (\<lambda>k.
     bind_res (spin_lock (pkt_dev k) s) (\<lambda>s1.
     bind_res (netdev_priv s1 (pkt_dev k)) (\<lambda>pr.
     bind_res (upd_pkt p (\<lambda>k. k\<lparr>pkt_next := ppool pr\<rparr>) s1) (\<lambda>s2.
     bind_res (upd_priv (pkt_dev k) (\<lambda>pr. pr\<lparr>ppool := Some p\<rparr>) s2) (\<lambda>s3.
     bind_res (spin_unlock (pkt_dev k) s3) (\<lambda>s4.
     bind_res (get_pkt s4 (Some p)) (\<lambda>k'.
     Inr (if k_queue_stopped E (ktrace s4) (pkt_dev k') \<and> pkt_next k' = None
          then emit (WakeQueue (pkt_dev k')) s4 else s4))))))))"

definition snull_enqueue_buf :: "devp \<Rightarrow> paddr \<Rightarrow> snull_state \<Rightarrow> snull_state res" where
  "snull_enqueue_buf d p s =
     bind_res (spin_lock d s) (\<lambda>s1.
     bind_res (netdev_priv s1 d) (\<lambda>pr.
     bind_res (upd_pkt p (\<lambda>k. k\<lparr>pkt_next := rx_queue pr\<rparr>) s1) (\<lambda>s2.
     bind_res (upd_priv d (\<lambda>pr. pr\<lparr>rx_queue := Some p\<rparr>) s2) (\<lambda>s3.
     spin_unlock d s3))))"

definition snull_dequeue_buf :: "devp \<Rightarrow> snull_state \<Rightarrow> (paddr option \<times> snull_state) res" where
  "snull_dequeue_buf d s =
     bind_res (spin_lock d s) (\<lambda>s1.
     bind_res (netdev_priv s1 d) (\<lambda>pr.
     bind_res (case rx_queue pr of None \<Rightarrow> Inr s1
               | Some p \<Rightarrow> bind_res (get_pkt s1 (Some p)) (\<lambda>k.
                   upd_priv d (\<lambda>pr. pr\<lparr>rx_queue := pkt_next k\<rparr>) s1)) (\<lambda>s2.
     bind_res (spin_unlock d s2) (\<lambda>s3. Inr (rx_queue pr, s3)))))"

definition snull_rx_ints :: "devp \<Rightarrow> int \<Rightarrow> snull_state \<Rightarrow> snull_state res" where
  "snull_rx_ints d enable s = upd_priv d (\<lambda>pr. pr\<lparr>rx_int_enabled := enable\<rparr>) s"

section \<open>Open, close, configuration\<close>

definition snull_open :: "devp \<Rightarrow> snull_state \<Rightarrow> (int \<times> snull_state) res" where
  "snull_open d s =
     bind_res (upd_dev d (\<lambda>nd. nd\<lparr>dev_addr := [0x00, 0x53, 0x4E, 0x55, 0x4C, 0x30]\<rparr>) s) (\<lambda>s1.
     bind_res (if snull_devs s1 1 = Some d
               then upd_dev d (\<lambda>nd. nd\<lparr>dev_addr := (dev_addr nd)
                      [ETH_ALEN - 1 := dev_addr nd ! (ETH_ALEN - 1) + 1]\<rparr>) s1
               else Inr s1) (\<lambda>s2.
     Inr (0, emit (StartQueue d) s2)))"

definition snull_release :: "devp \<Rightarrow> snull_state \<Rightarrow> (int \<times> snull_state) res" where
  "snull_release d s = Inr (0, emit (StopQueue d) s)"

definition snull_config :: "devp \<Rightarrow> ifmap \<Rightarrow> snull_state \<Rightarrow> (int \<times> snull_state) res" where
  "snull_config d m s =
     bind_res (get_dev s d) (\<lambda>nd.
       if dev_flags nd AND IFF_UP \<noteq> 0 then Inr (- EBUSY, s)
       else if map_base_addr m \<noteq> base_addr nd then Inr (- EOPNOTSUPP, s)
       else if map_irq m \<noteq> dev_irq nd
         then bind_res (upd_dev d (\<lambda>nd. nd\<lparr>dev_irq := map_irq m\<rparr>) s) (\<lambda>s1. Inr (0, s1))
       else Inr (0, s))"

definition snull_change_mtu :: "devp \<Rightarrow> int \<Rightarrow> snull_state \<Rightarrow> (int \<times> snull_state) res" where
  "snull_change_mtu d new_mtu s =
     (if new_mtu < 68 \<or> new_mtu > 1500 then Inr (- EINVAL, s)
      else bind_res (spin_lock d s) (\<lambda>s1.
           bind_res (upd_dev d (\<lambda>nd. nd\<lparr>dev_mtu := new_mtu\<rparr>) s1) (\<lambda>s2.
           bind_res (spin_unlock d s2) (\<lambda>s3. Inr (0, s3)))))"

definition snull_ioctl :: "devp \<Rightarrow> int \<Rightarrow> snull_state \<Rightarrow> (int \<times> snull_state) res" where
  "snull_ioctl d cmd s = Inr (0, s)"

definition snull_stats :: "devp \<Rightarrow> snull_state \<Rightarrow> net_device_stats res" where
  "snull_stats d s = bind_res (netdev_priv s d) (\<lambda>pr. Inr (stats pr))"

end
