(* ===== verification/Snull_Datapath.thy ===== *)
theory Snull_Datapath
  imports Snull_Defs
begin

text \<open>
  The data path of \<open>snull.c\<close>: reception, the two interrupt handlers, NAPI polling,
  transmission and the transmit watchdog, then loading and unloading of the module.
\<close>

section \<open>Reception\<close>

text \<open>
  The part of \<open>snull_rx\<close> that turns an echo request into an echo reply.  Its argument is
  \<open>skb->data\<close> after \<open>eth_type_trans\<close>, so offset 20 is the first byte after an IP header
  without options.
\<close>

definition icmp_fixup :: "byte list \<Rightarrow> byte list res" where
  "icmp_fixup b =
     bind_res (mem_read b SIZEOF_IPHDR) (\<lambda>ty.
       if ty = ICMP_ECHO \<or> ty = ICMP_ECHOREPLY
       then bind_res (mem_read b (SIZEOF_IPHDR + 1)) (\<lambda>code.
              if code = 0x0 \<and> ty = ICMP_ECHO
              then bind_res (mem_write b SIZEOF_IPHDR ICMP_ECHOREPLY) (\<lambda>b1.
                   bind_res (mem_read b1 24) (\<lambda>x. mem_write b1 24 (x + 0x8)))
              else Inr b)
       else Inr b)"

text \<open>The skb \<open>snull_rx\<close> and \<open>snull_poll\<close> build around a packet.\<close>

definition build_skb :: "snull_env \<Rightarrow> devp \<Rightarrow> snull_packet \<Rightarrow> sk_buff res" where
  "build_skb E d k =
     bind_res (mem_copy (pkt_data k) (datalen k)) (\<lambda>bytes.
       (case k_eth_type_trans E d bytes of (proto, body) \<Rightarrow>
          Inr \<lparr>skb_data = body, skb_dev = Some d, skb_protocol = proto, skb_csum_unnecessary = True\<rparr>))"

definition count_rx :: "devp \<Rightarrow> int \<Rightarrow> snull_state \<Rightarrow> snull_state res" where
  "count_rx d n s = upd_stats d (\<lambda>st. st\<lparr>rx_packets := rx_packets st + 1,
                                        rx_bytes := rx_bytes st + word_of_int n\<rparr>) s"

definition snull_rx :: "snull_env \<Rightarrow> devp \<Rightarrow> paddr \<Rightarrow> snull_state \<Rightarrow> snull_state res" where
  "snull_rx E d p s =
     bind_res (get_pkt s (Some p)) (\<lambda>k.
       let ok = k_dev_alloc_skb E (ktrace s) (datalen k + 2);
           s1 = emit (DevAllocSkb (datalen k + 2) ok) s
       in if \<not> ok then upd_stats d (\<lambda>st. st\<lparr>rx_dropped := rx_dropped st + 1\<rparr>) s1
          else bind_res (build_skb E d k) (\<lambda>skb.
               bind_res (count_rx d (datalen k) s1) (\<lambda>s2.
               bind_res (icmp_fixup (skb_data skb)) (\<lambda>b.
               Inr (emit (NetifRx (skb\<lparr>skb_data := b\<rparr>)) s2)))))"

text \<open>The while loop of \<open>snull_poll\<close>, with fuel; the first component counts the packets.\<close>

fun poll_loop ::
  "snull_env \<Rightarrow> devp \<Rightarrow> int \<Rightarrow> nat \<Rightarrow> int \<Rightarrow> snull_state \<Rightarrow> (int \<times> snull_state) res" where
  "poll_loop E d quota fuel npackets s =
     bind_res (netdev_priv s d) (\<lambda>pr.
       if \<not> (npackets < quota \<and> rx_queue pr \<noteq> None) then Inr (npackets, s)
       else (case fuel of
          0 \<Rightarrow> Inl OutOfFuel
        | Suc fuel' \<Rightarrow>
            bind_res (snull_dequeue_buf d s) (\<lambda>(q, s1).
            bind_res (get_pkt s1 q) (\<lambda>k.
              let ok = k_dev_alloc_skb E (ktrace s1) (datalen k + 2);
                  s2 = emit (DevAllocSkb (datalen k + 2) ok) s1
              in if \<not> ok
                 then bind_res (upd_stats d (\<lambda>st. st\<lparr>rx_dropped := rx_dropped st + 1\<rparr>) s2) (\<lambda>s3.
                      bind_res (snull_release_buffer E (the q) s3) (\<lambda>s4.
                      poll_loop E d quota fuel' npackets s4))
                 else bind_res (build_skb E d k) (\<lambda>skb.
                      bind_res (count_rx d (datalen k) (emit (NetifReceiveSkb skb) s2)) (\<lambda>s3.
                      bind_res (snull_release_buffer E (the q) s3) (\<lambda>s4.
                      poll_loop E d quota fuel' (npackets + 1) s4)))))))"

declare poll_loop.simps [simp del]

definition snull_poll :: "snull_env \<Rightarrow> nat \<Rightarrow> devp \<Rightarrow> int \<Rightarrow> snull_state \<Rightarrow> (int \<times> snull_state) res" where
  "snull_poll E fuel d budget s =
     bind_res (poll_loop E d budget fuel 0 s) (\<lambda>(npackets, s1).
     bind_res (netdev_priv s1 d) (\<lambda>pr.
       if rx_queue pr = None
       then (if k_napi_disable_ok E (pstNapi pr)
             then bind_res (snull_rx_ints d 1 (emit (NapiDisable (pstNapi pr)) s1)) (\<lambda>s2. Inr (0, s2))
             else Inl NullDeref)
       else Inr (1, s1)))"

section \<open>Interrupts\<close>

text \<open>What both handlers do for a finished transmission.\<close>

definition tx_done :: "devp \<Rightarrow> snull_state \<Rightarrow> snull_state res" where
  "tx_done d s =
     bind_res (upd_priv d (\<lambda>pr. pr\<lparr>stats := (stats pr)\<lparr>tx_packets := tx_packets (stats pr) + 1,
                 tx_bytes := tx_bytes (stats pr) + word_of_int (tx_packetlen pr)\<rparr>\<rparr>) s) (\<lambda>s1.
     bind_res (netdev_priv s1 d) (\<lambda>pr. dev_kfree_skb (priv_skb pr) s1))"

definition snull_regular_interrupt :: "snull_env \<Rightarrow> devp option \<Rightarrow> snull_state \<Rightarrow> snull_state res" where
  "snull_regular_interrupt E dev_id s =
     (case dev_id of None \<Rightarrow> Inr s | Some d \<Rightarrow>
       bind_res (spin_lock d s) (\<lambda>s1.
       bind_res (netdev_priv s1 d) (\<lambda>pr.
         let statusword = status pr; pkt = rx_queue pr in
       bind_res (upd_priv d (\<lambda>pr. pr\<lparr>status := 0\<rparr>) s1) (\<lambda>s2.
       bind_res (if statusword AND SNULL_RX_INTR \<noteq> 0
                 then (case pkt of None \<Rightarrow> Inr s2 | Some p \<Rightarrow>
                        bind_res (get_pkt s2 (Some p)) (\<lambda>k.
                        bind_res (upd_priv d (\<lambda>pr. pr\<lparr>rx_queue := pkt_next k\<rparr>) s2) (\<lambda>s3.
                        snull_rx E d p s3)))
                 else Inr s2) (\<lambda>s4.
       bind_res (if statusword AND SNULL_TX_INTR \<noteq> 0 then tx_done d s4 else Inr s4) (\<lambda>s5.
       bind_res (spin_unlock d s5) (\<lambda>s6.
         if statusword AND SNULL_RX_INTR \<noteq> 0
         then (case pkt of None \<Rightarrow> Inr s6 | Some p \<Rightarrow> snull_release_buffer E p s6)
         else Inr s6)))))))"

definition snull_napi_interrupt :: "snull_env \<Rightarrow> devp option \<Rightarrow> snull_state \<Rightarrow> snull_state res" where
  "snull_napi_interrupt E dev_id s =
     (case dev_id of None \<Rightarrow> Inr s | Some d \<Rightarrow>
       bind_res (spin_lock d s) (\<lambda>s1.
       bind_res (netdev_priv s1 d) (\<lambda>pr.
         let statusword = status pr in
       bind_res (upd_priv d (\<lambda>pr. pr\<lparr>status := 0\<rparr>) s1) (\<lambda>s2.
       bind_res (if statusword AND SNULL_RX_INTR \<noteq> 0 then snull_rx_ints d 0 s2 else Inr s2) (\<lambda>s3.
       bind_res (if statusword AND SNULL_TX_INTR \<noteq> 0 then tx_done d s3 else Inr s3) (\<lambda>s4.
       spin_unlock d s4))))))"

text \<open>The call through the function pointer \<open>snull_interrupt\<close>.\<close>

definition raise_interrupt :: "snull_env \<Rightarrow> devp \<Rightarrow> snull_state \<Rightarrow> snull_state res" where
  "raise_interrupt E d s =
     (case snull_interrupt s of
        None \<Rightarrow> Inl NullDeref
      | Some RegularInterrupt \<Rightarrow> snull_regular_interrupt E (Some d) s
      | Some NapiInterrupt \<Rightarrow> snull_napi_interrupt E (Some d) s)"

section \<open>Transmission\<close>

definition hw_tx_prot :: "byte list \<Rightarrow> byte res" where
  "hw_tx_prot buf =
     bind_res (mem_read buf (14 + 20)) (\<lambda>ty.
       if ty = ICMP_ECHO \<or> ty = ICMP_ECHOREPLY
       then bind_res (mem_read buf (14 + 20 + 1)) (\<lambda>code. Inr (if code = 0x0 then ty else 0xff))
       else Inr 0xff)"

definition is_ping :: "byte \<Rightarrow> bool" where
  "is_ping prot \<longleftrightarrow> prot = ICMP_ECHO \<or> prot = ICMP_ECHOREPLY"

definition hw_tx_swap :: "byte \<Rightarrow> byte list \<Rightarrow> byte list res" where
  "hw_tx_swap prot buf =
     (if \<not> is_ping prot then Inr buf
      else bind_res (mem_load buf (ETH_HLEN + 12) 4) (\<lambda>tmp.
           bind_res (mem_load buf (ETH_HLEN + 16) 4) (\<lambda>da.
           bind_res (mem_store buf (ETH_HLEN + 12) da) (\<lambda>b1.
           bind_res (mem_store b1 (ETH_HLEN + 16) tmp) (\<lambda>b2.
           bind_res (mem_read b2 0x26) (\<lambda>x. mem_write b2 0x26 (x - 0x8)))))))"

text \<open>\<open>ih->ihl\<close> is the low nibble of the first IP byte; \<open>ih->check\<close> is stored little-endian.\<close>

definition hw_tx_csum :: "snull_env \<Rightarrow> byte list \<Rightarrow> byte list res" where
  "hw_tx_csum E buf =
     bind_res (mem_store buf (ETH_HLEN + 10) [0, 0]) (\<lambda>b1.
     bind_res (mem_read b1 ETH_HLEN) (\<lambda>vihl.
       let c = k_ip_fast_csum E (drop ETH_HLEN b1) (unat (vihl AND 0x0F))
       in mem_store b1 (ETH_HLEN + 10) [ucast c, ucast (drop_bit 8 c)]))"

definition hw_tx_dest :: "snull_state \<Rightarrow> byte \<Rightarrow> devp \<Rightarrow> devp option" where
  "hw_tx_dest s prot d =
     (if is_ping prot then snull_devs s (if snull_devs s 0 = Some d then 0 else 1)
      else snull_devs s (if snull_devs s 0 = Some d then 1 else 0))"

text \<open>The end of \<open>snull_hw_tx\<close>: transmission done on the sending device, or a lockup.\<close>

definition hw_tx_complete :: "snull_env \<Rightarrow> bufp \<Rightarrow> int \<Rightarrow> devp \<Rightarrow> snull_state \<Rightarrow> snull_state res" where
  "hw_tx_complete E buf len d s =
     bind_res (upd_priv d (\<lambda>pr. pr\<lparr>tx_packetlen := len, tx_packetdata := Some buf,
                                   status := status pr OR SNULL_TX_INTR\<rparr>) s) (\<lambda>s1.
     bind_res (netdev_priv s1 d) (\<lambda>pr.
       if lockup E \<noteq> 0 \<and> uint (tx_packets (stats pr) + 1) mod c_ulong (lockup E) = 0
       then Inr (emit (StopQueue d) s1)
       else raise_interrupt E d s1))"

definition snull_hw_tx :: "snull_env \<Rightarrow> bufp \<Rightarrow> int \<Rightarrow> devp \<Rightarrow> snull_state \<Rightarrow> snull_state res" where
  "snull_hw_tx E buf len d s =
     (if c_ulong len < int (ETH_HLEN + SIZEOF_IPHDR) then Inr s else
      bind_res (load_buf s buf) (\<lambda>b0.
      bind_res (hw_tx_prot b0) (\<lambda>prot.
      bind_res (hw_tx_swap prot b0) (\<lambda>b1.
      bind_res (hw_tx_csum E b1) (\<lambda>b2.
      bind_res (store_buf buf b2 s) (\<lambda>s1.
      (case hw_tx_dest s1 prot d of None \<Rightarrow> Inl NullDeref | Some dest \<Rightarrow>
        bind_res (snull_get_tx_buffer E d s1) (\<lambda>(p, s2).
        bind_res (upd_pkt p (\<lambda>k. k\<lparr>datalen := len\<rparr>) s2) (\<lambda>s3.
        bind_res (get_pkt s3 (Some p)) (\<lambda>k.
        bind_res (mem_copy b2 len) (\<lambda>bytes.
        bind_res (mem_store (pkt_data k) 0 bytes) (\<lambda>da.
        bind_res (upd_pkt p (\<lambda>k. k\<lparr>pkt_data := da\<rparr>) s3) (\<lambda>s4.
        bind_res (snull_enqueue_buf dest p s4) (\<lambda>s5.
        bind_res (netdev_priv s5 dest) (\<lambda>pr.
        bind_res (if rx_int_enabled pr \<noteq> 0
                  then bind_res (upd_priv dest (\<lambda>pr. pr\<lparr>status := status pr OR SNULL_RX_INTR\<rparr>) s5)
                         (raise_interrupt E dest)
                  else Inr s5) (\<lambda>s6.
        hw_tx_complete E buf len d s6))))))))))))))))"

definition snull_tx :: "snull_env \<Rightarrow> skbp \<Rightarrow> devp \<Rightarrow> snull_state \<Rightarrow> (int \<times> snull_state) res" where
  "snull_tx E q d s =
     bind_res (load_buf s (SkbData q)) (\<lambda>bytes.
       let len = c_int (int (length bytes)) in
     bind_res (if len < int ETH_ZLEN
               then bind_res (mem_store (replicate ETH_ZLEN 0) 0 bytes) (\<lambda>sp.
                    Inr (ShortPkt, int ETH_ZLEN, s\<lparr>shortpkt := sp\<rparr>))
               else Inr (SkbData q, len, s)) (\<lambda>(data, len', s1).
     bind_res (upd_dev d (\<lambda>nd. nd\<lparr>trans_start := k_jiffies E (ktrace s1)\<rparr>) s1) (\<lambda>s2.
     bind_res (spin_lock d s2) (\<lambda>s3.
     bind_res (upd_priv d (\<lambda>pr. pr\<lparr>priv_skb := Some q\<rparr>) s3) (\<lambda>s4.
     bind_res (spin_unlock d s4) (\<lambda>s5.
     bind_res (snull_hw_tx E data len' d s5) (\<lambda>s6. Inr (0, s6))))))))"

definition snull_tx_timeout :: "snull_env \<Rightarrow> devp \<Rightarrow> snull_state \<Rightarrow> snull_state res" where
  "snull_tx_timeout E d s =
     bind_res (upd_priv d (\<lambda>pr. pr\<lparr>status := SNULL_TX_INTR\<rparr>) s) (\<lambda>s1.
     bind_res (raise_interrupt E d s1) (\<lambda>s2.
     bind_res (upd_stats d (\<lambda>st. st\<lparr>tx_errors := tx_errors st + 1\<rparr>) s2) (\<lambda>s3.
     Inr (emit (WakeQueue d) s3))))"

section \<open>Loading and unloading\<close>

definition zero_stats :: net_device_stats where
  "zero_stats = \<lparr>rx_packets = 0, tx_packets = 0, rx_bytes = 0, tx_bytes = 0,
                 tx_errors = 0, rx_dropped = 0\<rparr>"

text \<open>The private area after \<open>memset(priv, 0, sizeof(struct snull_priv))\<close>.\<close>

definition zero_priv :: snull_priv where
  "zero_priv = \<lparr>stats = zero_stats, status = 0, ppool = None, rx_queue = None,
                rx_int_enabled = 0, tx_packetlen = 0, tx_packetdata = None, priv_skb = None,
                lock = False, pstNapi = None\<rparr>"

definition snull_init :: "snull_env \<Rightarrow> devp \<Rightarrow> snull_state \<Rightarrow> snull_state res" where
  "snull_init E d s =
     bind_res (upd_dev d (k_ether_setup E) s) (\<lambda>s1.
     bind_res (upd_dev d (\<lambda>nd. nd\<lparr>netdev_ops_set := True, watchdog_timeo := timeout E,
                                  dev_flags := dev_flags nd OR IFF_NOARP\<rparr>) s1) (\<lambda>s2.
     bind_res (upd_priv d (\<lambda>_. zero_priv) s2) (\<lambda>s3.
     bind_res (if use_napi E \<noteq> 0
               then bind_res (netdev_priv s3 d) (\<lambda>pr.
                      if k_napi_add_ok E (pstNapi pr) then Inr (emit (NapiAdd d (pstNapi pr)) s3)
                      else Inl NullDeref)
               else Inr s3) (\<lambda>s4.
     bind_res (snull_rx_ints d 1 s4) (\<lambda>s5.
     snull_setup_pool E d s5)))))"

text \<open>\<open>alloc_netdev\<close> calls the setup function on the device it has allocated.\<close>

definition alloc_netdev :: "snull_env \<Rightarrow> snull_state \<Rightarrow> (devp option \<times> snull_state) res" where
  "alloc_netdev E s =
     (case k_alloc_netdev E (ktrace s) of
        None \<Rightarrow> Inr (None, emit (AllocNetdev None) s)
      | Some (d, blank) \<Rightarrow>
          bind_res (snull_init E d ((emit (AllocNetdev (Some d)) s)
                      \<lparr>netdevs := (netdevs s)(d \<mapsto> blank)\<rparr>)) (\<lambda>s1. Inr (Some d, s1)))"

definition cleanup_dev :: "nat \<Rightarrow> nat \<Rightarrow> snull_state \<Rightarrow> snull_state res" where
  "cleanup_dev fuel i s =
     (case snull_devs s i of
        None \<Rightarrow> Inr s
      | Some d \<Rightarrow>
          bind_res (snull_teardown_pool fuel d (emit (UnregisterNetdev d) s)) (\<lambda>s1.
          Inr ((emit (FreeNetdev d) s1)\<lparr>netdevs := (netdevs s1)(d := None)\<rparr>)))"

definition snull_cleanup :: "nat \<Rightarrow> snull_state \<Rightarrow> snull_state res" where
  "snull_cleanup fuel s = bind_res (cleanup_dev fuel 0 s) (cleanup_dev fuel 1)"

text \<open>One iteration of the registration loop; the first component is \<open>ret\<close>.\<close>

definition register_dev :: "snull_env \<Rightarrow> nat \<Rightarrow> int \<times> snull_state \<Rightarrow> (int \<times> snull_state) res" where
  "register_dev E i = (\<lambda>(ret, s).
     (case snull_devs s i of
        None \<Rightarrow> Inl NullDeref
      | Some d \<Rightarrow>
          (let r = k_register_netdev E (ktrace s) d; s1 = emit (RegisterNetdev d r) s
           in Inr (if r \<noteq> 0 then ret else 0, s1))))"

definition snull_init_module :: "snull_env \<Rightarrow> nat \<Rightarrow> snull_state \<Rightarrow> (int \<times> snull_state) res" where
  "snull_init_module E fuel s =
     (let s0 = s\<lparr>snull_interrupt := Some (if use_napi E \<noteq> 0 then NapiInterrupt else RegularInterrupt)\<rparr> in
      bind_res (alloc_netdev E s0) (\<lambda>(d0, s1).
        let s2 = s1\<lparr>snull_devs := (snull_devs s1)(0 := d0)\<rparr> in
      bind_res (alloc_netdev E s2) (\<lambda>(d1, s3).
        let s4 = s3\<lparr>snull_devs := (snull_devs s3)(1 := d1)\<rparr> in
      bind_res (if snull_devs s4 0 = None \<or> snull_devs s4 1 = None then Inr (- ENOMEM, s4)
                else bind_res (register_dev E 0 (- ENODEV, s4)) (register_dev E 1)) (\<lambda>(ret, s5).
      if ret \<noteq> 0 then bind_res (snull_cleanup fuel s5) (\<lambda>s6. Inr (ret, s6))
      else Inr (ret, s5)))))"

text \<open>The state when the module's text is loaded, before its init function runs.\<close>

definition snull_boot :: snull_state where
  "snull_boot = \<lparr>pkts = Map.empty, netdevs = Map.empty, skbs = Map.empty, shortpkt = [],
                 snull_devs = (\<lambda>_. None), snull_interrupt = None, ktrace = []\<rparr>"

end
