(* ===== verification/Snull_Pool.thy ===== *)
theory Snull_Pool
  imports Snull_Datapath
begin

text \<open>
  The buffer management of \<open>snull.c\<close>.  First an algebra of state updates and lookups, which
  turns the pointer accesses of the operations into rewriting; then the abstraction of the
  driver's linked lists to HOL lists, the refinement of each buffer operation to a list
  operation, and the stack interface that both the free pool and the receive queue implement.
\<close>

named_theorems snull_state \<open>lookups after updates\<close>
named_theorems snull_ops \<open>driver operations as updates, given what the pointers point to\<close>

section \<open>Lookups and updates\<close>

definition priv_of :: "snull_state \<Rightarrow> devp \<Rightarrow> snull_priv option" where
  "priv_of s d = map_option dev_priv (netdevs s d)"

definition set_dev :: "devp \<Rightarrow> (net_device \<Rightarrow> net_device) \<Rightarrow> snull_state \<Rightarrow> snull_state" where
  "set_dev d f s = s\<lparr>netdevs := (netdevs s)(d := map_option f (netdevs s d))\<rparr>"

definition set_priv :: "devp \<Rightarrow> (snull_priv \<Rightarrow> snull_priv) \<Rightarrow> snull_state \<Rightarrow> snull_state" where
  "set_priv d f s = set_dev d (\<lambda>nd. nd\<lparr>dev_priv := f (dev_priv nd)\<rparr>) s"

definition set_pkt :: "paddr \<Rightarrow> (snull_packet \<Rightarrow> snull_packet) \<Rightarrow> snull_state \<Rightarrow> snull_state" where
  "set_pkt p f s = s\<lparr>pkts := (pkts s)(p := map_option f (pkts s p))\<rparr>"

definition set_skb :: "skbp \<Rightarrow> sk_buff option \<Rightarrow> snull_state \<Rightarrow> snull_state" where
  "set_skb q v s = s\<lparr>skbs := (skbs s)(q := v)\<rparr>"

definition set_short :: "byte list \<Rightarrow> snull_state \<Rightarrow> snull_state" where
  "set_short xs s = s\<lparr>shortpkt := xs\<rparr>"

text \<open>The next-pointers of all packets, and the list a queue pointer denotes.\<close>

definition nexts :: "snull_state \<Rightarrow> paddr \<Rightarrow> paddr option option" where
  "nexts s p = map_option pkt_next (pkts s p)"

lemma set_dev_simps [snull_state]:
  "pkts (set_dev d f s) = pkts s" "skbs (set_dev d f s) = skbs s"
  "shortpkt (set_dev d f s) = shortpkt s" "snull_devs (set_dev d f s) = snull_devs s"
  "snull_interrupt (set_dev d f s) = snull_interrupt s" "ktrace (set_dev d f s) = ktrace s"
  "netdevs (set_dev d f s) e = (if e = d then map_option f (netdevs s d) else netdevs s e)"
  by (simp_all add: set_dev_def)

lemma set_priv_simps [snull_state]:
  "pkts (set_priv d g s) = pkts s" "skbs (set_priv d g s) = skbs s"
  "shortpkt (set_priv d g s) = shortpkt s" "snull_devs (set_priv d g s) = snull_devs s"
  "snull_interrupt (set_priv d g s) = snull_interrupt s" "ktrace (set_priv d g s) = ktrace s"
  "priv_of (set_priv d g s) e = (if e = d then map_option g (priv_of s d) else priv_of s e)"
  by (simp_all add: set_priv_def set_dev_def priv_of_def option.map_comp comp_def)

lemma set_pkt_simps [snull_state]:
  "netdevs (set_pkt p f s) = netdevs s" "skbs (set_pkt p f s) = skbs s"
  "shortpkt (set_pkt p f s) = shortpkt s" "snull_devs (set_pkt p f s) = snull_devs s"
  "snull_interrupt (set_pkt p f s) = snull_interrupt s" "ktrace (set_pkt p f s) = ktrace s"
  "priv_of (set_pkt p f s) = priv_of s"
  "pkts (set_pkt p f s) q = (if q = p then map_option f (pkts s p) else pkts s q)"
  by (simp_all add: set_pkt_def priv_of_def fun_eq_iff)

lemma emit_simps [snull_state]:
  "pkts (emit k s) = pkts s" "netdevs (emit k s) = netdevs s" "skbs (emit k s) = skbs s"
  "shortpkt (emit k s) = shortpkt s" "snull_devs (emit k s) = snull_devs s"
  "snull_interrupt (emit k s) = snull_interrupt s" "ktrace (emit k s) = k # ktrace s"
  "priv_of (emit k s) = priv_of s"
  by (simp_all add: emit_def priv_of_def fun_eq_iff)

lemma set_skb_simps [snull_state]:
  "pkts (set_skb q v s) = pkts s" "netdevs (set_skb q v s) = netdevs s"
  "skbs (set_skb q v s) = (skbs s)(q := v)"
  "shortpkt (set_skb q v s) = shortpkt s" "snull_devs (set_skb q v s) = snull_devs s"
  "snull_interrupt (set_skb q v s) = snull_interrupt s" "ktrace (set_skb q v s) = ktrace s"
  "priv_of (set_skb q v s) = priv_of s"
  by (simp_all add: set_skb_def priv_of_def fun_eq_iff)

lemma set_short_simps [snull_state]:
  "pkts (set_short xs s) = pkts s" "netdevs (set_short xs s) = netdevs s"
  "skbs (set_short xs s) = skbs s"
  "shortpkt (set_short xs s) = xs" "snull_devs (set_short xs s) = snull_devs s"
  "snull_interrupt (set_short xs s) = snull_interrupt s" "ktrace (set_short xs s) = ktrace s"
  "priv_of (set_short xs s) = priv_of s"
  by (simp_all add: set_short_def priv_of_def fun_eq_iff)

lemma nexts_simps [snull_state]:
  "nexts (set_dev d f s) = nexts s" "nexts (set_priv d g s) = nexts s"
  "nexts (emit k s) = nexts s" "nexts (set_skb q v s) = nexts s"
  "nexts (set_short xs s) = nexts s"
  "nexts (set_pkt p h s) =
     (nexts s)(p := map_option (\<lambda>k. pkt_next (h k)) (pkts s p))"
  by (simp_all add: nexts_def set_dev_simps set_priv_simps set_pkt_simps emit_simps
      set_skb_simps set_short_simps fun_eq_iff option.map_comp comp_def)

lemma priv_of_set_dev [snull_state]:
  "(\<And>nd. dev_priv (f nd) = dev_priv nd) \<Longrightarrow> priv_of (set_dev d f s) = priv_of s"
  by (auto simp: priv_of_def set_dev_def fun_eq_iff option.map_comp comp_def)

lemma set_priv_twice [snull_state]: "set_priv d f (set_priv d g s) = set_priv d (\<lambda>pr. f (g pr)) s"
  by (simp add: set_priv_def set_dev_def option.map_comp comp_def)

section \<open>The primitive accesses\<close>

lemma get_dev_eq [snull_ops]: "netdevs s d = Some nd \<Longrightarrow> get_dev s d = Inr nd"
  by (simp add: get_dev_def)

lemma netdev_priv_eq [snull_ops]: "priv_of s d = Some pr \<Longrightarrow> netdev_priv s d = Inr pr"
  by (auto simp: netdev_priv_def get_dev_def priv_of_def)

lemma upd_dev_eq [snull_ops]: "priv_of s d = Some pr \<Longrightarrow> upd_dev d f s = Inr (set_dev d f s)"
  by (auto simp: upd_dev_def set_dev_def get_dev_def priv_of_def)

lemma upd_priv_eq [snull_ops]: "priv_of s d = Some pr \<Longrightarrow> upd_priv d f s = Inr (set_priv d f s)"
  by (simp add: upd_priv_def upd_dev_eq set_priv_def)

lemma upd_stats_eq [snull_ops]:
  "priv_of s d = Some pr \<Longrightarrow>
     upd_stats d f s = Inr (set_priv d (\<lambda>pr. pr\<lparr>stats := f (stats pr)\<rparr>) s)"
  by (simp add: upd_stats_def upd_priv_eq)

lemma get_pkt_eq [snull_ops]: "pkts s p = Some k \<Longrightarrow> get_pkt s (Some p) = Inr k"
  by (simp add: get_pkt_def)

lemma get_pkt_None [simp]: "get_pkt s None = Inl NullDeref"
  by (simp add: get_pkt_def)

lemma upd_pkt_eq [snull_ops]: "pkts s p = Some k \<Longrightarrow> upd_pkt p f s = Inr (set_pkt p f s)"
  by (simp add: upd_pkt_def get_pkt_def set_pkt_def)

lemma spin_lock_eq [snull_ops]:
  "priv_of s d = Some pr \<Longrightarrow> \<not> lock pr \<Longrightarrow>
     spin_lock d s = Inr (set_priv d (\<lambda>pr. pr\<lparr>lock := True\<rparr>) s)"
  by (simp add: spin_lock_def netdev_priv_eq upd_priv_eq)

lemma spin_lock_held:
  "priv_of s d = Some pr \<Longrightarrow> lock pr \<Longrightarrow> spin_lock d s = Inl SelfDeadlock"
  by (simp add: spin_lock_def netdev_priv_eq)

lemma spin_unlock_eq [snull_ops]:
  "priv_of s d = Some pr \<Longrightarrow> spin_unlock d s = Inr (set_priv d (\<lambda>pr. pr\<lparr>lock := False\<rparr>) s)"
  by (simp add: spin_unlock_def upd_priv_eq)

lemma load_buf_simps [snull_ops]:
  "load_buf s ShortPkt = Inr (shortpkt s)"
  "skbs s q = Some k \<Longrightarrow> load_buf s (SkbData q) = Inr (skb_data k)"
  by (simp_all add: load_buf_def)

lemma store_buf_simps [snull_ops]:
  "store_buf ShortPkt xs s = Inr (set_short xs s)"
  "skbs s q = Some k \<Longrightarrow> store_buf (SkbData q) xs s = Inr (set_skb q (Some (k\<lparr>skb_data := xs\<rparr>)) s)"
  by (simp_all add: store_buf_def set_short_def set_skb_def)

lemma dev_kfree_skb_eq [snull_ops]:
  "skbs s q = Some k \<Longrightarrow> dev_kfree_skb (Some q) s = Inr (emit (DevKfreeSkb (Some q)) (set_skb q None s))"
  by (simp add: dev_kfree_skb_def set_skb_def)

section \<open>The buffer operations as updates\<close>

lemma set_priv_cong:
  "priv_of s d = Some pr \<Longrightarrow> f pr = g pr \<Longrightarrow> set_priv d f s = set_priv d g s"
  by (auto simp: set_priv_def set_dev_def priv_of_def fun_eq_iff)

text \<open>An unlocked device stays unlocked after a balanced lock and unlock.\<close>

lemma relock [snull_state]:
  assumes "priv_of s d = Some pr" and "\<not> lock pr"
  shows "set_priv d (\<lambda>pr. pr\<lparr>ppool := x, lock := False\<rparr>) s = set_priv d (\<lambda>pr. pr\<lparr>ppool := x\<rparr>) s"
    and "set_priv d (\<lambda>pr. pr\<lparr>rx_queue := x, lock := False\<rparr>) s
           = set_priv d (\<lambda>pr. pr\<lparr>rx_queue := x\<rparr>) s"
    and "set_priv d (\<lambda>pr. pr\<lparr>lock := False\<rparr>) s = s"
proof -
  show "set_priv d (\<lambda>pr. pr\<lparr>ppool := x, lock := False\<rparr>) s = set_priv d (\<lambda>pr. pr\<lparr>ppool := x\<rparr>) s"
    using assms by (intro set_priv_cong [OF assms(1)]) (cases pr, simp)
  show "set_priv d (\<lambda>pr. pr\<lparr>rx_queue := x, lock := False\<rparr>) s
           = set_priv d (\<lambda>pr. pr\<lparr>rx_queue := x\<rparr>) s"
    using assms by (intro set_priv_cong [OF assms(1)]) (cases pr, simp)
  show "set_priv d (\<lambda>pr. pr\<lparr>lock := False\<rparr>) s = s"
    using assms by (cases s, cases pr) (auto simp: set_priv_def set_dev_def priv_of_def fun_eq_iff)
qed

lemma update_commute:
  "set_priv d f (emit e t) = emit e (set_priv d f t)"
  "set_pkt p g (set_priv d f t) = set_priv d f (set_pkt p g t)"
  by (simp_all add: set_priv_def set_dev_def emit_def set_pkt_def)

lemma snull_get_tx_buffer_eq [snull_ops]:
  assumes "priv_of s d = Some pr" and "\<not> lock pr" and "ppool pr = Some p" and "pkts s p = Some k"
  shows "snull_get_tx_buffer E d s =
     Inr (p, (if pkt_next k = None then emit (StopQueue d) else id)
               (set_priv d (\<lambda>pr. pr\<lparr>ppool := pkt_next k\<rparr>) s))"
  using assms by (simp add: snull_get_tx_buffer_def snull_ops snull_state update_commute)

text \<open>With an empty pool the driver dereferences NULL.\<close>

lemma snull_get_tx_buffer_empty:
  assumes "priv_of s d = Some pr" and "\<not> lock pr" and "ppool pr = None"
  shows "snull_get_tx_buffer E d s = Inl NullDeref"
  using assms by (simp add: snull_get_tx_buffer_def snull_ops snull_state)

lemma snull_release_buffer_eq [snull_ops]:
  assumes "pkts s p = Some k" and "priv_of s (pkt_dev k) = Some pr" and "\<not> lock pr"
  shows "snull_release_buffer E p s =
     Inr ((if k_queue_stopped E (ktrace s) (pkt_dev k) \<and> ppool pr = None
           then emit (WakeQueue (pkt_dev k)) else id)
       (set_priv (pkt_dev k) (\<lambda>pr. pr\<lparr>ppool := Some p\<rparr>) (set_pkt p (\<lambda>k. k\<lparr>pkt_next := ppool pr\<rparr>) s)))"
  using assms by (simp add: snull_release_buffer_def snull_ops snull_state update_commute)

lemma snull_enqueue_buf_eq [snull_ops]:
  assumes "priv_of s d = Some pr" and "\<not> lock pr" and "pkts s p = Some k"
  shows "snull_enqueue_buf d p s =
     Inr (set_priv d (\<lambda>pr. pr\<lparr>rx_queue := Some p\<rparr>) (set_pkt p (\<lambda>k. k\<lparr>pkt_next := rx_queue pr\<rparr>) s))"
  using assms by (simp add: snull_enqueue_buf_def snull_ops snull_state update_commute)

lemma snull_dequeue_buf_empty [snull_ops]:
  assumes "priv_of s d = Some pr" and "\<not> lock pr" and "rx_queue pr = None"
  shows "snull_dequeue_buf d s = Inr (None, s)"
  using assms by (simp add: snull_dequeue_buf_def snull_ops snull_state update_commute)

lemma snull_dequeue_buf_eq [snull_ops]:
  assumes "priv_of s d = Some pr" and "\<not> lock pr" and "rx_queue pr = Some p" and "pkts s p = Some k"
  shows "snull_dequeue_buf d s = Inr (Some p, set_priv d (\<lambda>pr. pr\<lparr>rx_queue := pkt_next k\<rparr>) s)"
  using assms by (simp add: snull_dequeue_buf_def snull_ops snull_state update_commute)

end
