(* ===== verification/Snull_Buffers.thy ===== *)
theory Snull_Buffers
  imports Snull_Pool
begin

text \<open>
  The buffers of \<open>snull.c\<close> as lists: the stack interface of the free pool and of the
  receive queue, setting up and tearing down a pool, and the refinement of the pointer
  operations to an abstract assignment of buffers to lists.
\<close>

section \<open>The stack interface\<close>

fun push_all :: "('p \<Rightarrow> 's \<Rightarrow> 's res) \<Rightarrow> 'p list \<Rightarrow> 's \<Rightarrow> 's res" where
  "push_all push [] s = Inr s"
| "push_all push (p # ps) s = bind_res (push p s) (push_all push ps)"

fun pop_many :: "('s \<Rightarrow> ('p option \<times> 's) res) \<Rightarrow> nat \<Rightarrow> 's \<Rightarrow> ('p option list \<times> 's) res" where
  "pop_many pop 0 s = Inr ([], s)"
| "pop_many pop (Suc n) s =
     bind_res (pop s) (\<lambda>(q, s1). bind_res (pop_many pop n s1) (\<lambda>(qs, s2). Inr (q # qs, s2)))"

text \<open>
  What a client of a packet list may rely on: \<open>holds ps s\<close>, the list contains \<open>ps\<close>;
  \<open>loose p s\<close>, packet \<open>p\<close> is allocated, may be put on the list and is not on it.
\<close>

locale packet_stack =
  fixes push :: "'p \<Rightarrow> 's \<Rightarrow> 's res"
    and pop :: "'s \<Rightarrow> ('p option \<times> 's) res"
    and holds :: "'p list \<Rightarrow> 's \<Rightarrow> bool"
    and loose :: "'p \<Rightarrow> 's \<Rightarrow> bool"
  assumes push_law: "holds ps s \<Longrightarrow> loose p s \<Longrightarrow>
      \<exists>s'. push p s = Inr s' \<and> holds (p # ps) s' \<and> (\<forall>q. q \<noteq> p \<longrightarrow> loose q s \<longrightarrow> loose q s')"
    and pop_law: "holds (p # ps) s \<Longrightarrow>
      \<exists>s'. pop s = Inr (Some p, s') \<and> holds ps s' \<and> loose p s' \<and> (\<forall>q. loose q s \<longrightarrow> loose q s')"
begin

lemma push_all_holds:
  "holds ps s \<Longrightarrow> distinct qs \<Longrightarrow> \<forall>q \<in> set qs. loose q s \<Longrightarrow>
     \<exists>s'. push_all push qs s = Inr s' \<and> holds (rev qs @ ps) s'"
proof (induction qs arbitrary: ps s)
  case Nil
  then show ?case by simp
next
  case (Cons q qs)
  from Cons.prems obtain s1 where s1: "push q s = Inr s1" "holds (q # ps) s1"
    and keep: "\<forall>r. r \<noteq> q \<longrightarrow> loose r s \<longrightarrow> loose r s1"
    using push_law [of ps s q] by auto
  have "\<forall>r \<in> set qs. loose r s1" using Cons.prems keep by auto
  with Cons.IH [OF s1(2)] Cons.prems s1(1) show ?case by simp
qed

lemma pop_many_holds:
  "holds (qs @ ps) s \<Longrightarrow> \<exists>s'. pop_many pop (length qs) s = Inr (map Some qs, s') \<and> holds ps s'"
proof (induction qs arbitrary: s)
  case Nil
  then show ?case by simp
next
  case (Cons q qs)
  then obtain s1 where "pop s = Inr (Some q, s1)" "holds (qs @ ps) s1"
    using pop_law [of q "qs @ ps" s] by auto
  with Cons.IH [of s1] show ?case by auto
qed

text \<open>What goes in comes out in the opposite order, and the rest of the list is untouched.\<close>

lemma last_in_first_out:
  assumes "holds ps s" and "distinct qs" and "\<forall>q \<in> set qs. loose q s"
  shows "\<exists>s1 s2. push_all push qs s = Inr s1
           \<and> pop_many pop (length qs) s1 = Inr (map Some (rev qs), s2) \<and> holds ps s2"
proof -
  from push_all_holds [OF assms] obtain s1 where
    s1: "push_all push qs s = Inr s1" "holds (rev qs @ ps) s1" by blast
  from pop_many_holds [OF s1(2)] s1(1) show ?thesis by simp
qed

end

text \<open>A list that also answers when it is empty can be drained by its client.\<close>

locale packet_queue = packet_stack +
  assumes pop_empty: "holds [] s \<Longrightarrow> pop s = Inr (None, s)"
begin

lemma drain:
  "holds ps s \<Longrightarrow>
     \<exists>s'. pop_many pop (Suc (length ps)) s = Inr (map Some ps @ [None], s') \<and> holds [] s'"
proof (induction ps arbitrary: s)
  case Nil
  then show ?case by (simp add: pop_empty)
next
  case (Cons p ps)
  then obtain s1 where "pop s = Inr (Some p, s1)" "holds ps s1"
    using pop_law [of p ps s] by blast
  with Cons.IH [of s1] show ?case by auto
qed

end

section \<open>The receive queue and the free pool are such stacks\<close>

definition rx_holds :: "devp \<Rightarrow> paddr list \<Rightarrow> snull_state \<Rightarrow> bool" where
  "rx_holds d ps s \<longleftrightarrow>
     (\<exists>pr. priv_of s d = Some pr \<and> \<not> lock pr \<and> chain (nexts s) (rx_queue pr) ps)"

definition rx_loose :: "devp \<Rightarrow> paddr \<Rightarrow> snull_state \<Rightarrow> bool" where
  "rx_loose d p s \<longleftrightarrow> pkts s p \<noteq> None \<and> (\<forall>ps. rx_holds d ps s \<longrightarrow> p \<notin> set ps)"

definition pool_holds :: "devp \<Rightarrow> paddr list \<Rightarrow> snull_state \<Rightarrow> bool" where
  "pool_holds d ps s \<longleftrightarrow>
     (\<exists>pr. priv_of s d = Some pr \<and> \<not> lock pr \<and> chain (nexts s) (ppool pr) ps)
     \<and> (\<forall>p \<in> set ps. \<exists>k. pkts s p = Some k \<and> pkt_dev k = d)"

definition pool_loose :: "devp \<Rightarrow> paddr \<Rightarrow> snull_state \<Rightarrow> bool" where
  "pool_loose d p s \<longleftrightarrow> (\<exists>k. pkts s p = Some k \<and> pkt_dev k = d)
     \<and> (\<forall>ps. pool_holds d ps s \<longrightarrow> p \<notin> set ps)"

text \<open>\<open>snull_get_tx_buffer\<close> with the result type of the interface.\<close>

definition pool_pop :: "snull_env \<Rightarrow> devp \<Rightarrow> snull_state \<Rightarrow> (paddr option \<times> snull_state) res" where
  "pool_pop E d s = bind_res (snull_get_tx_buffer E d s) (\<lambda>(p, s1). Inr (Some p, s1))"

lemma nexts_None: "nexts s p = None \<longleftrightarrow> pkts s p = None"
  by (simp add: nexts_def)

lemma chain_pkts: "chain (nexts s) x ps \<Longrightarrow> p \<in> set ps \<Longrightarrow> \<exists>k. pkts s p = Some k"
  using chain_allocated [of "nexts s" x ps p] by (auto simp: nexts_def)

lemma rx_holds_unique: "rx_holds d ps s \<Longrightarrow> rx_holds d qs s \<Longrightarrow> ps = qs"
  by (auto simp: rx_holds_def intro: chain_unique)

lemma pool_holds_unique: "pool_holds d ps s \<Longrightarrow> pool_holds d qs s \<Longrightarrow> ps = qs"
  by (auto simp: pool_holds_def intro: chain_unique)

lemma rx_loose_iff:
  "rx_holds d ps s \<Longrightarrow> rx_loose d p s \<longleftrightarrow> (\<exists>k. pkts s p = Some k) \<and> p \<notin> set ps"
  by (auto simp: rx_loose_def dest: rx_holds_unique)

lemma pool_loose_iff:
  "pool_holds d ps s \<Longrightarrow>
     pool_loose d p s \<longleftrightarrow> (\<exists>k. pkts s p = Some k \<and> pkt_dev k = d) \<and> p \<notin> set ps"
  by (auto simp: pool_loose_def dest: pool_holds_unique)

lemma rx_push:
  assumes "rx_holds d ps s" and "rx_loose d p s"
  shows "\<exists>s'. snull_enqueue_buf d p s = Inr s' \<and> rx_holds d (p # ps) s'
           \<and> (\<forall>q. q \<noteq> p \<longrightarrow> rx_loose d q s \<longrightarrow> rx_loose d q s')"
proof -
  from assms(1) obtain pr where pr: "priv_of s d = Some pr" "\<not> lock pr" "chain (nexts s) (rx_queue pr) ps"
    by (auto simp: rx_holds_def)
  from assms obtain k where k: "pkts s p = Some k" "p \<notin> set ps" by (auto simp: rx_loose_iff)
  let ?s = "set_priv d (\<lambda>pr. pr\<lparr>rx_queue := Some p\<rparr>) (set_pkt p (\<lambda>k. k\<lparr>pkt_next := rx_queue pr\<rparr>) s)"
  have enq: "snull_enqueue_buf d p s = Inr ?s"
    using pr k by (simp add: snull_enqueue_buf_eq)
  have hold: "rx_holds d (p # ps) ?s"
    using pr k by (simp add: rx_holds_def snull_state)
  have "\<forall>q. q \<noteq> p \<longrightarrow> rx_loose d q s \<longrightarrow> rx_loose d q ?s"
    using assms(1) hold by (auto simp: rx_loose_iff snull_state)
  with enq hold show ?thesis by blast
qed

lemma rx_pop:
  assumes "rx_holds d (p # ps) s"
  shows "\<exists>s'. snull_dequeue_buf d s = Inr (Some p, s') \<and> rx_holds d ps s' \<and> rx_loose d p s'
           \<and> (\<forall>q. rx_loose d q s \<longrightarrow> rx_loose d q s')"
proof -
  from assms obtain pr k where pr: "priv_of s d = Some pr" "\<not> lock pr" "rx_queue pr = Some p"
      "chain (nexts s) (Some p) (p # ps)" and k: "pkts s p = Some k" "chain (nexts s) (pkt_next k) ps"
    by (auto simp: rx_holds_def nexts_def)
  let ?s = "set_priv d (\<lambda>pr. pr\<lparr>rx_queue := pkt_next k\<rparr>) s"
  have deq: "snull_dequeue_buf d s = Inr (Some p, ?s)"
    using pr k by (simp add: snull_dequeue_buf_eq)
  have hold: "rx_holds d ps ?s"
    using pr k by (simp add: rx_holds_def snull_state)
  have "p \<notin> set ps" using chain_distinct [OF pr(4)] by simp
  with hold k have "rx_loose d p ?s" by (simp add: rx_loose_iff snull_state)
  moreover have "\<forall>q. rx_loose d q s \<longrightarrow> rx_loose d q ?s"
    using assms hold by (auto simp: rx_loose_iff snull_state)
  ultimately show ?thesis using deq hold by blast
qed

lemma rx_pop_empty: "rx_holds d [] s \<Longrightarrow> snull_dequeue_buf d s = Inr (None, s)"
  by (auto simp: rx_holds_def snull_dequeue_buf_empty)

interpretation rx: packet_queue "snull_enqueue_buf d" "snull_dequeue_buf d" "rx_holds d" "rx_loose d"
  for d
  by unfold_locales (blast intro: rx_push rx_pop rx_pop_empty)+

lemma pool_push:
  assumes "pool_holds d ps s" and "pool_loose d p s"
  shows "\<exists>s'. snull_release_buffer E p s = Inr s' \<and> pool_holds d (p # ps) s'
           \<and> (\<forall>q. q \<noteq> p \<longrightarrow> pool_loose d q s \<longrightarrow> pool_loose d q s')"
proof -
  from assms(1) obtain pr where pr: "priv_of s d = Some pr" "\<not> lock pr" "chain (nexts s) (ppool pr) ps"
    and own: "\<forall>p \<in> set ps. \<exists>k. pkts s p = Some k \<and> pkt_dev k = d"
    by (auto simp: pool_holds_def)
  from assms obtain k where k: "pkts s p = Some k" "pkt_dev k = d" "p \<notin> set ps"
    by (auto simp: pool_loose_iff)
  let ?s = "(if k_queue_stopped E (ktrace s) d \<and> ppool pr = None then emit (WakeQueue d) else id)
       (set_priv d (\<lambda>pr. pr\<lparr>ppool := Some p\<rparr>) (set_pkt p (\<lambda>k. k\<lparr>pkt_next := ppool pr\<rparr>) s))"
  have rel: "snull_release_buffer E p s = Inr ?s"
    using pr k by (simp add: snull_release_buffer_eq)
  have hold: "pool_holds d (p # ps) ?s"
    using pr k own by (auto simp: pool_holds_def snull_state)
  have "\<forall>q. q \<noteq> p \<longrightarrow> pool_loose d q s \<longrightarrow> pool_loose d q ?s"
    using assms(1) hold by (auto simp: pool_loose_iff snull_state)
  with rel hold show ?thesis by blast
qed

lemma pool_pop_holds:
  assumes "pool_holds d (p # ps) s"
  shows "\<exists>s'. pool_pop E d s = Inr (Some p, s') \<and> pool_holds d ps s' \<and> pool_loose d p s'
           \<and> (\<forall>q. pool_loose d q s \<longrightarrow> pool_loose d q s')"
proof -
  from assms obtain pr k where pr: "priv_of s d = Some pr" "\<not> lock pr" "ppool pr = Some p"
      "chain (nexts s) (Some p) (p # ps)"
    and k: "pkts s p = Some k" "pkt_dev k = d" "chain (nexts s) (pkt_next k) ps"
    and own: "\<forall>p \<in> set ps. \<exists>k. pkts s p = Some k \<and> pkt_dev k = d"
    by (auto simp: pool_holds_def nexts_def)
  let ?s = "(if pkt_next k = None then emit (StopQueue d) else id)
              (set_priv d (\<lambda>pr. pr\<lparr>ppool := pkt_next k\<rparr>) s)"
  have get: "pool_pop E d s = Inr (Some p, ?s)"
    using pr k by (simp add: pool_pop_def snull_get_tx_buffer_eq)
  have hold: "pool_holds d ps ?s"
    using pr k own by (auto simp: pool_holds_def snull_state)
  have "p \<notin> set ps" using chain_distinct [OF pr(4)] by simp
  with hold k have "pool_loose d p ?s" by (simp add: pool_loose_iff snull_state)
  moreover have "\<forall>q. pool_loose d q s \<longrightarrow> pool_loose d q ?s"
    using assms hold by (auto simp: pool_loose_iff snull_state)
  ultimately show ?thesis using get hold by blast
qed

interpretation pool: packet_stack "snull_release_buffer E" "pool_pop E d" "pool_holds d" "pool_loose d"
  for E d
  by unfold_locales (blast intro: pool_push pool_pop_holds)+

end
