(* ===== verification/Snull_Lifetime.thy ===== *)
theory Snull_Lifetime
  imports Snull_Buffers
begin

text \<open>
  The life of the packets of \<open>snull.c\<close>: setting up and tearing down a pool, and the
  assignment of buffers to pools and receive queues, with the refinement of the driver's
  pointer operations to operations on that assignment.
\<close>

section \<open>Allocation\<close>

lemma new_pkt_simps [snull_state]:
  "netdevs (new_pkt p k s) = netdevs s" "skbs (new_pkt p k s) = skbs s"
  "shortpkt (new_pkt p k s) = shortpkt s" "snull_devs (new_pkt p k s) = snull_devs s"
  "snull_interrupt (new_pkt p k s) = snull_interrupt s"
  "ktrace (new_pkt p k s) = KMalloc (Some p) # ktrace s"
  "priv_of (new_pkt p k s) = priv_of s"
  "pkts (new_pkt p k s) q = (if q = p then Some k else pkts s q)"
  "nexts (new_pkt p k s) = (nexts s)(p := Some (pkt_next k))"
  by (simp_all add: new_pkt_def priv_of_def nexts_def emit_def fun_eq_iff)

lemma kfree_pkt_simps [snull_state]:
  "netdevs (kfree_pkt p s) = netdevs s" "skbs (kfree_pkt p s) = skbs s"
  "shortpkt (kfree_pkt p s) = shortpkt s" "snull_devs (kfree_pkt p s) = snull_devs s"
  "snull_interrupt (kfree_pkt p s) = snull_interrupt s"
  "ktrace (kfree_pkt p s) = KFree p # ktrace s"
  "priv_of (kfree_pkt p s) = priv_of s"
  "pkts (kfree_pkt p s) q = (if q = p then None else pkts s q)"
  "nexts (kfree_pkt p s) = (nexts s)(p := None)"
  by (simp_all add: kfree_pkt_def priv_of_def nexts_def emit_def fun_eq_iff)

text \<open>The packets allocated and not freed in a history (latest call first).\<close>

fun live :: "kcall list \<Rightarrow> paddr list" where
  "live [] = []"
| "live (KMalloc (Some p) # tr) = p # live tr"
| "live (KFree p # tr) = removeAll p (live tr)"
| "live (_ # tr) = live tr"

definition heap_ok :: "snull_state \<Rightarrow> bool" where
  "heap_ok s \<longleftrightarrow> dom (pkts s) = set (live (ktrace s))"

text \<open>What \<open>kmalloc\<close> promises: a block that is not in use, of the size asked for.\<close>

definition kmalloc_law :: "snull_env \<Rightarrow> bool" where
  "kmalloc_law E \<longleftrightarrow> (\<forall>tr p k. k_kmalloc E tr = Some (p, k) \<longrightarrow>
     p \<notin> set (live tr) \<and> length (pkt_data k) = ETH_DATA_LEN)"

definition kmalloc_total :: "snull_env \<Rightarrow> bool" where
  "kmalloc_total E \<longleftrightarrow> (\<forall>tr. k_kmalloc E tr \<noteq> None)"

definition full_data :: "paddr list \<Rightarrow> snull_state \<Rightarrow> bool" where
  "full_data ps s \<longleftrightarrow> (\<forall>p \<in> set ps. \<forall>k. pkts s p = Some k \<longrightarrow> length (pkt_data k) = ETH_DATA_LEN)"

text \<open>Everything but packets, devices and the history.\<close>

definition same_frame :: "snull_state \<Rightarrow> snull_state \<Rightarrow> bool" where
  "same_frame s s' \<longleftrightarrow> skbs s' = skbs s \<and> shortpkt s' = shortpkt s
     \<and> snull_devs s' = snull_devs s \<and> snull_interrupt s' = snull_interrupt s"

lemma same_frame_refl [simp]: "same_frame s s"
  by (simp add: same_frame_def)

lemma same_frame_trans: "same_frame s t \<Longrightarrow> same_frame t u \<Longrightarrow> same_frame s u"
  by (simp add: same_frame_def)

lemma heap_ok_new: "heap_ok s \<Longrightarrow> heap_ok (set_pkt p f (new_pkt p k s))"
  by (auto simp: heap_ok_def snull_state dom_def split: if_splits)

lemma heap_ok_priv [simp]: "heap_ok (set_priv d f s) = heap_ok s"
  by (simp add: heap_ok_def snull_state)

lemma heap_ok_set_pkt: "heap_ok s \<Longrightarrow> heap_ok (set_pkt p f s)"
  by (auto simp: heap_ok_def snull_state dom_def split: if_splits)

text \<open>One packet more: it is the new head of the pool.\<close>

lemma setup_pool_step:
  assumes heap: "heap_ok s" and law: "kmalloc_law E" and hold: "pool_holds d ps s" and data: "full_data ps s"
    and a: "k_kmalloc E (ktrace s) = Some (p, junk)"
  obtains t where "setup_pool_loop E d (Suc n) s = setup_pool_loop E d n t" "heap_ok t" "pool_holds d (p # ps) t"
    "full_data (p # ps) t" "same_frame s t" "pkts s p = None" "\<forall>r. r \<noteq> p \<longrightarrow> pkts t r = pkts s r" "pkts t p \<noteq> None"
    "priv_of t = (priv_of s)(d := map_option (\<lambda>pr. pr\<lparr>ppool := Some p\<rparr>) (priv_of s d))"
proof -
  from hold obtain pr where pr: "priv_of s d = Some pr" "\<not> lock pr" "chain (nexts s) (ppool pr) ps"
    and own: "\<forall>p \<in> set ps. \<exists>k. pkts s p = Some k \<and> pkt_dev k = d"
    by (auto simp: pool_holds_def)
  from a law have fresh: "p \<notin> set (live (ktrace s))" and len: "length (pkt_data junk) = ETH_DATA_LEN"
    by (auto simp: kmalloc_law_def)
  from fresh heap have none: "pkts s p = None" by (auto simp: heap_ok_def dom_def)
  then have notin: "p \<notin> set ps" using own by auto
  define t where "t = set_priv d (\<lambda>pr. pr\<lparr>ppool := Some p\<rparr>)
      (set_pkt p (\<lambda>k. k\<lparr>pkt_next := ppool pr\<rparr>) (set_pkt p (\<lambda>k. k\<lparr>pkt_dev := d\<rparr>) (new_pkt p junk s)))"
  show thesis
  proof (rule that [of t])
    show "setup_pool_loop E d (Suc n) s = setup_pool_loop E d n t"
      using a pr by (simp add: t_def snull_ops snull_state)
    show "heap_ok t" using heap by (simp add: t_def heap_ok_new heap_ok_set_pkt)
    show "pool_holds d (p # ps) t" using pr own notin none by (auto simp: t_def pool_holds_def snull_state)
    show "full_data (p # ps) t" using data len notin by (auto simp: t_def full_data_def snull_state)
  qed (use none in \<open>simp_all add: t_def same_frame_def snull_state fun_eq_iff\<close>)
qed

lemma setup_pool_loop_holds:
  assumes "heap_ok s" and law: "kmalloc_law E"
    and "pool_holds d ps s" and "full_data ps s"
  shows "\<exists>s' qs. setup_pool_loop E d n s = Inr s' \<and> pool_holds d (qs @ ps) s'
     \<and> full_data (qs @ ps) s' \<and> heap_ok s' \<and> same_frame s s'
     \<and> length qs \<le> n \<and> (length qs = n \<or> hd (ktrace s') = KMalloc None)
     \<and> (\<forall>p. p \<notin> set qs \<longrightarrow> pkts s' p = pkts s p) \<and> (\<forall>p \<in> set qs. pkts s p = None)
     \<and> priv_of s' = (priv_of s)(d := map_option (\<lambda>pr. pr\<lparr>ppool := list_head (qs @ ps)\<rparr>) (priv_of s d))
     \<and> (kmalloc_total E \<longrightarrow> length qs = n)"
  using assms(1,3,4)
proof (induction n arbitrary: s ps)
  case 0
  then obtain pr where "priv_of s d = Some pr" "chain (nexts s) (ppool pr) ps"
    by (auto simp: pool_holds_def)
  then have "(priv_of s)(d := map_option (\<lambda>pr. pr\<lparr>ppool := list_head ps\<rparr>) (priv_of s d)) = priv_of s"
    by (auto simp: fun_eq_iff dest: chain_head)
  with 0 show ?case by (intro exI [of _ s] exI [of _ "[]"]) simp
next
  case (Suc n)
  from Suc.prems obtain pr where pr: "priv_of s d = Some pr" "\<not> lock pr" "chain (nexts s) (ppool pr) ps"
    and own: "\<forall>p \<in> set ps. \<exists>k. pkts s p = Some k \<and> pkt_dev k = d"
    by (auto simp: pool_holds_def)
  from pr have hd: "ppool pr = list_head ps" by (blast dest: chain_head)
  show ?case
  proof (cases "k_kmalloc E (ktrace s)")
    case None
    have "(priv_of s)(d := map_option (\<lambda>pr. pr\<lparr>ppool := list_head ps\<rparr>) (priv_of s d)) = priv_of s"
      using pr hd by (auto simp: fun_eq_iff)
    moreover have "\<not> kmalloc_total E"
      unfolding kmalloc_total_def using None by blast
    ultimately show ?thesis using None Suc.prems
      by (intro exI [of _ "emit (KMalloc None) s"] exI [of _ "[]"])
        (auto simp: snull_state pool_holds_def full_data_def heap_ok_def same_frame_def)
  next
    case (Some a)
    obtain p junk where a: "a = (p, junk)" by (cases a)
    obtain t where t: "setup_pool_loop E d (Suc n) s = setup_pool_loop E d n t" "heap_ok t" "pool_holds d (p # ps) t"
      "full_data (p # ps) t" "same_frame s t" "pkts s p = None" "\<forall>r. r \<noteq> p \<longrightarrow> pkts t r = pkts s r" "pkts t p \<noteq> None"
      "priv_of t = (priv_of s)(d := map_option (\<lambda>pr. pr\<lparr>ppool := Some p\<rparr>) (priv_of s d))"
      by (rule setup_pool_step [OF Suc.prems(1) law Suc.prems(2,3) Some [unfolded a]])
    from Suc.IH [OF t(2-4)] obtain s' qs where IH:
      "setup_pool_loop E d n t = Inr s'" "pool_holds d (qs @ p # ps) s'"
      "full_data (qs @ p # ps) s'" "heap_ok s'" "same_frame t s'" "length qs \<le> n"
      "length qs = n \<or> hd (ktrace s') = KMalloc None"
      "\<forall>r. r \<notin> set qs \<longrightarrow> pkts s' r = pkts t r" "\<forall>r \<in> set qs. pkts t r = None"
      "priv_of s' = (priv_of t)(d := map_option (\<lambda>pr. pr\<lparr>ppool := list_head (qs @ p # ps)\<rparr>) (priv_of t d))"
      "kmalloc_total E \<longrightarrow> length qs = n"
      by (elim exE conjE) (rule that)
    have "\<forall>r. r \<notin> set (qs @ [p]) \<longrightarrow> pkts s' r = pkts s r" "\<forall>r \<in> set (qs @ [p]). pkts s r = None"
      using IH(8,9) t(6-8) by (auto, metis)
    moreover have "priv_of s' = (priv_of s)(d := map_option (\<lambda>pr. pr\<lparr>ppool := list_head ((qs @ [p]) @ ps)\<rparr>) (priv_of s d))"
      using IH(10) t(9) by (simp add: fun_eq_iff option.map_comp comp_def)
    ultimately show ?thesis
      using IH t(1) same_frame_trans [OF t(5) IH(5)]
      by (intro exI [of _ s'] exI [of _ "qs @ [p]"]) simp
  qed
qed

lemma pool_holds_empty:
  "priv_of s d = Some pr \<Longrightarrow> \<not> lock pr \<Longrightarrow> pool_holds d [] (set_priv d (\<lambda>pr. pr\<lparr>ppool := None\<rparr>) s)"
  by (simp add: pool_holds_def snull_state)

lemma snull_setup_pool_holds:
  assumes "heap_ok s" and "kmalloc_law E" and "priv_of s d = Some pr" and "\<not> lock pr"
  shows "\<exists>s' ps. snull_setup_pool E d s = Inr s' \<and> pool_holds d ps s' \<and> full_data ps s'
     \<and> heap_ok s' \<and> same_frame s s'
     \<and> length ps \<le> nat (pool_size E) \<and> (length ps = nat (pool_size E) \<or> hd (ktrace s') = KMalloc None)
     \<and> (\<forall>p. p \<notin> set ps \<longrightarrow> pkts s' p = pkts s p) \<and> (\<forall>p \<in> set ps. pkts s p = None)
     \<and> priv_of s' = (priv_of s)(d \<mapsto> pr\<lparr>ppool := list_head ps\<rparr>)
     \<and> (kmalloc_total E \<longrightarrow> length ps = nat (pool_size E))"
proof -
  let ?t = "set_priv d (\<lambda>pr. pr\<lparr>ppool := None\<rparr>) s"
  have "heap_ok ?t" "pool_holds d [] ?t" "full_data [] ?t"
    using assms by (simp_all add: pool_holds_empty full_data_def)
  from setup_pool_loop_holds [OF this(1) assms(2) this(2,3), of "nat (pool_size E)"]
  obtain s' qs where qs: "setup_pool_loop E d (nat (pool_size E)) ?t = Inr s'" "pool_holds d qs s'"
    "full_data qs s'" "heap_ok s'" "same_frame ?t s'" "length qs \<le> nat (pool_size E)"
    "length qs = nat (pool_size E) \<or> hd (ktrace s') = KMalloc None"
    "\<forall>p. p \<notin> set qs \<longrightarrow> pkts s' p = pkts ?t p" "\<forall>p \<in> set qs. pkts ?t p = None"
    "priv_of s' = (priv_of ?t)(d := map_option (\<lambda>pr. pr\<lparr>ppool := list_head qs\<rparr>) (priv_of ?t d))"
    "kmalloc_total E \<longrightarrow> length qs = nat (pool_size E)"
    unfolding append_Nil2 by (elim exE conjE) (rule that)
  have "snull_setup_pool E d s = Inr s'"
    using qs(1) assms by (simp add: snull_setup_pool_def snull_ops)
  moreover have "same_frame s s'" using qs(5) by (simp add: same_frame_def snull_state)
  ultimately show ?thesis using qs assms
    by (intro exI [of _ s'] exI [of _ qs]) (auto simp: snull_state fun_eq_iff)
qed

section \<open>Tearing a pool down\<close>

lemma teardown_done:
  "pool_holds d [] s \<Longrightarrow> snull_teardown_pool fuel d s = Inr s"
  by (subst snull_teardown_pool.simps) (auto simp: pool_holds_def snull_ops)

text \<open>One iteration frees the head of the pool and leaves a pool with the rest.\<close>

lemma teardown_step:
  assumes "pool_holds d (p # ps) s" and "priv_of s d = Some pr"
  obtains t where
    "snull_teardown_pool fuel d s =
       (case fuel of 0 \<Rightarrow> Inl OutOfFuel | Suc f \<Rightarrow> snull_teardown_pool f d t)"
    "pool_holds d ps t" "priv_of t = (priv_of s)(d \<mapsto> pr\<lparr>ppool := list_head ps\<rparr>)"
    "pkts t = (pkts s)(p := None)" "ktrace t = KFree p # ktrace s" "same_frame s t"
proof -
  from assms obtain k where pr: "\<not> lock pr" "ppool pr = Some p" "chain (nexts s) (Some p) (p # ps)"
    and k: "pkts s p = Some k" "chain (nexts s) (pkt_next k) ps"
    and own: "\<forall>q \<in> set ps. \<exists>k. pkts s q = Some k \<and> pkt_dev k = d"
    by (auto simp: pool_holds_def nexts_def)
  have notin: "p \<notin> set ps" using chain_distinct [OF pr(3)] by simp
  have hd: "pkt_next k = list_head ps" using k(2) by (rule chain_head)
  define t where "t = kfree_pkt p (set_priv d (\<lambda>pr. pr\<lparr>ppool := pkt_next k\<rparr>) s)"
  show thesis
  proof (rule that)
    show "snull_teardown_pool fuel d s =
        (case fuel of 0 \<Rightarrow> Inl OutOfFuel | Suc f \<Rightarrow> snull_teardown_pool f d t)"
      using assms(2) pr k
      by (subst snull_teardown_pool.simps) (simp add: snull_ops t_def split: nat.split)
    show "pool_holds d ps t"
      using assms(2) pr k own notin by (auto simp: t_def pool_holds_def snull_state)
  qed (use assms(2) hd in \<open>auto simp: t_def snull_state same_frame_def fun_eq_iff\<close>)
qed

lemma snull_teardown_pool_frees:
  assumes "pool_holds d ps s" and "priv_of s d = Some pr" and "length ps \<le> fuel"
  shows "\<exists>s'. snull_teardown_pool fuel d s = Inr s'
     \<and> pkts s' = (\<lambda>p. if p \<in> set ps then None else pkts s p)
     \<and> ktrace s' = map KFree (rev ps) @ ktrace s \<and> same_frame s s'
     \<and> priv_of s' = (priv_of s)(d \<mapsto> pr\<lparr>ppool := None\<rparr>)"
  using assms
proof (induction ps arbitrary: s pr fuel)
  case Nil
  then have "ppool pr = None" by (auto simp: pool_holds_def)
  then have "(priv_of s)(d \<mapsto> pr\<lparr>ppool := None\<rparr>) = priv_of s"
    using Nil(2) by (cases pr) (auto simp: fun_eq_iff)
  with Nil show ?case by (simp add: teardown_done)
next
  case (Cons p ps)
  from Cons.prems(3) obtain f where fuel: "fuel = Suc f" "length ps \<le> f" by (cases fuel) auto
  obtain t where t: "snull_teardown_pool fuel d s = snull_teardown_pool f d t" "pool_holds d ps t"
      "priv_of t = (priv_of s)(d \<mapsto> pr\<lparr>ppool := list_head ps\<rparr>)"
      "pkts t = (pkts s)(p := None)" "ktrace t = KFree p # ktrace s" "same_frame s t"
    by (rule teardown_step [OF Cons.prems(1,2), of fuel]) (simp add: fuel(1))
  from t(3) have "priv_of t d = Some (pr\<lparr>ppool := list_head ps\<rparr>)" by simp
  note IH = Cons.IH [OF t(2) this fuel(2)]
  obtain s' where s': "snull_teardown_pool f d t = Inr s'"
      "pkts s' = (\<lambda>p. if p \<in> set ps then None else pkts t p)"
      "ktrace s' = map KFree (rev ps) @ ktrace t" "same_frame t s'"
      "priv_of s' = (priv_of t)(d \<mapsto> pr\<lparr>ppool := None\<rparr>)"
    using IH by (elim exE conjE) (rule that, simp_all add: fun_upd_def)
  show ?case
    using s' t same_frame_trans [OF t(6) s'(4)] by (auto simp: fun_eq_iff)
qed

lemma snull_teardown_pool_short:
  assumes "pool_holds d ps s" and "fuel < length ps"
  shows "snull_teardown_pool fuel d s = Inl OutOfFuel"
  using assms
proof (induction ps arbitrary: s fuel)
  case Nil
  then show ?case by simp
next
  case (Cons p ps)
  from Cons.prems(1) obtain pr where pr: "priv_of s d = Some pr" by (auto simp: pool_holds_def)
  obtain t where t: "snull_teardown_pool fuel d s =
        (case fuel of 0 \<Rightarrow> Inl OutOfFuel | Suc f \<Rightarrow> snull_teardown_pool f d t)" "pool_holds d ps t"
    by (rule teardown_step [OF Cons.prems(1) pr, of fuel])
  show ?case using t Cons.IH [OF t(2)] Cons.prems(2) by (cases fuel) auto
qed

lemma live_frees: "set (live (map KFree ps @ tr)) = set (live tr) - set ps"
  by (induction ps) auto

lemma heap_ok_teardown:
  assumes "heap_ok s" and "pkts s' = (\<lambda>p. if p \<in> set ps then None else pkts s p)"
    and "ktrace s' = map KFree (rev ps) @ ktrace s"
  shows "heap_ok s'"
  using assms by (auto simp: heap_ok_def live_frees dom_def split: if_splits)

end
