(* ===== verification/Snull_Frame.thy ===== *)
theory Snull_Frame
  imports Snull_Lifetime
begin

text \<open>
  What the data path of \<open>snull.c\<close> does to the bytes of a frame: padding, the rewriting
  of a ping in \<open>snull_hw_tx\<close>, the IP header checksum, and the conversion of an echo
  request into an echo reply in \<open>snull_rx\<close>.
\<close>

section \<open>Padding and rewriting on transmission\<close>

definition pad_frame :: "byte list \<Rightarrow> byte list" where
  "pad_frame b = (if length b < ETH_ZLEN then b @ replicate (ETH_ZLEN - length b) 0 else b)"

lemma length_pad_frame: "length (pad_frame b) = max ETH_ZLEN (length b)"
  by (simp add: pad_frame_def)

lemma shortpkt_pad:
  "length b < ETH_ZLEN \<Longrightarrow> mem_store (replicate ETH_ZLEN 0) 0 b = Inr (pad_frame b)"
  by (simp add: pad_frame_def)

text \<open>The byte edits of \<open>snull_hw_tx\<close>, with the packet kind it has found.\<close>

definition hw_tx_frame :: "snull_env \<Rightarrow> byte list \<Rightarrow> (byte \<times> byte list) res" where
  "hw_tx_frame E b = bind_res (hw_tx_prot b) (\<lambda>prot. bind_res (hw_tx_swap prot b) (\<lambda>b1.
     bind_res (hw_tx_csum E b1) (\<lambda>b2. Inr (prot, b2))))"

text \<open>The packet kind as a function: ICMP type at offset 34 if the code at 35 is zero.\<close>

definition frame_kind :: "byte list \<Rightarrow> byte" where
  "frame_kind b =
     (if (b ! 34 = ICMP_ECHO \<or> b ! 34 = ICMP_ECHOREPLY) \<and> b ! 35 = 0 then b ! 34 else 0xff)"

text \<open>The frame with source and destination IP address exchanged and the byte at 38 lowered.\<close>

definition swap_frame :: "byte list \<Rightarrow> byte list" where
  "swap_frame b = take 26 b @ take 4 (drop 30 b) @ take 4 (drop 26 b) @ take 4 (drop 34 b)
     @ (b ! 38 - 8) # drop 39 b"

definition set_check :: "byte list \<Rightarrow> byte list \<Rightarrow> byte list" where
  "set_check b c = take 24 b @ c @ drop 26 b"

definition ip_check :: "snull_env \<Rightarrow> byte list \<Rightarrow> byte list" where
  "ip_check E b =
     (let c = k_ip_fast_csum E (drop 14 (set_check b [0, 0])) (unat (b ! 14 AND 0x0F))
      in [ucast c, ucast (drop_bit 8 c)])"

definition tx_frame :: "snull_env \<Rightarrow> byte list \<Rightarrow> byte list" where
  "tx_frame E b =
     (let b1 = if is_ping (frame_kind b) then swap_frame b else b in set_check b1 (ip_check E b1))"

lemmas frame_consts = ETH_HLEN_def ETH_ZLEN_def ETH_DATA_LEN_def SIZEOF_IPHDR_def ETH_ALEN_def
  ICMP_ECHO_def ICMP_ECHOREPLY_def

lemma length_swap_frame [simp]: "39 \<le> length b \<Longrightarrow> length (swap_frame b) = length b"
  by (simp add: swap_frame_def)

lemma length_set_check [simp]: "26 \<le> length b \<Longrightarrow> length c = 2 \<Longrightarrow> length (set_check b c) = length b"
  by (simp add: set_check_def)

lemma length_ip_check [simp]: "length (ip_check E b) = 2"
  by (simp add: ip_check_def Let_def)

lemma length_tx_frame: "39 \<le> length b \<Longrightarrow> length (tx_frame E b) = length b"
  by (simp add: tx_frame_def Let_def)

lemma is_ping_values [simp]: "is_ping 0xff = False" "is_ping 8" "is_ping 0"
  by (simp_all add: is_ping_def frame_consts)

lemma hw_tx_prot_eq: "36 \<le> length b \<Longrightarrow> hw_tx_prot b = Inr (frame_kind b)"
  by (auto simp: hw_tx_prot_def frame_kind_def)

lemma nth_cons_drop: "i < length xs \<Longrightarrow> drop i xs = xs ! i # drop (Suc i) xs"
  by (rule Cons_nth_drop_Suc [symmetric])

lemma hw_tx_swap_eq:
  assumes "39 \<le> length b" and "is_ping prot"
  shows "hw_tx_swap prot b = Inr (swap_frame b)"
proof -
  let ?b1 = "take 26 b @ take 4 (drop 30 b) @ drop 30 b"
  let ?b2 = "take 26 b @ take 4 (drop 30 b) @ take 4 (drop 26 b) @ drop 34 b"
  have "take 30 ?b1 = take 26 b @ take 4 (drop 30 b)" "drop 34 ?b1 = drop 34 b" "length ?b1 = length b"
    using assms(1) by simp_all
  then have st: "mem_store ?b1 30 (take 4 (drop 26 b)) = Inr ?b2"
    using assms(1) by simp
  have d34: "drop 34 b = take 4 (drop 34 b) @ b ! 38 # drop 39 b"
    using append_take_drop_id [of 4 "drop 34 b"] nth_cons_drop [of 38 b] assms(1) by simp
  have len: "length ?b2 = length b" using assms(1) by simp
  have nth: "?b2 ! 38 = b ! 38"
    using assms(1) by (simp add: nth_append)
  have "?b2[38 := x] = take 26 b @ take 4 (drop 30 b) @ take 4 (drop 26 b) @ take 4 (drop 34 b) @ x # drop 39 b" for x
    by (subst d34) (use assms(1) in \<open>simp add: list_update_append\<close>)
  then have wr: "mem_write ?b2 38 (?b2 ! 38 - 8) = Inr (swap_frame b)"
    using len assms(1) nth by (simp add: swap_frame_def)
  show ?thesis
    using assms st wr len by (simp add: hw_tx_swap_def frame_consts)
qed

lemma hw_tx_swap_other: "\<not> is_ping prot \<Longrightarrow> hw_tx_swap prot b = Inr b"
  by (simp add: hw_tx_swap_def)

lemma hw_tx_csum_eq:
  assumes "39 \<le> length b"
  shows "hw_tx_csum E b = Inr (set_check b (ip_check E b))"
proof -
  let ?b1 = "take 24 b @ [0, 0] @ drop 26 b"
  have st: "mem_store b 24 [0, 0] = Inr ?b1" using assms by simp
  have nth: "?b1 ! 14 = b ! 14" and len: "length ?b1 = length b"
    using assms by (simp_all add: nth_append)
  have "mem_store ?b1 24 [x, y] = Inr (take 24 b @ [x, y] @ drop 26 b)" for x y
    using assms by (subst mem_store_ok) auto
  then show ?thesis
    using st nth len assms
    by (simp add: hw_tx_csum_def frame_consts set_check_def ip_check_def Let_def)
qed

lemma hw_tx_frame_eq:
  "39 \<le> length b \<Longrightarrow> hw_tx_frame E b = Inr (frame_kind b, tx_frame E b)"
  by (cases "is_ping (frame_kind b)")
    (simp_all add: hw_tx_frame_def hw_tx_prot_eq hw_tx_swap_eq hw_tx_swap_other hw_tx_csum_eq
      tx_frame_def Let_def)

section \<open>Reading the edited frame\<close>

lemma nth_set_check:
  assumes "26 \<le> length b" and "length c = 2" and "i < length b"
  shows "set_check b c ! i = (if i = 24 then c ! 0 else if i = 25 then c ! 1 else b ! i)"
proof -
  consider "i < 24" | "i = 24" | "i = 25" | "26 \<le> i" by linarith
  then show ?thesis using assms by cases (auto simp: set_check_def nth_append)
qed

lemma nth_swap_frame:
  assumes "39 \<le> length b" and "i < length b"
  shows "swap_frame b ! i =
    (if 26 \<le> i \<and> i < 30 then b ! (i + 4) else if 30 \<le> i \<and> i < 34 then b ! (i - 4)
     else if i = 38 then b ! 38 - 8 else b ! i)"
proof -
  consider "i < 26" | "26 \<le> i" "i < 30" | "30 \<le> i" "i < 34" | "34 \<le> i" "i < 38" | "i = 38" | "39 \<le> i"
    by linarith
  then show ?thesis using assms by cases (auto simp: swap_frame_def nth_append nth_Cons' add.commute)
qed

lemma nth_tx_frame:
  assumes "39 \<le> length b" and "i < length b"
  shows "tx_frame E b ! i =
    (if i = 24 then ip_check E (if is_ping (frame_kind b) then swap_frame b else b) ! 0
     else if i = 25 then ip_check E (if is_ping (frame_kind b) then swap_frame b else b) ! 1
     else if is_ping (frame_kind b) then swap_frame b ! i else b ! i)"
  using assms by (simp add: tx_frame_def Let_def nth_set_check)

section \<open>Reception\<close>

definition icmp_reply :: "byte list \<Rightarrow> byte list" where
  "icmp_reply b = (if b ! 20 = ICMP_ECHO \<and> b ! 21 = 0
     then b[20 := ICMP_ECHOREPLY, 24 := b ! 24 + 8] else b)"

lemma length_icmp_reply [simp]: "length (icmp_reply b) = length b"
  by (simp add: icmp_reply_def)

lemma icmp_fixup_eq: "25 \<le> length b \<Longrightarrow> icmp_fixup b = Inr (icmp_reply b)"
  by (simp add: icmp_fixup_def icmp_reply_def frame_consts)

text \<open>What \<open>eth_type_trans\<close> promises: the Ethernet header is pulled off the data.\<close>

definition eth_type_trans_law :: "snull_env \<Rightarrow> bool" where
  "eth_type_trans_law E \<longleftrightarrow> (\<forall>d b. snd (k_eth_type_trans E d b) = drop ETH_HLEN b)"

text \<open>The payload handed to the protocol stack for a frame given to \<open>snull_tx\<close>.\<close>

definition rx_payload :: "snull_env \<Rightarrow> byte list \<Rightarrow> byte list" where
  "rx_payload E b = icmp_reply (drop 14 (tx_frame E (pad_frame b)))"

lemma nth_rx_payload:
  assumes "i < length (pad_frame b) - 14"
  shows "rx_payload E b ! i =
    (let f = tx_frame E (pad_frame b) in
     if f ! 34 = ICMP_ECHO \<and> f ! 35 = 0
     then (if i = 20 then ICMP_ECHOREPLY else if i = 24 then f ! 38 + 8 else f ! (14 + i))
     else f ! (14 + i))"
proof -
  have "60 \<le> length (pad_frame b)" by (simp add: length_pad_frame frame_consts)
  then show ?thesis
    using assms by (auto simp: rx_payload_def icmp_reply_def Let_def length_tx_frame nth_list_update)
qed

text \<open>The kind of a frame is not changed by the edits of the transmitter.\<close>

lemma tx_frame_type:
  "39 \<le> length b \<Longrightarrow> tx_frame E b ! 34 = b ! 34 \<and> tx_frame E b ! 35 = b ! 35"
  by (simp add: nth_tx_frame nth_swap_frame)

lemma frame_kind_echo: "frame_kind b = ICMP_ECHO \<longleftrightarrow> b ! 34 = ICMP_ECHO \<and> b ! 35 = 0"
  by (auto simp: frame_kind_def frame_consts)

lemma frame_kind_reply: "frame_kind b = ICMP_ECHOREPLY \<longleftrightarrow> b ! 34 = ICMP_ECHOREPLY \<and> b ! 35 = 0"
  by (auto simp: frame_kind_def frame_consts)

lemma pad_frame_long: "60 \<le> length b \<Longrightarrow> pad_frame b = b"
  by (simp add: pad_frame_def frame_consts)

lemma echo_payload_nth:
  assumes "60 \<le> length b" and "frame_kind b = ICMP_ECHO" and "i < length b - 14"
  shows "rx_payload E b ! i =
    (if i = 10 then ip_check E (swap_frame b) ! 0 else if i = 11 then ip_check E (swap_frame b) ! 1
     else if 12 \<le> i \<and> i < 16 then b ! (i + 18) else if 16 \<le> i \<and> i < 20 then b ! (i + 10)
     else if i = 20 then ICMP_ECHOREPLY else b ! (i + 14))"
proof -
  have kind: "b ! 34 = ICMP_ECHO" "b ! 35 = 0" using assms(2) by (simp_all add: frame_kind_echo)
  have ping: "is_ping (frame_kind b)" using assms(2) by (simp add: is_ping_def)
  have tx: "tx_frame E b ! 34 = ICMP_ECHO" "tx_frame E b ! 35 = 0"
    using kind assms(1) tx_frame_type [of b E] by auto
  have step: "rx_payload E b ! i = (if i = 20 then ICMP_ECHOREPLY
      else if i = 24 then tx_frame E b ! 38 + 8 else tx_frame E b ! (14 + i))"
    using nth_rx_payload [of i b E] assms tx by (simp add: pad_frame_long)
  consider "i = 10" | "i = 11" | "12 \<le> i" "i < 16" | "16 \<le> i" "i < 20" | "i = 20" | "i = 24"
    | "i < 10" | "21 \<le> i" "i \<noteq> 24" by linarith
  then show ?thesis
    using step assms ping by cases (simp_all add: nth_tx_frame nth_swap_frame add.commute)
qed

lemma length_rx_payload: "60 \<le> length b \<Longrightarrow> length (rx_payload E b) = length b - 14"
  by (simp add: rx_payload_def pad_frame_long length_tx_frame)

section \<open>The Internet checksum\<close>

text \<open>
  The sum of a message as big-endian 16-bit words.  A message with its checksum in place is
  valid when its ones-complement sum is all ones, that is when the sum is positive and
  divisible by 65535.
\<close>

fun sum16 :: "byte list \<Rightarrow> nat" where
  "sum16 [] = 0"
| "sum16 [x] = 256 * unat x"
| "sum16 (x # y # bs) = 256 * unat x + unat y + sum16 bs"

definition csum_valid :: "byte list \<Rightarrow> bool" where
  "csum_valid bs \<longleftrightarrow> 0 < sum16 bs \<and> sum16 bs mod 65535 = 0"

lemma echo_payload_icmp:
  assumes "60 \<le> length b" and "frame_kind b = ICMP_ECHO"
  shows "drop 20 (rx_payload E b) = ICMP_ECHOREPLY # drop 35 b"
proof (rule nth_equalityI)
  show len: "length (drop 20 (rx_payload E b)) = length (ICMP_ECHOREPLY # drop 35 b)"
    using assms by (simp add: length_rx_payload)
  fix i assume "i < length (drop 20 (rx_payload E b))"
  then have "i < length b - 34" using assms by (simp add: length_rx_payload)
  then have "rx_payload E b ! (20 + i) = (if i = 0 then ICMP_ECHOREPLY else b ! (34 + i))"
    using echo_payload_nth [OF assms, of "20 + i" E] by (simp add: add.commute)
  moreover have "(ICMP_ECHOREPLY # drop 35 b) ! i = (if i = 0 then ICMP_ECHOREPLY else b ! (34 + i))"
    using \<open>i < length b - 34\<close> by (cases i) (simp_all add: add.commute)
  ultimately show "drop 20 (rx_payload E b) ! i = (ICMP_ECHOREPLY # drop 35 b) ! i"
    using assms len by (simp add: length_rx_payload)
qed

lemma sum16_first: "sum16 (x # bs) = 256 * unat x + sum16 (0 # bs)"
  by (cases bs) simp_all

lemma echo_icmp_split:
  assumes "60 \<le> length b" and "frame_kind b = ICMP_ECHO"
  shows "drop 34 b = ICMP_ECHO # drop 35 b"
  using assms nth_cons_drop [of 34 b] by (simp add: frame_kind_echo)

end
