(* ===== verification/Snull_Xmit.thy ===== *)
theory Snull_Xmit
  imports Snull_Frame
begin

text \<open>
  Transmission in \<open>snull.c\<close> with the regular interrupt handler: the effect of each
  interrupt, and the effect of \<open>snull_tx\<close> on two quiet devices.
\<close>

section \<open>Effects of reception\<close>

definition rx_skb :: "snull_env \<Rightarrow> devp \<Rightarrow> byte list \<Rightarrow> sk_buff" where
  "rx_skb E e bytes = \<lparr>skb_data = icmp_reply (snd (k_eth_type_trans E e bytes)), skb_dev = Some e,
     skb_protocol = fst (k_eth_type_trans E e bytes), skb_csum_unnecessary = True\<rparr>"

definition rx_log :: "snull_env \<Rightarrow> nat \<Rightarrow> sk_buff \<Rightarrow> kcall list \<Rightarrow> kcall list" where
  "rx_log E n skb tr =
     (if k_dev_alloc_skb E tr (int n + 2)
      then [NetifRx skb, DevAllocSkb (int n + 2) True] else [DevAllocSkb (int n + 2) False]) @ tr"

definition rx_stats :: "snull_env \<Rightarrow> nat \<Rightarrow> kcall list \<Rightarrow> net_device_stats \<Rightarrow> net_device_stats" where
  "rx_stats E n tr st =
     (if k_dev_alloc_skb E tr (int n + 2)
      then st\<lparr>rx_packets := rx_packets st + 1, rx_bytes := rx_bytes st + of_nat n\<rparr>
      else st\<lparr>rx_dropped := rx_dropped st + 1\<rparr>)"

definition wake_log :: "snull_env \<Rightarrow> devp \<Rightarrow> bool \<Rightarrow> kcall list \<Rightarrow> kcall list" where
  "wake_log E d was_empty tr =
     (if k_queue_stopped E tr d \<and> was_empty then WakeQueue d # tr else tr)"

definition give_back :: "devp \<Rightarrow> paddr \<Rightarrow> (devp \<Rightarrow> snull_priv option) \<Rightarrow> devp \<Rightarrow> snull_priv option" where
  "give_back d p m = m(d := map_option (\<lambda>pr. pr\<lparr>ppool := Some p\<rparr>) (m d))"

lemma snull_rx_eq:
  assumes "pkts s p = Some k" and "priv_of s e = Some pr" and "datalen k = int n"
    and "n \<le> length (pkt_data k)" and "39 \<le> n" and "eth_type_trans_law E"
  shows "snull_rx E e p s = Inr
    (if k_dev_alloc_skb E (ktrace s) (int n + 2)
     then emit (NetifRx (rx_skb E e (take n (pkt_data k))))
       (set_priv e (\<lambda>pr. pr\<lparr>stats := rx_stats E n (ktrace s) (stats pr)\<rparr>) (emit (DevAllocSkb (int n + 2) True) s))
     else set_priv e (\<lambda>pr. pr\<lparr>stats := rx_stats E n (ktrace s) (stats pr)\<rparr>) (emit (DevAllocSkb (int n + 2) False) s))"
proof -
  obtain proto body where pb: "k_eth_type_trans E e (take n (pkt_data k)) = (proto, body)"
    by (cases "k_eth_type_trans E e (take n (pkt_data k))")
  with assms(6) have body: "body = drop 14 (take n (pkt_data k))"
    using eth_type_trans_law_def [of E] by (metis ETH_HLEN_def snd_conv)
  with assms have "25 \<le> length body" by simp
  with pb show ?thesis
    using assms by (simp add: snull_rx_def build_skb_def count_rx_def rx_stats_def rx_skb_def
        icmp_fixup_eq snull_ops snull_state)
qed

lemma rx_interrupt:
  assumes "priv_of s e = Some pr" and "\<not> lock pr" and "status pr = SNULL_RX_INTR"
    and "rx_queue pr = Some p" and "pkts s p = Some k"
    and "priv_of s (pkt_dev k) = Some prd" and "\<not> lock prd"
    and "datalen k = int n" and "n \<le> length (pkt_data k)" and "39 \<le> n" and "eth_type_trans_law E"
  shows "\<exists>s'. snull_regular_interrupt E (Some e) s = Inr s' \<and> same_frame s s'
     \<and> pkts s' = (pkts s)(p \<mapsto> k\<lparr>pkt_next := ppool prd\<rparr>)
     \<and> priv_of s' = give_back (pkt_dev k) p ((priv_of s)(e \<mapsto> pr\<lparr>status := 0, rx_queue := pkt_next k,
           stats := rx_stats E n (ktrace s) (stats pr)\<rparr>))
     \<and> ktrace s' = wake_log E (pkt_dev k) (ppool prd = None)
           (rx_log E n (rx_skb E e (take n (pkt_data k))) (ktrace s))"
proof (cases "pkt_dev k = e")
  case True
  then have "prd = pr" using assms(1,6) by simp
  with True show ?thesis using assms
    by (auto simp: snull_regular_interrupt_def snull_ops snull_state snull_rx_eq SNULL_RX_INTR_def
        SNULL_TX_INTR_def same_frame_def give_back_def wake_log_def rx_log_def fun_eq_iff)
next
  case False
  with assms show ?thesis
    by (auto simp: snull_regular_interrupt_def snull_ops snull_state snull_rx_eq SNULL_RX_INTR_def
        SNULL_TX_INTR_def same_frame_def give_back_def wake_log_def rx_log_def fun_eq_iff)
qed

definition tx_stats :: "int \<Rightarrow> net_device_stats \<Rightarrow> net_device_stats" where
  "tx_stats n st = st\<lparr>tx_packets := tx_packets st + 1, tx_bytes := tx_bytes st + word_of_int n\<rparr>"

lemma tx_interrupt:
  assumes "priv_of s d = Some pr" and "\<not> lock pr" and "status pr = SNULL_TX_INTR"
    and "priv_skb pr = Some q" and "skbs s q = Some k"
  shows "\<exists>s'. snull_regular_interrupt E (Some d) s = Inr s'
     \<and> pkts s' = pkts s \<and> skbs s' = (skbs s)(q := None) \<and> shortpkt s' = shortpkt s
     \<and> snull_devs s' = snull_devs s \<and> snull_interrupt s' = snull_interrupt s
     \<and> priv_of s' = (priv_of s)(d \<mapsto> pr\<lparr>status := 0, stats := tx_stats (tx_packetlen pr) (stats pr)\<rparr>)
     \<and> ktrace s' = DevKfreeSkb (Some q) # ktrace s"
  using assms
  by (auto simp: snull_regular_interrupt_def tx_done_def snull_ops snull_state SNULL_RX_INTR_def
      SNULL_TX_INTR_def tx_stats_def fun_eq_iff)

end
