(* ===== verification/Snull_Quiet.thy ===== *)
theory Snull_Quiet
  imports Snull_Xmit
begin

text \<open>
  Transmission between two quiet devices: no interrupt is pending, no packet waits, the
  locks are free and each pool has a buffer.  One call of \<open>snull_tx\<close> then delivers the
  frame, frees the skb once, and leaves both devices quiet with the pools they had.
\<close>

definition quiet_priv :: "snull_priv \<Rightarrow> bool" where
  "quiet_priv pr \<longleftrightarrow> \<not> lock pr \<and> status pr = 0 \<and> rx_queue pr = None \<and> rx_int_enabled pr \<noteq> 0"

definition dev_quiet :: "snull_state \<Rightarrow> devp \<Rightarrow> paddr list \<Rightarrow> bool" where
  "dev_quiet s d ps \<longleftrightarrow> (\<exists>pr. priv_of s d = Some pr \<and> quiet_priv pr)
     \<and> pool_holds d ps s \<and> full_data ps s \<and> ps \<noteq> []"

definition snull_quiet :: "snull_state \<Rightarrow> devp \<Rightarrow> devp \<Rightarrow> (devp \<Rightarrow> paddr list) \<Rightarrow> bool" where
  "snull_quiet s d0 d1 P \<longleftrightarrow> snull_devs s 0 = Some d0 \<and> snull_devs s 1 = Some d1 \<and> d0 \<noteq> d1
     \<and> snull_interrupt s = Some RegularInterrupt \<and> dev_quiet s d0 (P d0) \<and> dev_quiet s d1 (P d1)"

text \<open>The device that receives what \<open>d\<close> transmits.\<close>

definition rx_dev :: "devp \<Rightarrow> devp \<Rightarrow> devp \<Rightarrow> byte list \<Rightarrow> devp" where
  "rx_dev d0 d1 d b = (if is_ping (frame_kind b) then d else if d = d0 then d1 else d0)"

text \<open>Everything \<open>snull_hw_tx\<close> adds to the history, and the private areas it leaves.\<close>

definition tx_log :: "snull_env \<Rightarrow> devp \<Rightarrow> devp \<Rightarrow> paddr list \<Rightarrow> skbp \<Rightarrow> byte list \<Rightarrow> kcall list \<Rightarrow> kcall list" where
  "tx_log E d e ps q b tr =
     (let tr1 = (if tl ps = [] then StopQueue d # tr else tr) in
      DevKfreeSkb (Some q) # wake_log E d (tl ps = [])
        (rx_log E (length b) (rx_skb E e (tx_frame E b)) tr1))"

definition tx_privs :: "snull_env \<Rightarrow> devp \<Rightarrow> devp \<Rightarrow> paddr list \<Rightarrow> bufp \<Rightarrow> byte list \<Rightarrow> kcall list \<Rightarrow>
    (devp \<Rightarrow> snull_priv option) \<Rightarrow> devp \<Rightarrow> snull_priv option" where
  "tx_privs E d e ps buf b tr m =
     (let tr1 = (if tl ps = [] then StopQueue d # tr else tr);
          m1 = m(e := map_option (\<lambda>pr. pr\<lparr>stats := rx_stats E (length b) tr1 (stats pr)\<rparr>) (m e))
      in m1(d := map_option (\<lambda>pr. pr\<lparr>stats := tx_stats (int (length b)) (stats pr),
                   tx_packetlen := int (length b), tx_packetdata := Some buf\<rparr>) (m1 d)))"

lemma hw_tx_dest_eq:
  assumes "snull_devs s 0 = Some d0" and "snull_devs s 1 = Some d1" and "d0 \<noteq> d1" and "d = d0 \<or> d = d1"
  shows "hw_tx_dest s (frame_kind b) d = Some (rx_dev d0 d1 d b)"
  using assms by (auto simp: hw_tx_dest_def rx_dev_def)

text \<open>The bytes reach the buffer, whichever memory \<open>snull_tx\<close> has chosen.\<close>

lemma store_frame:
  assumes "load_buf s buf = Inr b" and "skbs s q = Some kq"
  obtains s1 where "store_buf buf xs s = Inr s1" "pkts s1 = pkts s" "priv_of s1 = priv_of s"
      "ktrace s1 = ktrace s" "snull_devs s1 = snull_devs s" "snull_interrupt s1 = snull_interrupt s"
      "\<exists>kq. skbs s1 q = Some kq" "\<forall>r. (\<forall>r'. buf = SkbData r' \<longrightarrow> r \<noteq> r') \<longrightarrow> skbs s1 r = skbs s r"
proof (cases buf)
  case ShortPkt
  then show thesis using that [of "set_short xs s"] assms by (simp add: snull_ops snull_state)
next
  case (SkbData r)
  then obtain kr where "skbs s r = Some kr" using assms(1) by (auto simp: load_buf_def split: option.splits)
  then show thesis using SkbData assms that [of "set_skb r (Some (kr\<lparr>skb_data := xs\<rparr>)) s"]
    by (simp add: snull_ops snull_state)
qed

text \<open>A packet taken from the pool of \<open>d\<close>, filled, and put on the empty queue of \<open>e\<close>.\<close>

definition take_buf :: "devp \<Rightarrow> snull_packet \<Rightarrow> snull_state \<Rightarrow> snull_state" where
  "take_buf d k s = (if pkt_next k = None then emit (StopQueue d) else id)
     (set_priv d (\<lambda>pr. pr\<lparr>ppool := pkt_next k\<rparr>) s)"

definition fill_buf :: "paddr \<Rightarrow> int \<Rightarrow> byte list \<Rightarrow> snull_state \<Rightarrow> snull_state" where
  "fill_buf p n xs s = set_pkt p (\<lambda>x. x\<lparr>pkt_data := xs\<rparr>) (set_pkt p (\<lambda>x. x\<lparr>datalen := n\<rparr>) s)"

definition queue_buf :: "devp \<Rightarrow> paddr \<Rightarrow> snull_state \<Rightarrow> snull_state" where
  "queue_buf e p s = set_priv e (\<lambda>pr. pr\<lparr>rx_queue := Some p, status := status pr OR SNULL_RX_INTR\<rparr>)
      (set_pkt p (\<lambda>k. k\<lparr>pkt_next := None\<rparr>) s)"

text \<open>
  What \<open>snull_hw_tx\<close> does once the frame \<open>f\<close> is complete, for any interrupt function and any
  continuation after the receive interrupt.
\<close>

definition hw_rest :: "snull_env \<Rightarrow> (devp \<Rightarrow> snull_state \<Rightarrow> snull_state res) \<Rightarrow> (snull_state \<Rightarrow> snull_state res) \<Rightarrow>
    int \<Rightarrow> devp \<Rightarrow> byte list \<Rightarrow> devp \<Rightarrow> snull_state \<Rightarrow> snull_state res" where
  "hw_rest E intr fin len d f dest s1 =
     bind_res (snull_get_tx_buffer E d s1) (\<lambda>(p, s2).
     bind_res (upd_pkt p (\<lambda>k. k\<lparr>datalen := len\<rparr>) s2) (\<lambda>s3.
     bind_res (get_pkt s3 (Some p)) (\<lambda>k.
     bind_res (mem_copy f len) (\<lambda>bytes.
     bind_res (mem_store (pkt_data k) 0 bytes) (\<lambda>da.
     bind_res (upd_pkt p (\<lambda>k. k\<lparr>pkt_data := da\<rparr>) s3) (\<lambda>s4.
     bind_res (snull_enqueue_buf dest p s4) (\<lambda>s5.
     bind_res (netdev_priv s5 dest) (\<lambda>pr.
     bind_res (if rx_int_enabled pr \<noteq> 0
               then bind_res (upd_priv dest (\<lambda>pr. pr\<lparr>status := status pr OR SNULL_RX_INTR\<rparr>) s5) (intr dest)
               else Inr s5) fin))))))))"

lemma snull_hw_tx_rest:
  assumes "load_buf s buf = Inr b" and "60 \<le> length b" and "length b \<le> ETH_DATA_LEN"
    and "store_buf buf (tx_frame E b) s = Inr s1" and "hw_tx_dest s1 (frame_kind b) d = Some e"
  shows "snull_hw_tx E buf (int (length b)) d s = hw_rest E (raise_interrupt E)
     (hw_tx_complete E buf (int (length b)) d) (int (length b)) d (tx_frame E b) e s1"
proof -
  obtain b1 where b1: "hw_tx_prot b = Inr (frame_kind b)" "hw_tx_swap (frame_kind b) b = Inr b1"
      "hw_tx_csum E b1 = Inr (tx_frame E b)"
    using hw_tx_frame_eq [of b E] assms(2) by (auto simp: hw_tx_frame_def bind_res_eq_Inr)
  have "\<not> c_ulong (int (length b)) < int (ETH_HLEN + SIZEOF_IPHDR)"
    using assms(2,3) by (simp add: c_ulong_id frame_consts)
  then show ?thesis using assms b1 by (simp add: snull_hw_tx_def hw_rest_def)
qed

text \<open>In general the packet goes in front of what waits, and only enabled interrupts are raised.\<close>

definition push_buf :: "devp \<Rightarrow> paddr \<Rightarrow> paddr option \<Rightarrow> snull_state \<Rightarrow> snull_state" where
  "push_buf e p nx s = set_priv e (\<lambda>pr. pr\<lparr>rx_queue := Some p\<rparr>) (set_pkt p (\<lambda>k. k\<lparr>pkt_next := nx\<rparr>) s)"

lemma hw_rest_push:
  assumes len: "length f = n" "n \<le> ETH_DATA_LEN"
    and src: "priv_of s1 d = Some pr" "\<not> lock pr" "ppool pr = Some p" "pkts s1 p = Some k"
    and data: "length (pkt_data k) = ETH_DATA_LEN"
    and rx: "priv_of (take_buf d k s1) e = Some prx" "\<not> lock prx"
  shows "hw_rest E intr fin (int n) d f e s1
     = (let s5 = push_buf e p (rx_queue prx) (fill_buf p (int n) (f @ drop n (pkt_data k)) (take_buf d k s1))
        in bind_res (if rx_int_enabled prx \<noteq> 0
             then intr e (set_priv e (\<lambda>pr. pr\<lparr>status := status pr OR SNULL_RX_INTR\<rparr>) s5) else Inr s5) fin)"
proof -
  let ?n = "int n" and ?s2 = "take_buf d k s1" and ?xs = "f @ drop n (pkt_data k)"
  have k2: "pkts ?s2 p = Some k" using src by (simp add: take_buf_def snull_state)
  have get: "snull_get_tx_buffer E d s1 = Inr (p, ?s2)"
    using src by (simp add: snull_get_tx_buffer_eq take_buf_def)
  have fill: "upd_pkt p (\<lambda>k. k\<lparr>datalen := ?n\<rparr>) ?s2 = Inr (set_pkt p (\<lambda>k. k\<lparr>datalen := ?n\<rparr>) ?s2)"
      "get_pkt (set_pkt p (\<lambda>k. k\<lparr>datalen := ?n\<rparr>) ?s2) (Some p) = Inr (k\<lparr>datalen := ?n\<rparr>)"
      "upd_pkt p (\<lambda>x. x\<lparr>pkt_data := ?xs\<rparr>) (set_pkt p (\<lambda>k. k\<lparr>datalen := ?n\<rparr>) ?s2) = Inr (fill_buf p ?n ?xs ?s2)"
    using k2 by (simp_all add: snull_ops snull_state fill_buf_def)
  have copy: "mem_copy f ?n = Inr f" "mem_store (pkt_data k) 0 f = Inr ?xs"
    using len data by simp_all
  let ?s4 = "fill_buf p ?n ?xs ?s2"
  let ?s5 = "push_buf e p (rx_queue prx) ?s4"
  have enq: "snull_enqueue_buf e p ?s4 = Inr ?s5" "netdev_priv ?s5 e = Inr (prx\<lparr>rx_queue := Some p\<rparr>)"
    using rx k2 by (simp_all add: fill_buf_def push_buf_def snull_ops snull_state)
  have raise: "upd_priv e (\<lambda>pr. pr\<lparr>status := status pr OR SNULL_RX_INTR\<rparr>) ?s5
      = Inr (set_priv e (\<lambda>pr. pr\<lparr>status := status pr OR SNULL_RX_INTR\<rparr>) ?s5)"
    using rx(1) by (simp add: fill_buf_def push_buf_def snull_ops snull_state)
  show ?thesis
    using get fill copy enq raise by (simp add: hw_rest_def Let_def cong: if_cong)
qed

lemma hw_rest_steps:
  assumes "length f = n" "n \<le> ETH_DATA_LEN"
    and "priv_of s1 d = Some pr" "\<not> lock pr" "ppool pr = Some p" "pkts s1 p = Some k"
    and "length (pkt_data k) = ETH_DATA_LEN"
    and "priv_of (take_buf d k s1) e = Some prx" "\<not> lock prx" "rx_queue prx = None" "rx_int_enabled prx \<noteq> 0"
  shows "hw_rest E intr fin (int n) d f e s1
     = bind_res (intr e (queue_buf e p (fill_buf p (int n) (f @ drop n (pkt_data k)) (take_buf d k s1)))) fin"
  using hw_rest_push [OF assms(1-9)] assms(10,11)
  by (simp add: Let_def push_buf_def queue_buf_def snull_state)

text \<open>The receive interrupt gives the buffer back: only counters and the history differ.\<close>

definition mid_log :: "snull_env \<Rightarrow> devp \<Rightarrow> devp \<Rightarrow> paddr list \<Rightarrow> byte list \<Rightarrow> kcall list \<Rightarrow> kcall list" where
  "mid_log E d e ps b tr = wake_log E d (tl ps = [])
     (rx_log E (length b) (rx_skb E e (tx_frame E b)) (if tl ps = [] then StopQueue d # tr else tr))"

definition mid_privs :: "snull_env \<Rightarrow> devp \<Rightarrow> devp \<Rightarrow> paddr list \<Rightarrow> byte list \<Rightarrow> kcall list \<Rightarrow>
    (devp \<Rightarrow> snull_priv option) \<Rightarrow> devp \<Rightarrow> snull_priv option" where
  "mid_privs E d e ps b tr m = m(e := map_option (\<lambda>pr. pr\<lparr>stats := rx_stats E (length b)
     (if tl ps = [] then StopQueue d # tr else tr) (stats pr)\<rparr>) (m e))"

lemma rx_interrupt_returns:
  assumes pr: "priv_of s1 d = Some pr" "quiet_priv pr" "ppool pr = Some p"
    and pre: "priv_of s1 e = Some pre" "quiet_priv pre"
    and k: "pkts s1 p = Some k" "pkt_dev k = d" "length (pkt_data k) = ETH_DATA_LEN" "pkt_next k = list_head (tl ps)"
    and b: "60 \<le> length b" "length b \<le> ETH_DATA_LEN" and law: "eth_type_trans_law E"
  obtains s6 where "snull_regular_interrupt E (Some e) (queue_buf e p (fill_buf p (int (length b))
        (tx_frame E b @ drop (length b) (pkt_data k)) (take_buf d k s1))) = Inr s6" "same_frame s1 s6"
    "pkts s6 = (pkts s1)(p \<mapsto> k\<lparr>datalen := int (length b), pkt_data := tx_frame E b @ drop (length b) (pkt_data k)\<rparr>)"
    "priv_of s6 = mid_privs E d e ps b (ktrace s1) (priv_of s1)"
    "ktrace s6 = mid_log E d e ps b (ktrace s1)"
proof -
  let ?f = "tx_frame E b" and ?n = "length b"
  have lf: "length ?f = ?n" using b(1) by (simp add: length_tx_frame)
  define k4 where "k4 = k\<lparr>datalen := int ?n, pkt_data := ?f @ drop ?n (pkt_data k)\<rparr>"
  define prx where "prx = (if e = d then pr\<lparr>ppool := pkt_next k\<rparr> else pre)"
  define m5 where "m5 = (priv_of s1)(d \<mapsto> pr\<lparr>ppool := pkt_next k\<rparr>, e \<mapsto> prx\<lparr>rx_queue := Some p, status := SNULL_RX_INTR\<rparr>)"
  define tr1 where "tr1 = (if tl ps = [] then StopQueue d # ktrace s1 else ktrace s1)"
  let ?s5 = "queue_buf e p (fill_buf p (int ?n) (?f @ drop ?n (pkt_data k)) (take_buf d k s1))"
  have s5: "pkts ?s5 = (pkts s1)(p \<mapsto> k4\<lparr>pkt_next := None\<rparr>)" "priv_of ?s5 = m5" "ktrace ?s5 = tr1" "same_frame s1 ?s5"
    using k pre pr
    by (auto simp: queue_buf_def fill_buf_def take_buf_def k4_def tr1_def m5_def prx_def snull_state
        fun_eq_iff quiet_priv_def same_frame_def)
  let ?prd = "the (m5 d)"
  have "\<exists>s6. snull_regular_interrupt E (Some e) ?s5 = Inr s6 \<and> same_frame ?s5 s6
     \<and> pkts s6 = (pkts ?s5)(p \<mapsto> k4\<lparr>pkt_next := None, pkt_next := ppool ?prd\<rparr>)
     \<and> priv_of s6 = give_back d p ((priv_of ?s5)(e \<mapsto> (the (m5 e))\<lparr>status := 0, rx_queue := None,
           stats := rx_stats E ?n (ktrace ?s5) (stats (the (m5 e)))\<rparr>))
     \<and> ktrace s6 = wake_log E d (ppool ?prd = None) (rx_log E ?n (rx_skb E e ?f) (ktrace ?s5))"
    using rx_interrupt [of ?s5 e "the (m5 e)" p "k4\<lparr>pkt_next := None\<rparr>" ?prd ?n E]
      s5 law pr pre k(2,3) b lf
    by (simp add: m5_def prx_def k4_def quiet_priv_def)
  then obtain s6 where s6: "snull_regular_interrupt E (Some e) ?s5 = Inr s6" "same_frame ?s5 s6"
     "pkts s6 = (pkts ?s5)(p \<mapsto> k4\<lparr>pkt_next := None, pkt_next := ppool ?prd\<rparr>)"
     "priv_of s6 = give_back d p (m5(e \<mapsto> (the (m5 e))\<lparr>status := 0, rx_queue := None,
           stats := rx_stats E ?n tr1 (stats (the (m5 e)))\<rparr>))"
     "ktrace s6 = wake_log E d (ppool ?prd = None) (rx_log E ?n (rx_skb E e ?f) tr1)"
    unfolding s5(2,3) by blast
  have prd: "ppool ?prd = pkt_next k" by (auto simp: m5_def prx_def)
  show thesis
  proof (rule that [OF s6(1)])
    show "same_frame s1 s6" by (rule same_frame_trans [OF s5(4) s6(2)])
    show "pkts s6 = (pkts s1)(p \<mapsto> k\<lparr>datalen := int ?n, pkt_data := ?f @ drop ?n (pkt_data k)\<rparr>)"
      using s6(3) s5(1) prd by (cases k) (simp add: k4_def)
    show "priv_of s6 = mid_privs E d e ps b (ktrace s1) (priv_of s1)"
      using s6(4) pr pre
      by (cases pr; cases pre) (auto simp: m5_def mid_privs_def tr1_def prx_def give_back_def quiet_priv_def fun_eq_iff)
    show "ktrace s6 = mid_log E d e ps b (ktrace s1)"
      using s6(5) prd k(4) by (simp add: mid_log_def tr1_def)
  qed
qed

text \<open>Everything up to the completion of the transmission, on two quiet devices.\<close>

lemma hw_rest_mid:
  assumes quiet: "snull_quiet s d0 d1 P" and d: "d = d0 \<or> d = d1"
    and law: "eth_type_trans_law E"
    and buf: "load_buf s buf = Inr b" "60 \<le> length b" "length b \<le> ETH_DATA_LEN"
    and skb: "skbs s q = Some kq"
    and e: "e = rx_dev d0 d1 d b" and pool: "P d = p # ps" and k: "pkts s p = Some k"
  obtains s1 s5 s6 kx prx where "store_buf buf (tx_frame E b) s = Inr s1" "hw_tx_dest s1 (frame_kind b) d = Some e"
    "\<And>intr fin. hw_rest E intr fin (int (length b)) d (tx_frame E b) e s1 = bind_res (intr e s5) fin"
    "raise_interrupt E e s5 = Inr s6" "snull_interrupt s5 = Some RegularInterrupt"
    "priv_of s5 e = Some prx" "rx_queue prx = Some p" "pkts s5 p = Some kx"
    "datalen kx = int (length b)" "take (length b) (pkt_data kx) = tx_frame E b" "length b \<le> length (pkt_data kx)"
    "pkts s6 = (pkts s)(p \<mapsto> k\<lparr>datalen := int (length b), pkt_data := tx_frame E b @ drop (length b) (pkt_data k)\<rparr>)"
    "priv_of s6 = mid_privs E d e (P d) b (ktrace s) (priv_of s)"
    "ktrace s6 = mid_log E d e (P d) b (ktrace s)" "\<exists>kq. skbs s6 q = Some kq"
    "\<forall>r. (\<forall>r'. buf = SkbData r' \<longrightarrow> r \<noteq> r') \<longrightarrow> skbs s6 r = skbs s r"
    "snull_devs s6 = snull_devs s" "snull_interrupt s6 = Some RegularInterrupt"
proof -
  from quiet d have dq: "dev_quiet s d (P d)" by (auto simp: snull_quiet_def)
  have ed: "e = d0 \<or> e = d1" using e d by (auto simp: rx_dev_def)
  with quiet have eq: "dev_quiet s e (P e)" by (auto simp: snull_quiet_def)
  from dq obtain pr where pr: "priv_of s d = Some pr" "quiet_priv pr" "ppool pr = Some p"
    and own: "pkt_dev k = d" "length (pkt_data k) = ETH_DATA_LEN" "pkt_next k = list_head (tl (P d))"
    using pool k by (auto simp: dev_quiet_def pool_holds_def full_data_def nexts_def dest: chain_head)
  from eq obtain pre where pre: "priv_of s e = Some pre" "quiet_priv pre"
    by (auto simp: dev_quiet_def)
  obtain s1 where s1: "store_buf buf (tx_frame E b) s = Inr s1" "pkts s1 = pkts s" "priv_of s1 = priv_of s"
      "ktrace s1 = ktrace s" "snull_devs s1 = snull_devs s" "snull_interrupt s1 = snull_interrupt s"
      "\<exists>kq. skbs s1 q = Some kq" "\<forall>r. (\<forall>r'. buf = SkbData r' \<longrightarrow> r \<noteq> r') \<longrightarrow> skbs s1 r = skbs s r"
    by (rule store_frame [OF buf(1) skb])
  have dest: "hw_tx_dest s1 (frame_kind b) d = Some e"
    using hw_tx_dest_eq [of s1 d0 d1 d b] quiet d s1(5) e by (simp add: snull_quiet_def)
  have at1: "priv_of s1 d = Some pr" "priv_of s1 e = Some pre" "pkts s1 p = Some k"
    using pr pre k s1 by simp_all
  let ?s5 = "queue_buf e p (fill_buf p (int (length b)) (tx_frame E b @ drop (length b) (pkt_data k)) (take_buf d k s1))"
  obtain s6 where s6: "snull_regular_interrupt E (Some e) ?s5 = Inr s6" "same_frame s1 s6"
    "pkts s6 = (pkts s1)(p \<mapsto> k\<lparr>datalen := int (length b), pkt_data := tx_frame E b @ drop (length b) (pkt_data k)\<rparr>)"
    "priv_of s6 = mid_privs E d e (P d) b (ktrace s1) (priv_of s1)"
    "ktrace s6 = mid_log E d e (P d) b (ktrace s1)"
    by (rule rx_interrupt_returns [OF at1(1) pr(2,3) at1(2) pre(2) at1(3) own buf(2,3) law])
  have intr: "snull_interrupt s = Some RegularInterrupt" using quiet by (simp add: snull_quiet_def)
  define prx where "prx = (if e = d then pr\<lparr>ppool := pkt_next k\<rparr> else pre)"
  have rx: "priv_of (take_buf d k s1) e = Some prx" "\<not> lock prx" "rx_queue prx = None" "rx_int_enabled prx \<noteq> 0"
    using pr pre at1 by (auto simp: take_buf_def prx_def snull_state quiet_priv_def)
  have i5: "snull_interrupt ?s5 = Some RegularInterrupt"
    using s1(6) intr by (simp add: queue_buf_def fill_buf_def take_buf_def snull_state)
  then have r5: "raise_interrupt E e ?s5 = Inr s6" using s6(1) by (simp add: raise_interrupt_def)
  have lf: "length (tx_frame E b) = length b" using buf(2) by (simp add: length_tx_frame)
  let ?kx = "k\<lparr>datalen := int (length b), pkt_data := tx_frame E b @ drop (length b) (pkt_data k), pkt_next := None\<rparr>"
  have x5: "priv_of ?s5 e = Some (prx\<lparr>rx_queue := Some p, status := status prx OR SNULL_RX_INTR\<rparr>)" "pkts ?s5 p = Some ?kx"
    using rx(1) at1(3) by (simp_all add: queue_buf_def fill_buf_def take_buf_def snull_state)
  show thesis
    by (rule that [OF s1(1) dest hw_rest_steps [OF lf buf(3) at1(1) _ pr(3) at1(3) own(2) rx] r5 i5 x5(1) _ x5(2)])
      (use pr(2) s6 s1 intr lf own(2) buf(3) in \<open>simp_all add: same_frame_def quiet_priv_def\<close>)
qed

lemma snull_hw_tx_mid:
  assumes "snull_quiet s d0 d1 P" and "d = d0 \<or> d = d1" and "eth_type_trans_law E"
    and "load_buf s buf = Inr b" and "60 \<le> length b" and "length b \<le> ETH_DATA_LEN"
    and "skbs s q = Some kq" and "e = rx_dev d0 d1 d b" and "P d = p # ps" and "pkts s p = Some k"
  obtains s6 where "snull_hw_tx E buf (int (length b)) d s = hw_tx_complete E buf (int (length b)) d s6"
    "pkts s6 = (pkts s)(p \<mapsto> k\<lparr>datalen := int (length b), pkt_data := tx_frame E b @ drop (length b) (pkt_data k)\<rparr>)"
    "priv_of s6 = mid_privs E d e (P d) b (ktrace s) (priv_of s)"
    "ktrace s6 = mid_log E d e (P d) b (ktrace s)" "\<exists>kq. skbs s6 q = Some kq"
    "\<forall>r. (\<forall>r'. buf = SkbData r' \<longrightarrow> r \<noteq> r') \<longrightarrow> skbs s6 r = skbs s r"
    "snull_devs s6 = snull_devs s" "snull_interrupt s6 = Some RegularInterrupt"
proof (rule hw_rest_mid [OF assms], goal_cases)
  case (1 s1 s5 s6 kx prx)
  then show thesis by (intro that [of s6]) (simp_all add: snull_hw_tx_rest [OF assms(4-6)])
qed

lemma snull_hw_tx_quiet:
  assumes quiet: "snull_quiet s d0 d1 P" and d: "d = d0 \<or> d = d1"
    and env: "lockup E = 0" "eth_type_trans_law E"
    and buf: "load_buf s buf = Inr b" "60 \<le> length b" "length b \<le> ETH_DATA_LEN"
    and skb: "priv_of s d = Some pr" "priv_skb pr = Some q" "skbs s q = Some kq"
    and e: "e = rx_dev d0 d1 d b" and pool: "P d = p # ps" and k: "pkts s p = Some k"
  shows "\<exists>s'. snull_hw_tx E buf (int (length b)) d s = Inr s'
     \<and> pkts s' = (pkts s)(p \<mapsto> k\<lparr>datalen := int (length b),
           pkt_data := tx_frame E b @ drop (length b) (pkt_data k)\<rparr>)
     \<and> priv_of s' = tx_privs E d e (P d) buf b (ktrace s) (priv_of s)
     \<and> ktrace s' = tx_log E d e (P d) q b (ktrace s)
     \<and> (\<forall>r. r \<noteq> q \<longrightarrow> (\<forall>r'. buf = SkbData r' \<longrightarrow> r \<noteq> r') \<longrightarrow> skbs s' r = skbs s r) \<and> skbs s' q = None
     \<and> snull_devs s' = snull_devs s \<and> snull_interrupt s' = snull_interrupt s"
proof -
  let ?n = "length b"
  obtain s6 where s6: "snull_hw_tx E buf (int ?n) d s = hw_tx_complete E buf (int ?n) d s6"
    "pkts s6 = (pkts s)(p \<mapsto> k\<lparr>datalen := int ?n, pkt_data := tx_frame E b @ drop ?n (pkt_data k)\<rparr>)"
    "priv_of s6 = mid_privs E d e (P d) b (ktrace s) (priv_of s)"
    "ktrace s6 = mid_log E d e (P d) b (ktrace s)" "\<exists>kq. skbs s6 q = Some kq"
    "\<forall>r. (\<forall>r'. buf = SkbData r' \<longrightarrow> r \<noteq> r') \<longrightarrow> skbs s6 r = skbs s r"
    "snull_devs s6 = snull_devs s" "snull_interrupt s6 = Some RegularInterrupt"
    by (rule snull_hw_tx_mid [OF quiet d env(2) buf skb(3) e pool k])
  from quiet d skb(1) have qp: "quiet_priv pr" by (auto simp: snull_quiet_def dev_quiet_def)
  define pr6 where "pr6 = the (priv_of s6 d)"
  have pr6: "priv_of s6 d = Some pr6" "\<not> lock pr6" "status pr6 = 0" "priv_skb pr6 = Some q"
    using s6(3) qp skb by (auto simp: mid_privs_def pr6_def quiet_priv_def)
  define pr7 where "pr7 = pr6\<lparr>tx_packetlen := int ?n, tx_packetdata := Some buf, status := SNULL_TX_INTR\<rparr>"
  define s7 where "s7 = set_priv d (\<lambda>pr. pr\<lparr>tx_packetlen := int ?n, tx_packetdata := Some buf,
      status := status pr OR SNULL_TX_INTR\<rparr>) s6"
  obtain kq6 where kq6: "skbs s6 q = Some kq6" using s6(5) by blast
  have s7: "priv_of s7 = (priv_of s6)(d \<mapsto> pr7)" "skbs s7 q = Some kq6"
    using pr6 kq6 by (auto simp: s7_def pr7_def snull_state fun_eq_iff)
  have "\<exists>s8. snull_regular_interrupt E (Some d) s7 = Inr s8
     \<and> pkts s8 = pkts s7 \<and> skbs s8 = (skbs s7)(q := None) \<and> shortpkt s8 = shortpkt s7
     \<and> snull_devs s8 = snull_devs s7 \<and> snull_interrupt s8 = snull_interrupt s7
     \<and> priv_of s8 = (priv_of s7)(d \<mapsto> pr7\<lparr>status := 0, stats := tx_stats (tx_packetlen pr7) (stats pr7)\<rparr>)
     \<and> ktrace s8 = DevKfreeSkb (Some q) # ktrace s7"
    using s7 pr6 by (intro tx_interrupt [where k = kq6]) (simp_all add: pr7_def)
  then obtain s8 where s8: "snull_regular_interrupt E (Some d) s7 = Inr s8"
      "pkts s8 = pkts s7" "skbs s8 = (skbs s7)(q := None)"
      "snull_devs s8 = snull_devs s7" "snull_interrupt s8 = snull_interrupt s7"
      "priv_of s8 = (priv_of s7)(d \<mapsto> pr7\<lparr>status := 0, stats := tx_stats (tx_packetlen pr7) (stats pr7)\<rparr>)"
      "ktrace s8 = DevKfreeSkb (Some q) # ktrace s7"
    by blast
  have "netdev_priv s7 d = Inr pr7" "snull_interrupt s7 = Some RegularInterrupt"
    using s7(1) s6(8) by (simp_all add: netdev_priv_eq) (simp add: s7_def snull_state)
  then have "hw_tx_complete E buf (int ?n) d s6 = Inr s8"
    using upd_priv_eq [OF pr6(1)] s8(1) env(1)
    by (simp add: hw_tx_complete_def s7_def [symmetric] raise_interrupt_def)
  moreover have "priv_of s8 = tx_privs E d e (P d) buf b (ktrace s) (priv_of s)"
    using s8(6) s7(1) s6(3) pr6 qp skb
    by (cases pr6) (auto simp: tx_privs_def Let_def mid_privs_def pr7_def fun_eq_iff)
  moreover have "ktrace s8 = tx_log E d e (P d) q b (ktrace s)"
    using s8(7) s6(4) by (simp add: s7_def snull_state tx_log_def Let_def mid_log_def)
  moreover have "skbs s8 = (skbs s6)(q := None)" "pkts s8 = pkts s6"
    "snull_devs s8 = snull_devs s" "snull_interrupt s8 = snull_interrupt s"
    using s8 s6 quiet by (simp_all add: s7_def snull_state snull_quiet_def)
  ultimately show ?thesis using s6(1,2,6) by (intro exI [of _ s8]) simp
qed

section \<open>The whole of \<open>snull_tx\<close>\<close>

text \<open>The buffer \<open>snull_tx\<close> passes on, and the state in which it calls \<open>snull_hw_tx\<close>.\<close>

definition tx_buf :: "skbp \<Rightarrow> byte list \<Rightarrow> bufp" where
  "tx_buf q b = (if length b < ETH_ZLEN then ShortPkt else SkbData q)"

definition tx_entry :: "snull_env \<Rightarrow> skbp \<Rightarrow> devp \<Rightarrow> byte list \<Rightarrow> snull_state \<Rightarrow> snull_state" where
  "tx_entry E q d b s = set_priv d (\<lambda>pr. pr\<lparr>priv_skb := Some q\<rparr>)
     (set_dev d (\<lambda>nd. nd\<lparr>trans_start := k_jiffies E (ktrace s)\<rparr>)
       ((if length b < ETH_ZLEN then set_short (pad_frame b) else id) s))"

lemma snull_tx_eq:
  assumes "skbs s q = Some kq" and "b = skb_data kq" and "length b < 2 ^ 31"
    and "priv_of s d = Some pr" and "\<not> lock pr"
  shows "snull_tx E q d s = bind_res (snull_hw_tx E (tx_buf q b) (int (length (pad_frame b))) d (tx_entry E q d b s))
     (\<lambda>s'. Inr (0, s'))"
proof -
  have sp: "s\<lparr>shortpkt := x\<rparr> = set_short x s" for x by (simp add: set_short_def)
  have unlock: "set_priv d (\<lambda>pr. pr\<lparr>priv_skb := x, lock := False\<rparr>) t = set_priv d (\<lambda>pr. pr\<lparr>priv_skb := x\<rparr>) t"
    if "priv_of t d = Some pr" for t x
    using assms(5) by (intro set_priv_cong [OF that]) (cases pr, simp)
  show ?thesis
  proof (cases "length b < ETH_ZLEN")
    case True
    then have "length b < 60" "length (pad_frame b) = ETH_ZLEN"
      by (simp_all add: length_pad_frame frame_consts)
    with True assms show ?thesis
      by (simp add: snull_tx_def Let_def tx_entry_def tx_buf_def snull_ops snull_state shortpkt_pad sp unlock
          del: mem_store_ok)
  next
    case False
    then have "pad_frame b = b" by (simp add: pad_frame_def)
    with False assms show ?thesis
      by (simp add: snull_tx_def Let_def tx_entry_def tx_buf_def snull_ops snull_state unlock)
  qed
qed

lemma tx_entry_simps [snull_state]:
  "pkts (tx_entry E q d b s) = pkts s" "skbs (tx_entry E q d b s) = skbs s"
  "snull_devs (tx_entry E q d b s) = snull_devs s" "ktrace (tx_entry E q d b s) = ktrace s"
  "snull_interrupt (tx_entry E q d b s) = snull_interrupt s" "nexts (tx_entry E q d b s) = nexts s"
  "priv_of (tx_entry E q d b s) e =
     (if e = d then map_option (\<lambda>pr. pr\<lparr>priv_skb := Some q\<rparr>) (priv_of s d) else priv_of s e)"
  by (simp_all add: tx_entry_def snull_state)

lemma tx_buf_entry:
  assumes "skbs s q = Some kq" and "b = skb_data kq"
  shows "load_buf (tx_entry E q d b s) (tx_buf q b) = Inr (pad_frame b)"
  using assms by (simp add: tx_buf_def tx_entry_def snull_ops snull_state pad_frame_def)

text \<open>What a device keeps of its private area does not matter for being quiet.\<close>

lemma dev_quiet_cong:
  assumes "dev_quiet s d ps" and "priv_of s d = Some pr"
    and "priv_of s' d = Some pr'" and "quiet_priv pr'" and "ppool pr' = ppool pr"
    and "\<And>p. p \<in> set ps \<Longrightarrow> \<exists>k k'. pkts s p = Some k \<and> pkts s' p = Some k'
           \<and> pkt_next k' = pkt_next k \<and> pkt_dev k' = pkt_dev k \<and> length (pkt_data k') = length (pkt_data k)"
  shows "dev_quiet s' d ps"
proof -
  have nx: "\<And>p. p \<in> set ps \<Longrightarrow> nexts s' p = nexts s p"
    using assms(6) by (force simp: nexts_def)
  have ch: "chain (nexts s) (ppool pr) ps" using assms(1,2) by (auto simp: dev_quiet_def pool_holds_def)
  have "chain (nexts s') (ppool pr') ps" unfolding assms(5) by (rule chain_cong [OF ch nx])
  moreover have "\<forall>p \<in> set ps. \<exists>k. pkts s' p = Some k \<and> pkt_dev k = d"
    using assms(1,6) by (force simp: dev_quiet_def pool_holds_def)
  moreover have "full_data ps s'"
    using assms(1,6) by (force simp: dev_quiet_def full_data_def)
  ultimately show ?thesis
    using assms(1,3,4) by (simp add: dev_quiet_def pool_holds_def quiet_priv_def)
qed

lemma snull_quiet_entry: "snull_quiet s d0 d1 P \<Longrightarrow> snull_quiet (tx_entry E q d b s) d0 d1 P"
  by (auto simp: snull_quiet_def dev_quiet_def quiet_priv_def pool_holds_def full_data_def snull_state)

end
