(* ===== verification/Snull_Transmit.thy ===== *)
theory Snull_Transmit
  imports Snull_Quiet
begin

text \<open>
  The contract of \<open>snull_tx\<close> with the regular interrupt handler: on two quiet devices it
  delivers the frame, accounts for it, frees the skb once and restores quietness; outside
  its preconditions (frame too long, pool empty, queue stalled) it faults.
\<close>

section \<open>Delivery\<close>

definition tx_ready :: "snull_env \<Rightarrow> snull_state \<Rightarrow> devp \<Rightarrow> devp \<Rightarrow> (devp \<Rightarrow> paddr list) \<Rightarrow> devp \<Rightarrow> skbp \<Rightarrow> byte list \<Rightarrow> bool" where
  "tx_ready E s d0 d1 P d q b \<longleftrightarrow> snull_quiet s d0 d1 P \<and> (d = d0 \<or> d = d1)
     \<and> lockup E = 0 \<and> eth_type_trans_law E
     \<and> map_option skb_data (skbs s q) = Some b \<and> length b \<le> ETH_DATA_LEN"

lemma snull_tx_run:
  assumes "tx_ready E s d0 d1 P d q b"
  obtains s' p k f where "snull_tx E q d s = Inr (0, s')"
    "skbs s' = (skbs s)(q := None)"
    "ktrace s' = tx_log E d (rx_dev d0 d1 d (pad_frame b)) (P d) q (pad_frame b) (ktrace s)"
    "priv_of s' = tx_privs E d (rx_dev d0 d1 d (pad_frame b)) (P d) (tx_buf q b) (pad_frame b) (ktrace s)
        (priv_of (tx_entry E q d b s))"
    "pkts s p = Some k" "pkts s' = (pkts s)(p \<mapsto> f k)" "pkt_next (f k) = pkt_next k"
    "pkt_dev (f k) = pkt_dev k" "length (pkt_data (f k)) = length (pkt_data k)"
    "snull_devs s' = snull_devs s" "snull_interrupt s' = snull_interrupt s"
proof -
  let ?b = "pad_frame b" and ?t = "tx_entry E q d b s"
  from assms obtain kq where kq: "skbs s q = Some kq" "b = skb_data kq" by (auto simp: tx_ready_def)
  from assms have a: "snull_quiet s d0 d1 P" "d = d0 \<or> d = d1" "lockup E = 0" "eth_type_trans_law E"
    "length b \<le> ETH_DATA_LEN" by (auto simp: tx_ready_def)
  then have dq: "dev_quiet s d (P d)" by (auto simp: snull_quiet_def)
  then obtain pr p ps where pr: "priv_of s d = Some pr" "quiet_priv pr" and ps: "P d = p # ps"
    by (auto simp: dev_quiet_def neq_Nil_conv)
  from dq ps obtain k where k: "pkts s p = Some k" "length (pkt_data k) = ETH_DATA_LEN"
    by (auto simp: dev_quiet_def pool_holds_def full_data_def)
  have len: "60 \<le> length ?b" "length ?b \<le> ETH_DATA_LEN"
    using a(5) by (simp_all add: length_pad_frame frame_consts)
  have "\<exists>s'. snull_hw_tx E (tx_buf q b) (int (length ?b)) d ?t = Inr s'
     \<and> pkts s' = (pkts ?t)(p \<mapsto> k\<lparr>datalen := int (length ?b),
           pkt_data := tx_frame E ?b @ drop (length ?b) (pkt_data k)\<rparr>)
     \<and> priv_of s' = tx_privs E d (rx_dev d0 d1 d ?b) (P d) (tx_buf q b) ?b (ktrace ?t) (priv_of ?t)
     \<and> ktrace s' = tx_log E d (rx_dev d0 d1 d ?b) (P d) q ?b (ktrace ?t)
     \<and> (\<forall>r. r \<noteq> q \<longrightarrow> (\<forall>r'. tx_buf q b = SkbData r' \<longrightarrow> r \<noteq> r') \<longrightarrow> skbs s' r = skbs ?t r) \<and> skbs s' q = None
     \<and> snull_devs s' = snull_devs ?t \<and> snull_interrupt s' = snull_interrupt ?t"
    using snull_quiet_entry [OF a(1)] a kq len pr k ps tx_buf_entry [OF kq]
    by (intro snull_hw_tx_quiet [where pr = "pr\<lparr>priv_skb := Some q\<rparr>" and ps = ps and kq = kq])
      (simp_all add: snull_state)
  then obtain s' where s': "snull_hw_tx E (tx_buf q b) (int (length ?b)) d ?t = Inr s'"
      "pkts s' = (pkts s)(p \<mapsto> k\<lparr>datalen := int (length ?b),
           pkt_data := tx_frame E ?b @ drop (length ?b) (pkt_data k)\<rparr>)"
      "priv_of s' = tx_privs E d (rx_dev d0 d1 d ?b) (P d) (tx_buf q b) ?b (ktrace s) (priv_of ?t)"
      "ktrace s' = tx_log E d (rx_dev d0 d1 d ?b) (P d) q ?b (ktrace s)"
      "\<forall>r. r \<noteq> q \<longrightarrow> (\<forall>r'. tx_buf q b = SkbData r' \<longrightarrow> r \<noteq> r') \<longrightarrow> skbs s' r = skbs s r" "skbs s' q = None"
      "snull_devs s' = snull_devs s" "snull_interrupt s' = snull_interrupt s"
    unfolding tx_entry_simps(1-6) by (elim exE conjE) (rule that)
  show thesis
  proof (rule that [where f = "\<lambda>k. k\<lparr>datalen := int (length ?b),
           pkt_data := tx_frame E ?b @ drop (length ?b) (pkt_data k)\<rparr>"])
    show "snull_tx E q d s = Inr (0, s')"
      using snull_tx_eq [OF kq _ pr(1)] pr(2) s'(1) a(5) by (simp add: quiet_priv_def frame_consts)
    show "skbs s' = (skbs s)(q := None)"
    proof
      fix r show "skbs s' r = ((skbs s)(q := None)) r"
        using s'(5,6) by (cases "r = q") (auto simp: tx_buf_def)
    qed
    show "length (pkt_data (k\<lparr>datalen := int (length ?b),
        pkt_data := tx_frame E ?b @ drop (length ?b) (pkt_data k)\<rparr>)) = length (pkt_data k)"
      using k(2) len by (auto simp: length_tx_frame)
  qed (use s' k in simp_all)
qed

lemma quiet_priv_tx_privs:
  assumes "tx_privs E d e ps buf b tr m x = Some pr'"
  shows "\<exists>pr. m x = Some pr \<and> (quiet_priv pr' \<longleftrightarrow> quiet_priv pr) \<and> ppool pr' = ppool pr"
  using assms by (auto simp: tx_privs_def Let_def quiet_priv_def split: if_splits)

lemma tx_privs_dom: "tx_privs E d e ps buf b tr m x = None \<longleftrightarrow> m x = None"
  by (simp add: tx_privs_def Let_def)

lemma snull_tx_quiet:
  assumes "tx_ready E s d0 d1 P d q b" and "snull_tx E q d s = Inr (r, s')"
  shows "snull_quiet s' d0 d1 P"
proof -
  obtain s2 p k f where run: "snull_tx E q d s = Inr (0, s2)"
    "skbs s2 = (skbs s)(q := None)"
    "ktrace s2 = tx_log E d (rx_dev d0 d1 d (pad_frame b)) (P d) q (pad_frame b) (ktrace s)"
    "priv_of s2 = tx_privs E d (rx_dev d0 d1 d (pad_frame b)) (P d) (tx_buf q b) (pad_frame b) (ktrace s)
        (priv_of (tx_entry E q d b s))"
    "pkts s p = Some k" "pkts s2 = (pkts s)(p \<mapsto> f k)" "pkt_next (f k) = pkt_next k"
    "pkt_dev (f k) = pkt_dev k" "length (pkt_data (f k)) = length (pkt_data k)"
    "snull_devs s2 = snull_devs s" "snull_interrupt s2 = snull_interrupt s"
    using assms(1) by (rule snull_tx_run)
  have s2: "s2 = s'" using run(1) assms(2) by simp
  have quiet: "dev_quiet s' x (P x)" if "dev_quiet s x (P x)" for x
  proof -
    from that obtain pr where pr: "priv_of s x = Some pr" "quiet_priv pr" by (auto simp: dev_quiet_def)
    then have "priv_of (tx_entry E q d b s) x \<noteq> None" by (auto simp: snull_state)
    with run(4) s2 obtain pr' where pr': "priv_of s' x = Some pr'"
      by (metis not_None_eq tx_privs_dom)
    from quiet_priv_tx_privs [of _ _ _ _ _ _ _ _ x pr'] pr' run(4) s2 obtain pr2 where
      pr2: "priv_of (tx_entry E q d b s) x = Some pr2" "quiet_priv pr' \<longleftrightarrow> quiet_priv pr2" "ppool pr' = ppool pr2"
      by metis
    have "quiet_priv pr' \<and> ppool pr' = ppool pr"
      using pr pr2 by (auto simp: snull_state quiet_priv_def split: if_splits)
    then show ?thesis
      using that pr pr' run(5-9) s2 by (intro dev_quiet_cong [OF that pr(1) pr'])
        (auto simp: dev_quiet_def pool_holds_def)
  qed
  have "snull_quiet s d0 d1 P" using assms(1) by (simp add: tx_ready_def)
  then show ?thesis using quiet run(10,11) s2 by (simp add: snull_quiet_def)
qed

end
