(* ===== verification/Snull_Loader.thy ===== *)
theory Snull_Loader
  imports Snull_Transmit
begin

text \<open>
  Loading and unloading a module of two interfaces, once for \<open>snull.c\<close> and the original: both
  allocate, register and clean up alike, and differ in the function that sets up a device.  The locale
  \<open>netdev_loader\<close> takes that function and its contract; every way out of loading follows.
\<close>

section \<open>What the kernel promises about devices\<close>

fun live_devs :: "kcall list \<Rightarrow> devp list" where
  "live_devs [] = []"
| "live_devs (AllocNetdev (Some d) # tr) = d # live_devs tr"
| "live_devs (FreeNetdev d # tr) = removeAll d (live_devs tr)"
| "live_devs (_ # tr) = live_devs tr"

text \<open>\<open>alloc_netdev\<close> returns a device that is not in use.\<close>

definition alloc_netdev_law :: "snull_env \<Rightarrow> bool" where
  "alloc_netdev_law E \<longleftrightarrow> (\<forall>tr d nd. k_alloc_netdev E tr = Some (d, nd) \<longrightarrow> d \<notin> set (live_devs tr))"

section \<open>Setting up one device\<close>

text \<open>A device that has been set up: interrupts enabled, with the pool that could be allocated.\<close>

definition fresh_priv :: "paddr list \<Rightarrow> snull_priv" where
  "fresh_priv ps = zero_priv\<lparr>rx_int_enabled := 1, ppool := list_head ps\<rparr>"

text \<open>The contract of a setup function: from \<open>s\<close> to \<open>s'\<close> device \<open>d\<close> got the new packets \<open>ps\<close>.\<close>

definition sets_up :: "snull_env \<Rightarrow> devp \<Rightarrow> snull_state \<Rightarrow> snull_state \<Rightarrow> paddr list \<Rightarrow> bool" where
  "sets_up E d s s' ps \<longleftrightarrow> pool_holds d ps s' \<and> full_data ps s' \<and> heap_ok s' \<and> same_frame s s'
     \<and> length ps \<le> nat (pool_size E) \<and> (kmalloc_total E \<longrightarrow> length ps = nat (pool_size E))
     \<and> (\<forall>p. p \<notin> set ps \<longrightarrow> pkts s' p = pkts s p) \<and> (\<forall>p \<in> set ps. pkts s p = None)
     \<and> priv_of s' = (priv_of s)(d \<mapsto> fresh_priv ps)
     \<and> (\<exists>ks. ktrace s' = ks @ ktrace s \<and> set ks \<subseteq> range KMalloc)"

lemma setup_pool_loop_trace:
  "setup_pool_loop E d n s = Inr s' \<Longrightarrow> \<exists>ks. ktrace s' = ks @ ktrace s \<and> set ks \<subseteq> range KMalloc"
proof (induction n arbitrary: s)
  case 0
  then show ?case by simp
next
  case (Suc n)
  show ?case
  proof (cases "k_kmalloc E (ktrace s)")
    case None
    with Suc.prems show ?thesis by (intro exI [of _ "[KMalloc None]"]) (auto simp: snull_state)
  next
    case (Some a)
    obtain p junk where a: "a = (p, junk)" by (cases a)
    from Suc.prems Some a obtain s4 where s4: "setup_pool_loop E d n s4 = Inr s'" "ktrace s4 = KMalloc (Some p) # ktrace s"
      by (auto simp: bind_res_eq_Inr upd_pkt_def upd_priv_def upd_dev_def snull_state)
    from Suc.IH [OF s4(1)] obtain ks where "ktrace s' = ks @ ktrace s4" "set ks \<subseteq> range KMalloc" by blast
    with s4(2) show ?thesis by (intro exI [of _ "ks @ [KMalloc (Some p)]"]) simp
  qed
qed

text \<open>The common end of both setup functions, on a cleared private area.\<close>

lemma setup_pool_sets_up:
  assumes "heap_ok t" and "kmalloc_law E" and t: "priv_of t = (priv_of s)(d \<mapsto> zero_priv\<lparr>rx_int_enabled := 1\<rparr>)"
    and "same_frame s t" and "pkts t = pkts s" and "ktrace t = ktrace s"
  shows "\<exists>s' ps. snull_setup_pool E d t = Inr s' \<and> sets_up E d s s' ps"
proof -
  have pr: "priv_of t d = Some (zero_priv\<lparr>rx_int_enabled := 1\<rparr>)" "\<not> lock (zero_priv\<lparr>rx_int_enabled := 1\<rparr>)"
    using t by (simp_all add: zero_priv_def)
  from snull_setup_pool_holds [OF assms(1,2) pr] obtain s' ps where s': "snull_setup_pool E d t = Inr s'" "pool_holds d ps s'" "full_data ps s'"
     "heap_ok s'" "same_frame t s'" "length ps \<le> nat (pool_size E)"
     "\<forall>p. p \<notin> set ps \<longrightarrow> pkts s' p = pkts t p" "\<forall>p \<in> set ps. pkts t p = None"
     "priv_of s' = (priv_of t)(d \<mapsto> zero_priv\<lparr>rx_int_enabled := 1, ppool := list_head ps\<rparr>)"
     "kmalloc_total E \<longrightarrow> length ps = nat (pool_size E)"
    by (elim exE conjE) (rule that)
  have "\<exists>ks. ktrace s' = ks @ ktrace t \<and> set ks \<subseteq> range KMalloc"
    using s'(1) pr by (auto simp: snull_setup_pool_def bind_res_eq_Inr snull_ops snull_state dest!: setup_pool_loop_trace)
  with s' t assms(4-6) have "sets_up E d s s' ps"
    by (simp add: sets_up_def fresh_priv_def same_frame_trans [OF assms(4)])
  with s'(1) show ?thesis by blast
qed

lemma live_devs_kmalloc: "set ks \<subseteq> range KMalloc \<Longrightarrow> live_devs (ks @ tr) = live_devs tr"
  by (induction ks) auto

text \<open>Devices and packets that exist are exactly those the history has not freed.\<close>

definition books_ok :: "snull_state \<Rightarrow> bool" where
  "books_ok s \<longleftrightarrow> heap_ok s \<and> dom (priv_of s) = set (live_devs (ktrace s))"

section \<open>Unloading\<close>

lemma pool_holds_other:
  assumes "pool_holds e qs s" and "priv_of s' e = priv_of s e"
    and "\<And>p. p \<in> set qs \<Longrightarrow> pkts s' p = pkts s p"
  shows "pool_holds e qs s'"
proof -
  from assms(1) obtain pr where pr: "priv_of s e = Some pr" "\<not> lock pr" "chain (nexts s) (ppool pr) qs"
    and own: "\<forall>p \<in> set qs. \<exists>k. pkts s p = Some k \<and> pkt_dev k = e"
    by (auto simp: pool_holds_def)
  have "chain (nexts s') (ppool pr) qs"
    by (rule chain_cong [OF pr(3)]) (simp add: nexts_def assms(3))
  then show ?thesis using pr own assms by (simp add: pool_holds_def)
qed

lemma pools_disjoint: "pool_holds d ps s \<Longrightarrow> pool_holds e qs s \<Longrightarrow> d \<noteq> e \<Longrightarrow> set ps \<inter> set qs = {}"
  by (force simp: pool_holds_def)

lemma cleanup_dev_frees:
  assumes "snull_devs s i = Some d" and "pool_holds d ps s" and "length ps \<le> fuel"
  obtains s' where "cleanup_dev fuel i s = Inr s'"
    "pkts s' = (\<lambda>p. if p \<in> set ps then None else pkts s p)" "priv_of s' = (priv_of s)(d := None)"
    "same_frame s s'"
    "ktrace s' = FreeNetdev d # map KFree (rev ps) @ UnregisterNetdev d # ktrace s"
proof -
  let ?t = "emit (UnregisterNetdev d) s"
  have hold: "pool_holds d ps ?t" using assms(2) by (simp add: pool_holds_def snull_state)
  then obtain pr where pr: "priv_of ?t d = Some pr" by (auto simp: pool_holds_def)
  obtain s1 where s1: "snull_teardown_pool fuel d ?t = Inr s1"
     "pkts s1 = (\<lambda>p. if p \<in> set ps then None else pkts s p)"
     "ktrace s1 = map KFree (rev ps) @ ktrace ?t" "same_frame ?t s1"
     "priv_of s1 = (priv_of ?t)(d \<mapsto> pr\<lparr>ppool := None\<rparr>)"
    using snull_teardown_pool_frees [OF hold pr assms(3)] unfolding emit_simps(1)
    by (elim exE conjE) (rule that)
  let ?s = "(emit (FreeNetdev d) s1)\<lparr>netdevs := (netdevs s1)(d := None)\<rparr>"
  have "priv_of ?s = (priv_of s1)(d := None)" by (auto simp: priv_of_def emit_def fun_eq_iff)
  then show thesis
    using s1 assms(1) by (intro that [of ?s]) (simp_all add: cleanup_dev_def snull_state same_frame_def)
qed

lemma snull_cleanup_frees:
  assumes "snull_devs s 0 = Some d0" and "snull_devs s 1 = Some d1" and "d0 \<noteq> d1"
    and "pool_holds d0 ps s" and "pool_holds d1 qs s" and "length ps \<le> fuel" and "length qs \<le> fuel"
  obtains s' where "snull_cleanup fuel s = Inr s'"
    "pkts s' = (\<lambda>p. if p \<in> set ps \<union> set qs then None else pkts s p)"
    "priv_of s' = (priv_of s)(d0 := None, d1 := None)" "same_frame s s'"
    "ktrace s' = FreeNetdev d1 # map KFree (rev qs) @ UnregisterNetdev d1
        # FreeNetdev d0 # map KFree (rev ps) @ UnregisterNetdev d0 # ktrace s"
proof -
  obtain s1 where s1: "cleanup_dev fuel 0 s = Inr s1"
    "pkts s1 = (\<lambda>p. if p \<in> set ps then None else pkts s p)" "priv_of s1 = (priv_of s)(d0 := None)"
    "same_frame s s1" "ktrace s1 = FreeNetdev d0 # map KFree (rev ps) @ UnregisterNetdev d0 # ktrace s"
    by (rule cleanup_dev_frees [OF assms(1,4,6)])
  have "set ps \<inter> set qs = {}" using pools_disjoint assms(3,4,5) by blast
  then have hold: "pool_holds d1 qs s1"
    using assms(3) s1(2,3) by (intro pool_holds_other [OF assms(5)]) auto
  have dev: "snull_devs s1 1 = Some d1" using assms(2) s1(4) by (simp add: same_frame_def)
  obtain s2 where s2: "cleanup_dev fuel 1 s1 = Inr s2"
    "pkts s2 = (\<lambda>p. if p \<in> set qs then None else pkts s1 p)" "priv_of s2 = (priv_of s1)(d1 := None)"
    "same_frame s1 s2" "ktrace s2 = FreeNetdev d1 # map KFree (rev qs) @ UnregisterNetdev d1 # ktrace s1"
    by (rule cleanup_dev_frees [OF dev hold assms(7)])
  show thesis
    using s1 s2 same_frame_trans [OF s1(4) s2(4)]
    by (intro that [of s2]) (auto simp: snull_cleanup_def fun_eq_iff)
qed

section \<open>Two devices\<close>

text \<open>Both devices as they are set up, and nothing else allocated.\<close>

definition fresh_pair :: "snull_state \<Rightarrow> devp \<Rightarrow> devp \<Rightarrow> paddr list \<Rightarrow> paddr list \<Rightarrow> bool" where
  "fresh_pair s d0 d1 ps qs \<longleftrightarrow> snull_devs s 0 = Some d0 \<and> snull_devs s 1 = Some d1 \<and> d0 \<noteq> d1
     \<and> pool_holds d0 ps s \<and> full_data ps s \<and> pool_holds d1 qs s \<and> full_data qs s
     \<and> priv_of s = [d0 \<mapsto> fresh_priv ps, d1 \<mapsto> fresh_priv qs]
     \<and> dom (pkts s) = set ps \<union> set qs \<and> skbs s = Map.empty"

definition nothing_held :: "snull_state \<Rightarrow> bool" where
  "nothing_held s \<longleftrightarrow> pkts s = Map.empty \<and> netdevs s = Map.empty \<and> skbs s = Map.empty"

lemma netdevs_empty: "netdevs s = Map.empty \<longleftrightarrow> priv_of s = Map.empty"
  by (auto simp: priv_of_def fun_eq_iff)

text \<open>The interrupt handler a module parameter selects, and the kernel calls of loading.\<close>

definition intr_of :: "snull_env \<Rightarrow> intr_fn" where
  "intr_of E = (if use_napi E \<noteq> 0 then NapiInterrupt else RegularInterrupt)"

definition load_calls :: "kcall set" where
  "load_calls = {c. (\<exists>p. c = KMalloc p) \<or> (\<exists>d. c = AllocNetdev d) \<or> (\<exists>d r. c = RegisterNetdev d r)}"

text \<open>The state after both calls of \<open>alloc_netdev\<close>, whatever they returned.\<close>

definition after_alloc :: "snull_env \<Rightarrow> snull_state \<Rightarrow> bool" where
  "after_alloc E s \<longleftrightarrow> snull_interrupt s = Some (intr_of E) \<and> skbs s = Map.empty \<and> set (ktrace s) \<subseteq> load_calls
     \<and> (case (snull_devs s 0, snull_devs s 1) of
          (None, None) \<Rightarrow> nothing_held s
        | (Some d, None) \<Rightarrow> (\<exists>ps. pool_holds d ps s \<and> length ps \<le> nat (pool_size E)
             \<and> priv_of s = [d \<mapsto> fresh_priv ps] \<and> dom (pkts s) = set ps)
        | (None, Some d) \<Rightarrow> (\<exists>ps. pool_holds d ps s \<and> length ps \<le> nat (pool_size E)
             \<and> priv_of s = [d \<mapsto> fresh_priv ps] \<and> dom (pkts s) = set ps)
        | (Some d0, Some d1) \<Rightarrow> (\<exists>ps qs. fresh_pair s d0 d1 ps qs
             \<and> length ps \<le> nat (pool_size E) \<and> length qs \<le> nat (pool_size E)
             \<and> (kmalloc_total E \<longrightarrow> length ps = nat (pool_size E) \<and> length qs = nat (pool_size E))))"

lemma books_ok_boot:
  "books_ok (snull_boot\<lparr>snull_interrupt := i\<rparr>)"
  by (simp add: books_ok_def heap_ok_def snull_boot_def priv_of_def dom_def)

lemma pool_holds_devs [simp]: "pool_holds d ps (s\<lparr>snull_devs := f\<rparr>) = pool_holds d ps s"
  by (simp add: pool_holds_def priv_of_def nexts_def [abs_def])

lemma full_data_devs [simp]: "full_data ps (s\<lparr>snull_devs := f\<rparr>) = full_data ps s"
  by (simp add: full_data_def)

lemma books_ok_devs [simp]: "books_ok (s\<lparr>snull_devs := f\<rparr>) = books_ok s"
  by (simp add: books_ok_def heap_ok_def priv_of_def [abs_def])

lemma priv_of_devs [simp]: "priv_of (s\<lparr>snull_devs := f\<rparr>) = priv_of s"
  by (simp add: priv_of_def [abs_def])

lemma pool_holds_emit [simp]: "pool_holds d ps (emit k s) = pool_holds d ps s"
  by (simp add: pool_holds_def snull_state)

lemma full_data_emit [simp]: "full_data ps (emit k s) = full_data ps s"
  by (simp add: full_data_def snull_state)

lemma heap_dom: "\<forall>p. p \<notin> set ps \<longrightarrow> m' p = m p \<Longrightarrow> \<forall>p \<in> set ps. m p = None \<Longrightarrow>
    \<forall>p \<in> set ps. m' p \<noteq> None \<Longrightarrow> dom m' = dom m \<union> set ps"
  by (auto simp: dom_def)

lemma pool_holds_allocated: "pool_holds d ps s \<Longrightarrow> \<forall>p \<in> set ps. pkts s p \<noteq> None"
  by (auto simp: pool_holds_def)

lemma emit_nothing [simp]: "nothing_held (emit k s) = nothing_held s"
  by (simp add: nothing_held_def snull_state)

lemma fresh_pair_emit [simp]: "fresh_pair (emit k s) d0 d1 ps qs = fresh_pair s d0 d1 ps qs"
  by (simp add: fresh_pair_def snull_state)

lemma nothing_heldI:
  assumes "priv_of s = Map.empty" and "pkts s = Map.empty" and "skbs s = Map.empty"
  shows "nothing_held s"
  using assms by (simp add: nothing_held_def netdevs_empty)

lemma cleanup_dev_None: "snull_devs s i = None \<Longrightarrow> cleanup_dev fuel i s = Inr s"
  by (simp add: cleanup_dev_def)

lemma fresh_pair_cleanup:
  assumes "fresh_pair s d0 d1 ps qs" and "length ps \<le> fuel" and "length qs \<le> fuel"
  shows "succeeds nothing_held (snull_cleanup fuel s)"
proof -
  from assms(1) have f: "snull_devs s 0 = Some d0" "snull_devs s 1 = Some d1" "d0 \<noteq> d1"
    "pool_holds d0 ps s" "pool_holds d1 qs s" "dom (pkts s) = set ps \<union> set qs" "skbs s = Map.empty"
    "priv_of s = [d0 \<mapsto> fresh_priv ps, d1 \<mapsto> fresh_priv qs]"
    by (simp_all add: fresh_pair_def)
  obtain s' where s': "snull_cleanup fuel s = Inr s'"
    "pkts s' = (\<lambda>p. if p \<in> set ps \<union> set qs then None else pkts s p)"
    "priv_of s' = (priv_of s)(d0 := None, d1 := None)" "same_frame s s'"
    by (rule snull_cleanup_frees [OF f(1-5) assms(2,3)])
  have "pkts s' = Map.empty" using s'(2) f(6) by (auto simp: fun_eq_iff dom_def)
  moreover have "priv_of s' = Map.empty" using s'(3) f(8) by (auto simp: fun_eq_iff)
  ultimately show ?thesis using s' f(7) by (simp add: nothing_heldI same_frame_def)
qed

lemma lone_cleanup:
  assumes "snull_devs s i = Some d" and "pool_holds d ps s" and "length ps \<le> fuel"
    and "priv_of s = [d \<mapsto> fresh_priv ps]" and "dom (pkts s) = set ps" and "skbs s = Map.empty"
  obtains s' where "cleanup_dev fuel i s = Inr s'" "nothing_held s'" "snull_devs s' = snull_devs s"
proof -
  obtain s' where s': "cleanup_dev fuel i s = Inr s'"
    "pkts s' = (\<lambda>p. if p \<in> set ps then None else pkts s p)" "priv_of s' = (priv_of s)(d := None)"
    "same_frame s s'"
    by (rule cleanup_dev_frees [OF assms(1-3)])
  have "pkts s' = Map.empty" using s'(2) assms(5) by (auto simp: fun_eq_iff dom_def)
  moreover have "priv_of s' = Map.empty" using s'(3) assms(4) by (auto simp: fun_eq_iff)
  ultimately show thesis using s' assms(6) by (intro that [of s'] nothing_heldI) (simp_all add: same_frame_def)
qed

lemma after_alloc_cleanup:
  assumes "after_alloc E s" and "nat (pool_size E) \<le> fuel"
  shows "succeeds nothing_held (snull_cleanup fuel s)"
proof (cases "snull_devs s 0")
  case None
  show ?thesis
  proof (cases "snull_devs s 1")
    case None
    with \<open>snull_devs s 0 = None\<close> assms(1) show ?thesis
      by (simp add: after_alloc_def snull_cleanup_def cleanup_dev_None)
  next
    case (Some d)
    with None assms obtain ps where ps: "pool_holds d ps s" "length ps \<le> fuel"
      "priv_of s = [d \<mapsto> fresh_priv ps]" "dom (pkts s) = set ps" "skbs s = Map.empty"
      by (auto simp: after_alloc_def)
    obtain s' where "cleanup_dev fuel 1 s = Inr s'" "nothing_held s'" "snull_devs s' = snull_devs s"
      by (rule lone_cleanup [OF Some ps])
    with None show ?thesis by (simp add: snull_cleanup_def cleanup_dev_None)
  qed
next
  case (Some d)
  show ?thesis
  proof (cases "snull_devs s 1")
    case None
    with Some assms obtain ps where ps: "pool_holds d ps s" "length ps \<le> fuel"
      "priv_of s = [d \<mapsto> fresh_priv ps]" "dom (pkts s) = set ps" "skbs s = Map.empty"
      by (auto simp: after_alloc_def)
    obtain s' where "cleanup_dev fuel 0 s = Inr s'" "nothing_held s'" "snull_devs s' = snull_devs s"
      by (rule lone_cleanup [OF Some ps])
    with None show ?thesis by (simp add: snull_cleanup_def cleanup_dev_None)
  next
    case (Some e)
    with \<open>snull_devs s 0 = Some d\<close> assms obtain ps qs where "fresh_pair s d e ps qs" "length ps \<le> fuel" "length qs \<le> fuel"
      by (auto simp: after_alloc_def)
    then show ?thesis by (rule fresh_pair_cleanup)
  qed
qed

lemma after_alloc_emit: "c \<in> load_calls \<Longrightarrow> after_alloc E s \<Longrightarrow> after_alloc E (emit c s)"
  by (simp add: after_alloc_def snull_state split: option.splits)

lemma register_both:
  assumes "snull_devs s 0 = Some d0" and "snull_devs s 1 = Some d1"
  obtains r k0 k1 where "bind_res (register_dev E 0 (- ENODEV, s)) (register_dev E 1) = Inr (r, emit k1 (emit k0 s))"
    "k0 \<in> load_calls" "k1 \<in> load_calls" "r = 0 \<or> r = - ENODEV" "(\<forall>tr d. k_register_netdev E tr d = 0) \<longrightarrow> r = 0"
proof -
  let ?k0 = "RegisterNetdev d0 (k_register_netdev E (ktrace s) d0)"
  let ?k1 = "RegisterNetdev d1 (k_register_netdev E (ktrace (emit ?k0 s)) d1)"
  show thesis
    by (rule that [of "if k_register_netdev E (ktrace s) d0 \<noteq> 0
          \<and> k_register_netdev E (ktrace (emit ?k0 s)) d1 \<noteq> 0 then - ENODEV else 0" ?k1 ?k0])
      (use assms in \<open>auto simp: load_calls_def register_dev_def Let_def snull_state\<close>)
qed

section \<open>Loading\<close>

text \<open>
  What the two modules share: \<open>alloc_netdev\<close> calls the setup function on the new device; the
  init function allocates both devices, registers them, and cleans up when it fails.
\<close>

locale netdev_loader =
  fixes init_dev :: "snull_env \<Rightarrow> devp \<Rightarrow> snull_state \<Rightarrow> snull_state res"
    and alloc :: "snull_env \<Rightarrow> snull_state \<Rightarrow> (devp option \<times> snull_state) res"
    and load :: "snull_env \<Rightarrow> nat \<Rightarrow> snull_state \<Rightarrow> (int \<times> snull_state) res"
    and mode :: "snull_env \<Rightarrow> bool"
  assumes setup_holds: "mode E \<Longrightarrow> kmalloc_law E \<Longrightarrow> heap_ok s \<Longrightarrow> priv_of s d = Some pr \<Longrightarrow>
      \<exists>s' ps. init_dev E d s = Inr s' \<and> sets_up E d s s' ps"
    and alloc_eq: "alloc E s = (case k_alloc_netdev E (ktrace s) of
        None \<Rightarrow> Inr (None, emit (AllocNetdev None) s)
      | Some (d, blank) \<Rightarrow> bind_res (init_dev E d ((emit (AllocNetdev (Some d)) s)\<lparr>netdevs := (netdevs s)(d \<mapsto> blank)\<rparr>)) (\<lambda>s1. Inr (Some d, s1)))"
    and load_eq: "load E fuel s =
     (let s0 = s\<lparr>snull_interrupt := Some (intr_of E)\<rparr> in
      bind_res (alloc E s0) (\<lambda>(d0, s1).
        let s2 = s1\<lparr>snull_devs := (snull_devs s1)(0 := d0)\<rparr> in
      bind_res (alloc E s2) (\<lambda>(d1, s3).
        let s4 = s3\<lparr>snull_devs := (snull_devs s3)(1 := d1)\<rparr> in
      bind_res (if snull_devs s4 0 = None \<or> snull_devs s4 1 = None then Inr (- ENOMEM, s4)
                else bind_res (register_dev E 0 (- ENODEV, s4)) (register_dev E 1)) (\<lambda>(ret, s5).
      if ret \<noteq> 0 then bind_res (snull_cleanup fuel s5) (\<lambda>s6. Inr (ret, s6))
      else Inr (ret, s5)))))"
begin

text \<open>
  One call of \<open>alloc_netdev\<close>, refused (\<open>d\<close> is None and nothing has changed) or not: a new device
  with the packets \<open>ps\<close>.
\<close>

definition allocated :: "snull_env \<Rightarrow> snull_state \<Rightarrow> devp option \<Rightarrow> snull_state \<Rightarrow> paddr list \<Rightarrow> bool" where
  "allocated E s d s' ps \<longleftrightarrow> books_ok s' \<and> same_frame s s' \<and> (set (ktrace s) \<subseteq> load_calls \<longrightarrow> set (ktrace s') \<subseteq> load_calls)
     \<and> (case d of None \<Rightarrow> pkts s' = pkts s \<and> priv_of s' = priv_of s \<and> \<not> (\<forall>tr. k_alloc_netdev E tr \<noteq> None)
        | Some x \<Rightarrow> priv_of s x = None \<and> pool_holds x ps s' \<and> full_data ps s'
            \<and> length ps \<le> nat (pool_size E) \<and> (kmalloc_total E \<longrightarrow> length ps = nat (pool_size E))
            \<and> (\<forall>p. p \<notin> set ps \<longrightarrow> pkts s' p = pkts s p) \<and> (\<forall>p \<in> set ps. pkts s p = None)
            \<and> priv_of s' = (priv_of s)(x \<mapsto> fresh_priv ps))"

lemma alloc_holds:
  assumes "books_ok s" and "kmalloc_law E" and "alloc_netdev_law E" and "mode E"
  shows "\<exists>d s' ps. alloc E s = Inr (d, s') \<and> allocated E s d s' ps"
proof (cases "k_alloc_netdev E (ktrace s)")
  case None
  then have "alloc E s = Inr (None, emit (AllocNetdev None) s)" "\<not> (\<forall>tr. k_alloc_netdev E tr \<noteq> None)" by (simp add: alloc_eq, blast)
  moreover have "books_ok (emit (AllocNetdev None) s)" using assms(1) by (simp add: books_ok_def heap_ok_def snull_state)
  ultimately show ?thesis
    by (intro exI [of _ None] exI [of _ "emit (AllocNetdev None) s"]) (simp add: allocated_def same_frame_def snull_state load_calls_def)
next
  case (Some a)
  obtain d nd where a: "a = (d, nd)" by (cases a)
  let ?t = "(emit (AllocNetdev (Some d)) s)\<lparr>netdevs := (netdevs s)(d \<mapsto> nd)\<rparr>"
  have new: "priv_of s d = None"
  proof -
    have "d \<notin> set (live_devs (ktrace s))" using assms(3) Some a by (auto simp: alloc_netdev_law_def)
    then have "d \<notin> dom (priv_of s)" using assms(1) by (simp add: books_ok_def)
    then show ?thesis by (simp add: domIff)
  qed
  have t: "priv_of ?t = (priv_of s)(d \<mapsto> dev_priv nd)" "ktrace ?t = AllocNetdev (Some d) # ktrace s"
      "pkts ?t = pkts s"
    by (simp_all add: priv_of_def emit_def fun_eq_iff)
  have ok: "heap_ok ?t" using assms(1) t by (simp add: books_ok_def heap_ok_def)
  from t(1) have "priv_of ?t d = Some (dev_priv nd)" by simp
  from setup_holds [OF assms(4,2) ok this] obtain s' ps where s': "init_dev E d ?t = Inr s'" "sets_up E d ?t s' ps" by blast
  then obtain ks where ks: "ktrace s' = ks @ ktrace ?t" "set ks \<subseteq> range KMalloc" by (auto simp: sets_up_def)
  have "alloc E s = Inr (Some d, s')" using s'(1) Some a by (simp add: alloc_eq)
  moreover have "books_ok s'"
    using s'(2) ks t assms(1) by (simp add: books_ok_def sets_up_def live_devs_kmalloc)
  moreover have "same_frame s s'" using s'(2) by (simp add: same_frame_def emit_def sets_up_def)
  moreover have "set (ktrace s) \<subseteq> load_calls \<longrightarrow> set (ktrace s') \<subseteq> load_calls"
    using ks t(2) by (auto simp: load_calls_def)
  ultimately show ?thesis using s'(2) t new
    by (intro exI [of _ "Some d"] exI [of _ s'] exI [of _ ps]) (simp add: allocated_def sets_up_def)
qed

lemma allocated_dom: "allocated E s (Some d) s' ps \<Longrightarrow> dom (pkts s') = dom (pkts s) \<union> set ps"
  using heap_dom [of ps "pkts s'" "pkts s"] pool_holds_allocated [of d ps s'] by (auto simp: allocated_def)

text \<open>The second device leaves the first alone.\<close>

lemma allocated_pair:
  assumes a: "allocated E s (Some d) s1 ps" and b: "allocated E (s1\<lparr>snull_devs := f\<rparr>) (Some e) s3 qs"
    and none: "priv_of s = Map.empty" "pkts s = Map.empty" "skbs s = Map.empty" and f: "f 0 = Some d"
  shows "fresh_pair (s3\<lparr>snull_devs := (snull_devs s3)(1 := Some e)\<rparr>) d e ps qs"
proof -
  have ne: "e \<noteq> d" using a b none by (auto simp: allocated_def)
  have "\<forall>p \<in> set ps. p \<notin> set qs"
    using b pool_holds_allocated [of d ps s1] a by (auto simp: allocated_def)
  then have same: "\<And>p. p \<in> set ps \<Longrightarrow> pkts s3 p = pkts s1 p" using b by (simp add: allocated_def)
  have "pool_holds d ps s3"
    by (rule pool_holds_other [of d ps s1]) (use a b ne same in \<open>simp_all add: allocated_def\<close>)
  moreover have "full_data ps s3" using a same by (simp add: full_data_def allocated_def)
  moreover have "dom (pkts s3) = set ps \<union> set qs" using allocated_dom [OF a] allocated_dom [OF b] none by simp
  ultimately show ?thesis using a b ne none f
    by (simp add: fresh_pair_def allocated_def same_frame_def)
qed

lemma after_both_allocs:
  assumes s0: "priv_of s0 = Map.empty" "pkts s0 = Map.empty" "skbs s0 = Map.empty"
    "snull_interrupt s0 = Some (intr_of E)" "snull_devs s0 = (\<lambda>_. None)" "ktrace s0 = []"
    and a: "allocated E s0 d0 s1 ps" and b: "allocated E (s1\<lparr>snull_devs := (snull_devs s1)(0 := d0)\<rparr>) d1 s3 qs"
  shows "after_alloc E (s3\<lparr>snull_devs := (snull_devs s3)(1 := d1)\<rparr>)"
proof -
  let ?s2 = "s1\<lparr>snull_devs := (snull_devs s1)(0 := d0)\<rparr>"
  let ?s4 = "s3\<lparr>snull_devs := (snull_devs s3)(1 := d1)\<rparr>"
  have devs: "snull_devs s1 = (\<lambda>_. None)" "snull_devs s3 = (\<lambda>_. None)(0 := d0)"
    and common: "snull_interrupt s3 = Some (intr_of E)" "skbs s3 = Map.empty" "set (ktrace s3) \<subseteq> load_calls"
    using a b s0 by (auto simp: allocated_def same_frame_def)
  show ?thesis
  proof (cases d0)
    case None
    then have s2: "priv_of ?s2 = Map.empty" "pkts ?s2 = Map.empty" using a s0 by (simp_all add: allocated_def)
    show ?thesis
    proof (cases d1)
      case None
      then have "nothing_held ?s4" using b s2 common by (intro nothing_heldI) (simp_all add: allocated_def)
      then show ?thesis using \<open>d0 = None\<close> None common devs by (simp add: after_alloc_def)
    next
      case (Some e)
      then show ?thesis using \<open>d0 = None\<close> b s2 common devs allocated_dom [of E ?s2 e s3 qs]
        by (simp add: after_alloc_def) (auto simp: allocated_def)
    qed
  next
    case (Some d)
    show ?thesis
    proof (cases d1)
      case None
      then have "pkts s3 = pkts s1" "priv_of s3 = priv_of s1" using b by (simp_all add: allocated_def)
      then show ?thesis using Some None a s0 common devs allocated_dom [of E s0 d s1 ps] pool_holds_other [of d ps s1 s3]
        by (simp add: after_alloc_def) (auto simp: allocated_def)
    next
      case (Some e)
      have "fresh_pair ?s4 d e ps qs"
        using allocated_pair [OF a [unfolded \<open>d0 = Some d\<close>] b [unfolded Some]] s0 Some \<open>d0 = Some d\<close> by simp
      then show ?thesis using Some \<open>d0 = Some d\<close> a b common devs
        by (simp add: after_alloc_def) (auto simp: allocated_def)
    qed
  qed
qed

lemma both_allocs:
  assumes "kmalloc_law E" and "alloc_netdev_law E" and "mode E"
  obtains d0 s1 d1 s3 where
    "alloc E (snull_boot\<lparr>snull_interrupt := Some (intr_of E)\<rparr>) = Inr (d0, s1)"
    "alloc E (s1\<lparr>snull_devs := (snull_devs s1)(0 := d0)\<rparr>) = Inr (d1, s3)"
    "after_alloc E (s3\<lparr>snull_devs := (snull_devs s3)(1 := d1)\<rparr>)"
    "(\<forall>tr. k_alloc_netdev E tr \<noteq> None) \<longrightarrow> d0 \<noteq> None \<and> d1 \<noteq> None" "snull_devs s3 0 = d0"
proof -
  let ?s0 = "snull_boot\<lparr>snull_interrupt := Some (intr_of E)\<rparr>"
  have s0: "priv_of ?s0 = Map.empty" "pkts ?s0 = Map.empty" "skbs ?s0 = Map.empty"
    "snull_interrupt ?s0 = Some (intr_of E)" "snull_devs ?s0 = (\<lambda>_. None)" "ktrace ?s0 = []"
    by (simp_all add: snull_boot_def priv_of_def fun_eq_iff)
  obtain d0 s1 ps where a: "alloc E ?s0 = Inr (d0, s1)" "allocated E ?s0 d0 s1 ps"
    using alloc_holds [OF books_ok_boot assms] by blast
  let ?s2 = "s1\<lparr>snull_devs := (snull_devs s1)(0 := d0)\<rparr>"
  have "books_ok ?s2" using a(2) by (simp add: allocated_def)
  then obtain d1 s3 qs where b: "alloc E ?s2 = Inr (d1, s3)" "allocated E ?s2 d1 s3 qs"
    using alloc_holds [OF _ assms] by blast
  let ?s4 = "s3\<lparr>snull_devs := (snull_devs s3)(1 := d1)\<rparr>"
  have devs: "snull_devs s3 0 = d0" using a(2) b(2) by (auto simp: allocated_def same_frame_def)
  have "after_alloc E ?s4" by (rule after_both_allocs [OF s0 a(2) b(2)])
  moreover have "(\<forall>tr. k_alloc_netdev E tr \<noteq> None) \<longrightarrow> d0 \<noteq> None \<and> d1 \<noteq> None"
    using a(2) b(2) by (cases d0; cases d1; simp add: allocated_def)
  ultimately show thesis using devs by (intro that [OF a(1) b(1)]) simp_all
qed

text \<open>Every outcome of loading.\<close>

lemma load_cases:
  assumes "kmalloc_law E" and "alloc_netdev_law E" and "mode E" and "nat (pool_size E) \<le> fuel"
  obtains r s where "load E fuel snull_boot = Inr (r, s)" "r = 0" "after_alloc E s"
      "snull_devs s 0 \<noteq> None" "snull_devs s 1 \<noteq> None"
  | r s where "load E fuel snull_boot = Inr (r, s)" "r = - ENOMEM \<or> r = - ENODEV" "nothing_held s"
      "(\<forall>tr. k_alloc_netdev E tr \<noteq> None) \<longrightarrow> (\<exists>tr d. k_register_netdev E tr d \<noteq> 0)"
proof -
  let ?s0 = "snull_boot\<lparr>snull_interrupt := Some (intr_of E)\<rparr>"
  obtain d0 s1 d1 s3 where a:
    "alloc E ?s0 = Inr (d0, s1)"
    "alloc E (s1\<lparr>snull_devs := (snull_devs s1)(0 := d0)\<rparr>) = Inr (d1, s3)"
    "after_alloc E (s3\<lparr>snull_devs := (snull_devs s3)(1 := d1)\<rparr>)"
    "(\<forall>tr. k_alloc_netdev E tr \<noteq> None) \<longrightarrow> d0 \<noteq> None \<and> d1 \<noteq> None" "snull_devs s3 0 = d0"
    by (rule both_allocs [OF assms(1-3)])
  let ?s4 = "s3\<lparr>snull_devs := (snull_devs s3)(1 := d1)\<rparr>"
  have dev0: "snull_devs ?s4 0 = d0" "snull_devs ?s4 1 = d1" using a(5) by simp_all
  have eq: "load E fuel snull_boot =
     bind_res (if d0 = None \<or> d1 = None then Inr (- ENOMEM, ?s4)
               else bind_res (register_dev E 0 (- ENODEV, ?s4)) (register_dev E 1)) (\<lambda>(ret, s5).
      if ret \<noteq> 0 then bind_res (snull_cleanup fuel s5) (\<lambda>s6. Inr (ret, s6)) else Inr (ret, s5))"
    using a(1,2) dev0 by (simp add: load_eq Let_def)
  show thesis
  proof (cases "d0 = None \<or> d1 = None")
    case True
    from after_alloc_cleanup [OF a(3) assms(4)] obtain s6 where
      "snull_cleanup fuel ?s4 = Inr s6" "nothing_held s6" by (auto dest: succeedsD)
    with eq True a(4) show thesis by (intro that(2) [of "- ENOMEM" s6]) auto
  next
    case False
    then obtain e0 e1 where e: "d0 = Some e0" "d1 = Some e1" by auto
    obtain r k0 k1 where r: "bind_res (register_dev E 0 (- ENODEV, ?s4)) (register_dev E 1) = Inr (r, emit k1 (emit k0 ?s4))"
      "k0 \<in> load_calls" "k1 \<in> load_calls" "r = 0 \<or> r = - ENODEV" "(\<forall>tr d. k_register_netdev E tr d = 0) \<longrightarrow> r = 0"
      by (rule register_both [of ?s4 e0 e1]) (use dev0 e in simp_all)
    let ?s5 = "emit k1 (emit k0 ?s4)"
    have ok: "after_alloc E ?s5" using a(3) r(2,3) by (simp add: after_alloc_emit)
    show thesis
    proof (cases "r = 0")
      case True
      with eq False r(1) ok dev0 show thesis by (intro that(1) [of r ?s5]) (simp_all add: snull_state)
    next
      case nz: False
      from after_alloc_cleanup [OF ok assms(4)] obtain s6 where
        "snull_cleanup fuel ?s5 = Inr s6" "nothing_held s6" by (auto dest: succeedsD)
      with eq False r nz show thesis by (intro that(2) [of r s6]) auto
    qed
  qed
qed

text \<open>A load the kernel refuses nothing, and a load that fails.\<close>

lemma load_ready:
  assumes "kmalloc_law E" and "alloc_netdev_law E" and "mode E" and "kmalloc_total E"
    and "\<forall>tr. k_alloc_netdev E tr \<noteq> None" and "\<forall>tr d. k_register_netdev E tr d = 0"
  shows "\<exists>s d0 d1 ps qs. load E (nat (pool_size E)) snull_boot = Inr (0, s) \<and> fresh_pair s d0 d1 ps qs
     \<and> length ps = nat (pool_size E) \<and> length qs = nat (pool_size E)
     \<and> snull_interrupt s = Some (intr_of E) \<and> set (ktrace s) \<subseteq> load_calls"
proof (rule load_cases [OF assms(1-3) order_refl])
  fix r s
  assume "load E (nat (pool_size E)) snull_boot = Inr (r, s)" "r = 0" "after_alloc E s" "snull_devs s 0 \<noteq> None" "snull_devs s 1 \<noteq> None"
  then show ?thesis using assms(4) by (auto simp: after_alloc_def) blast
next
  fix r s
  assume "(\<forall>tr. k_alloc_netdev E tr \<noteq> None) \<longrightarrow> (\<exists>tr d. k_register_netdev E tr d \<noteq> 0)"
  then show ?thesis using assms(5,6) by blast
qed

lemma failed_load:
  assumes "kmalloc_law E" and "alloc_netdev_law E" and "mode E" and "nat (pool_size E) \<le> fuel"
  shows "\<exists>r s. load E fuel snull_boot = Inr (r, s)
     \<and> (r \<noteq> 0 \<longrightarrow> (r = - ENOMEM \<or> r = - ENODEV) \<and> pkts s = Map.empty \<and> netdevs s = Map.empty)"
  by (rule load_cases [OF assms]) (auto simp: nothing_held_def)

end

end
