(* ===== verification/Snull_Load.thy ===== *)
theory Snull_Load
  imports Snull_Loader
begin

text \<open>
  Loading and unloading \<open>snull.c\<close> without NAPI: its setup function meets the contract of
  \<open>netdev_loader\<close>.
\<close>

lemma snull_init_holds:
  assumes "use_napi E = 0" and "kmalloc_law E" and "heap_ok s" and "priv_of s d = Some pr0"
  shows "\<exists>s' ps. snull_init E d s = Inr s' \<and> sets_up E d s s' ps"
proof -
  let ?t = "set_priv d (\<lambda>pr. pr\<lparr>rx_int_enabled := 1\<rparr>) (set_priv d (\<lambda>_. zero_priv)
      (set_dev d (\<lambda>nd. nd\<lparr>netdev_ops_set := True, watchdog_timeo := timeout E,
        dev_flags := dev_flags nd OR IFF_NOARP\<rparr>) (set_dev d (k_ether_setup E) s)))"
  have some: "\<exists>pr. priv_of (set_dev d f s) d = Some pr" for f
    using assms(4) by (auto simp: priv_of_def set_dev_def)
  then obtain pr1 where pr1: "priv_of (set_dev d (k_ether_setup E) s) d = Some pr1" by blast
  have t: "priv_of ?t = (priv_of s)(d \<mapsto> zero_priv\<lparr>rx_int_enabled := 1\<rparr>)"
    using assms(4) by (auto simp: priv_of_def set_priv_def set_dev_def fun_eq_iff)
  have init: "snull_init E d s = snull_setup_pool E d ?t"
    using assms(1,4) pr1 by (simp add: snull_init_def snull_rx_ints_def snull_ops snull_state)
  have "heap_ok ?t" using assms(3) by (simp add: heap_ok_def snull_state)
  moreover have "same_frame s ?t" by (simp add: same_frame_def snull_state)
  ultimately show ?thesis unfolding init
    using setup_pool_sets_up [OF _ assms(2) t] by (simp add: snull_state)
qed

interpretation snull_loading: netdev_loader snull_init alloc_netdev snull_init_module "\<lambda>E. use_napi E = 0"
proof
  fix E s d pr
  show "use_napi E = 0 \<Longrightarrow> kmalloc_law E \<Longrightarrow> heap_ok s \<Longrightarrow> priv_of s d = Some pr \<Longrightarrow> \<exists>s' ps. snull_init E d s = Inr s' \<and> sets_up E d s s' ps"
    by (rule snull_init_holds)
qed (simp_all only: alloc_netdev_def snull_init_module_def intr_of_def)

end
