(* ===== verification/Snull_Events.thy ===== *)
theory Snull_Events
  imports Snull_Load
begin

text \<open>
  The life of the loaded module as a state machine: the kernel hands frames to
  \<open>snull_tx\<close> and calls the other device methods in any order.  The invariant
  \<open>snull_loaded\<close> says that both devices are quiet, own all packets, and that no skb is
  outstanding.
\<close>

section \<open>The invariant\<close>

definition snull_loaded :: "snull_state \<Rightarrow> devp \<Rightarrow> devp \<Rightarrow> (devp \<Rightarrow> paddr list) \<Rightarrow> bool" where
  "snull_loaded s d0 d1 P \<longleftrightarrow> snull_quiet s d0 d1 P \<and> dom (pkts s) = set (P d0) \<union> set (P d1)
     \<and> dom (netdevs s) = {d0, d1} \<and> skbs s = Map.empty"

lemma dom_netdevs: "dom (netdevs s) = dom (priv_of s)"
  by (auto simp: priv_of_def dom_def)

text \<open>Operations that touch neither packets nor private areas keep it.\<close>

lemma snull_loaded_cong:
  assumes "snull_loaded s d0 d1 P" and "pkts s' = pkts s" and "priv_of s' = priv_of s"
    and "skbs s' = skbs s" and "snull_devs s' = snull_devs s" and "snull_interrupt s' = snull_interrupt s"
  shows "snull_loaded s' d0 d1 P"
proof -
  have "nexts s' = nexts s" using assms(2) by (simp add: nexts_def fun_eq_iff)
  then have "pool_holds d ps s' = pool_holds d ps s" "full_data ps s' = full_data ps s" for d ps
    using assms(2,3) by (simp_all add: pool_holds_def full_data_def)
  then show ?thesis
    using assms by (simp add: snull_loaded_def snull_quiet_def dev_quiet_def dom_netdevs)
qed

lemma snull_loaded_dev:
  "snull_loaded s d0 d1 P \<Longrightarrow> d = d0 \<or> d = d1 \<Longrightarrow>
     \<exists>nd. netdevs s d = Some nd \<and> priv_of s d = Some (dev_priv nd) \<and> \<not> lock (dev_priv nd)"
  by (auto simp: snull_loaded_def snull_quiet_def dev_quiet_def quiet_priv_def priv_of_def)

section \<open>Events\<close>

datatype snull_event =
    Xmit skbp sk_buff devp
  | OpenDev devp
  | StopDev devp
  | Configure devp ifmap
  | ChangeMtu devp int
  | Ioctl devp int
  | GetStats devp

text \<open>Handling an event; for a transmission the kernel first owns the new skb.\<close>

fun handle :: "snull_env \<Rightarrow> snull_event \<Rightarrow> snull_state \<Rightarrow> snull_state res" where
  "handle E (Xmit q k d) s = bind_res (snull_tx E q d (set_skb q (Some k) s)) (\<lambda>(_, s'). Inr s')"
| "handle E (OpenDev d) s = bind_res (snull_open d s) (\<lambda>(_, s'). Inr s')"
| "handle E (StopDev d) s = bind_res (snull_release d s) (\<lambda>(_, s'). Inr s')"
| "handle E (Configure d m) s = bind_res (snull_config d m s) (\<lambda>(_, s'). Inr s')"
| "handle E (ChangeMtu d n) s = bind_res (snull_change_mtu d n s) (\<lambda>(_, s'). Inr s')"
| "handle E (Ioctl d c) s = bind_res (snull_ioctl d c s) (\<lambda>(_, s'). Inr s')"
| "handle E (GetStats d) s = bind_res (snull_stats d s) (\<lambda>_. Inr s)"

fun event_dev :: "snull_event \<Rightarrow> devp" where
  "event_dev (Xmit q k d) = d"
| "event_dev (OpenDev d) = d"
| "event_dev (StopDev d) = d"
| "event_dev (Configure d m) = d"
| "event_dev (ChangeMtu d n) = d"
| "event_dev (Ioctl d c) = d"
| "event_dev (GetStats d) = d"

text \<open>The device is one of the module's; a frame fits into the data area of a packet.\<close>

fun admissible :: "snull_state \<Rightarrow> snull_event \<Rightarrow> bool" where
  "admissible s ev \<longleftrightarrow> (snull_devs s 0 = Some (event_dev ev) \<or> snull_devs s 1 = Some (event_dev ev))
     \<and> (case ev of Xmit q k d \<Rightarrow> length (skb_data k) \<le> ETH_DATA_LEN | _ \<Rightarrow> True)"

inductive snull_reach :: "snull_env \<Rightarrow> snull_state \<Rightarrow> snull_state \<Rightarrow> bool" for E s0 where
  start: "snull_reach E s0 s0"
| step: "snull_reach E s0 s \<Longrightarrow> admissible s ev \<Longrightarrow> handle E ev s = Inr s' \<Longrightarrow> snull_reach E s0 s'"

inductive_cases snull_reachE: "snull_reach E s0 s"

lemma snull_loaded_names:
  "snull_loaded s d0 d1 P \<Longrightarrow> snull_devs s 0 = Some d0 \<and> snull_devs s 1 = Some d1 \<and> d0 \<noteq> d1"
  by (simp add: snull_loaded_def snull_quiet_def)

lemma handle_xmit:
  assumes "snull_loaded s d0 d1 P" and "d = d0 \<or> d = d1" and "length (skb_data k) \<le> ETH_DATA_LEN"
    and "lockup E = 0" and "eth_type_trans_law E"
  shows "succeeds (\<lambda>s'. snull_loaded s' d0 d1 P) (handle E (Xmit q k d) s)"
proof -
  let ?s = "set_skb q (Some k) s" and ?b = "skb_data k"
  have quiet: "snull_quiet ?s d0 d1 P"
    using assms(1) by (auto simp: snull_loaded_def snull_quiet_def dev_quiet_def pool_holds_def full_data_def snull_state)
  then have ready: "tx_ready E ?s d0 d1 P d q ?b"
    using assms by (simp add: tx_ready_def snull_state)
  obtain s' p kp f where run: "snull_tx E q d ?s = Inr (0, s')"
    "skbs s' = (skbs ?s)(q := None)"
    "ktrace s' = tx_log E d (rx_dev d0 d1 d (pad_frame ?b)) (P d) q (pad_frame ?b) (ktrace ?s)"
    "priv_of s' = tx_privs E d (rx_dev d0 d1 d (pad_frame ?b)) (P d) (tx_buf q ?b) (pad_frame ?b) (ktrace ?s)
        (priv_of (tx_entry E q d ?b ?s))"
    "pkts ?s p = Some kp" "pkts s' = (pkts ?s)(p \<mapsto> f kp)" "pkt_next (f kp) = pkt_next kp"
    "pkt_dev (f kp) = pkt_dev kp" "length (pkt_data (f kp)) = length (pkt_data kp)"
    "snull_devs s' = snull_devs ?s" "snull_interrupt s' = snull_interrupt ?s"
    using ready by (rule snull_tx_run)
  have "snull_quiet s' d0 d1 P" by (rule snull_tx_quiet [OF ready run(1)])
  moreover have "dom (pkts s') = dom (pkts s)" using run(5,6) by (auto simp: snull_state)
  moreover have "dom (priv_of s') = dom (priv_of s)"
    using run(4) by (auto simp: dom_def tx_privs_dom snull_state simp flip: not_None_eq)
  moreover have "skbs s' = Map.empty"
    using run(2) assms(1) by (simp add: snull_state snull_loaded_def)
  ultimately show ?thesis using run(1) assms(1) by (simp add: snull_loaded_def dom_netdevs)
qed

lemma handle_other:
  assumes "snull_loaded s d0 d1 P" and "event_dev ev = d0 \<or> event_dev ev = d1" and "\<forall>q k d. ev \<noteq> Xmit q k d"
  shows "succeeds (\<lambda>s'. snull_loaded s' d0 d1 P) (handle E ev s)"
proof -
  obtain nd where nd: "netdevs s (event_dev ev) = Some nd" "priv_of s (event_dev ev) = Some (dev_priv nd)"
      "\<not> lock (dev_priv nd)"
    using snull_loaded_dev [OF assms(1,2)] by blast
  have keep: "snull_loaded s' d0 d1 P" if "pkts s' = pkts s" "priv_of s' = priv_of s" "skbs s' = skbs s"
    "snull_devs s' = snull_devs s" "snull_interrupt s' = snull_interrupt s" for s'
    using snull_loaded_cong [OF assms(1) that] .
  show ?thesis
  proof (cases ev)
    case (Xmit q k d)
    then show ?thesis using assms(3) by blast
  next
    case (OpenDev d)
    then show ?thesis using nd by (auto simp: snull_open_def snull_ops snull_state intro!: keep)
  next
    case (StopDev d)
    then show ?thesis by (auto simp: snull_release_def snull_state intro!: keep)
  next
    case (Configure d m)
    then show ?thesis using nd assms(1)
      by (auto simp: snull_config_def snull_ops snull_state intro!: keep)
  next
    case (ChangeMtu d n)
    then show ?thesis using nd assms(1)
      by (auto simp: snull_change_mtu_def snull_ops snull_state fun_eq_iff intro!: keep)
  next
    case (Ioctl d c)
    then show ?thesis using assms(1) by (simp add: snull_ioctl_def)
  next
    case (GetStats d)
    then show ?thesis using nd assms(1) by (simp add: snull_stats_def snull_ops)
  qed
qed

lemma handle_keeps:
  assumes "snull_loaded s d0 d1 P" and "admissible s ev" and "lockup E = 0" and "eth_type_trans_law E"
  shows "succeeds (\<lambda>s'. snull_loaded s' d0 d1 P) (handle E ev s)"
proof -
  have dev: "event_dev ev = d0 \<or> event_dev ev = d1"
    using assms(2) snull_loaded_names [OF assms(1)] by auto
  show ?thesis
  proof (cases "\<exists>q k d. ev = Xmit q k d")
    case True
    then obtain q k d where ev: "ev = Xmit q k d" by blast
    then show ?thesis using handle_xmit [OF assms(1), of d k E q] assms dev by simp
  next
    case False
    then show ?thesis using handle_other [OF assms(1) dev] by blast
  qed
qed

lemma reach_loaded:
  assumes "snull_reach E s0 s" and "snull_loaded s0 d0 d1 P" and "lockup E = 0" and "eth_type_trans_law E"
  shows "snull_loaded s d0 d1 P"
  using assms(1)
proof induction
  case start
  show ?case by (rule assms(2))
next
  case (step s ev s')
  then show ?case using handle_keeps [of s d0 d1 P ev E] assms(3,4) by simp
qed

lemma loaded_cleanup:
  assumes "snull_loaded s d0 d1 P" and "length (P d0) \<le> fuel" and "length (P d1) \<le> fuel"
  shows "succeeds nothing_held (snull_cleanup fuel s)"
proof -
  from assms(1) have q: "snull_devs s 0 = Some d0" "snull_devs s 1 = Some d1" "d0 \<noteq> d1"
    "pool_holds d0 (P d0) s" "pool_holds d1 (P d1) s"
    by (simp_all add: snull_loaded_def snull_quiet_def dev_quiet_def)
  obtain s' where s': "snull_cleanup fuel s = Inr s'"
    "pkts s' = (\<lambda>p. if p \<in> set (P d0) \<union> set (P d1) then None else pkts s p)"
    "priv_of s' = (priv_of s)(d0 := None, d1 := None)" "same_frame s s'"
    by (rule snull_cleanup_frees [OF q assms(2,3)])
  have "pkts s' = Map.empty" using s'(2) assms(1) by (auto simp: snull_loaded_def fun_eq_iff dom_def)
  moreover have "priv_of s' = Map.empty"
  proof -
    have "dom (priv_of s) = {d0, d1}" using assms(1) by (simp add: snull_loaded_def dom_netdevs)
    then have "dom (priv_of s') = {}" using s'(3) by simp
    then show ?thesis by simp
  qed
  ultimately show ?thesis using s' assms(1) by (simp add: nothing_heldI same_frame_def snull_loaded_def)
qed

text \<open>A load whose allocations succeed establishes the invariant.\<close>

lemma fresh_pair_loaded:
  assumes "fresh_pair s d0 d1 ps qs" and "ps \<noteq> []" and "qs \<noteq> []" and "snull_interrupt s = Some RegularInterrupt"
  shows "snull_loaded s d0 d1 ((\<lambda>_. [])(d0 := ps, d1 := qs))"
proof -
  have "quiet_priv (fresh_priv xs)" for xs by (simp add: quiet_priv_def fresh_priv_def zero_priv_def)
  then show ?thesis using assms
    by (auto simp: fresh_pair_def snull_loaded_def snull_quiet_def dev_quiet_def dom_netdevs)
qed

end
