(* ===== verification/Snull_Demo.thy ===== *)
theory Snull_Demo
  imports Snull_Events
begin

text \<open>
  A concrete kernel and a concrete loaded module, on which the theorems about
  \<open>snull.c\<close> are instantiated, and the checksum law the kernel's \<open>ip_fast_csum\<close> obeys.
\<close>

section \<open>A kernel that keeps its promises\<close>

definition stale_block :: snull_packet where
  "stale_block = \<lparr>pkt_next = Some 99, pkt_dev = 0, datalen = -1, pkt_data = replicate ETH_DATA_LEN 0xAA\<rparr>"

definition stale_priv :: snull_priv where
  "stale_priv = zero_priv\<lparr>status := 3, ppool := Some 77, lock := True, priv_skb := Some 5\<rparr>"

definition stale_dev :: net_device where
  "stale_dev = \<lparr>dev_addr = replicate ETH_ALEN 0xFF, dev_flags = 0, dev_mtu = 1500, dev_irq = 0,
     base_addr = 0, trans_start = 0, watchdog_timeo = 0, netdev_ops_set = False,
     dev_features = 0, dev_weight = 0, dev_quota = 0, poll_set = False, dev_priv = stale_priv\<rparr>"

text \<open>The ones-complement checksum, as the little-endian word that the driver stores.\<close>

definition internet_csum :: "byte list \<Rightarrow> nat \<Rightarrow> 16 word" where
  "internet_csum h n =
     (let v = 65535 - sum16 (take (4 * n) h) mod 65535
      in push_bit 8 (of_nat (v mod 256)) OR of_nat (v div 256))"

fun queue_off :: "kcall list \<Rightarrow> devp \<Rightarrow> bool" where
  "queue_off [] d = False"
| "queue_off (StopQueue e # tr) d = (e = d \<or> queue_off tr d)"
| "queue_off (StartQueue e # tr) d = (e \<noteq> d \<and> queue_off tr d)"
| "queue_off (WakeQueue e # tr) d = (e \<noteq> d \<and> queue_off tr d)"
| "queue_off (_ # tr) d = queue_off tr d"

definition fresh_of :: "nat list \<Rightarrow> nat" where
  "fresh_of xs = Suc (foldr max xs 0)"

lemma fresh_of_notin: "fresh_of xs \<notin> set xs"
proof -
  have "x \<le> foldr max xs 0" if "x \<in> set xs" for x
    using that by (induction xs) auto
  then show ?thesis unfolding fresh_of_def using Suc_n_not_le_n by blast
qed

definition demo_env :: snull_env where
  "demo_env = \<lparr>lockup = 0, timeout = 5, use_napi = 0, pool_size = 8,
     k_kmalloc = (\<lambda>tr. Some (fresh_of (live tr), stale_block)),
     k_dev_alloc_skb = (\<lambda>tr n. True),
     k_eth_type_trans = (\<lambda>d b. (0x0008, drop ETH_HLEN b)),
     k_ip_fast_csum = internet_csum,
     k_queue_stopped = queue_off,
     k_jiffies = (\<lambda>tr. of_nat (length tr)),
     k_ether_setup = (\<lambda>nd. nd\<lparr>dev_mtu := 1500\<rparr>),
     k_napi_add_ok = (\<lambda>p. p \<noteq> None),
     k_napi_disable_ok = (\<lambda>p. p \<noteq> None),
     k_alloc_netdev = (\<lambda>tr. Some (fresh_of (live_devs tr), stale_dev)),
     k_register_netdev = (\<lambda>tr d. 0)\<rparr>"

lemma demo_laws:
  "kmalloc_law demo_env" "kmalloc_total demo_env" "alloc_netdev_law demo_env"
  "eth_type_trans_law demo_env" "\<forall>tr. k_alloc_netdev demo_env tr \<noteq> None"
  "\<forall>tr d. k_register_netdev demo_env tr d = 0" "\<forall>tr n. k_dev_alloc_skb demo_env tr n"
  "lockup demo_env = 0" "use_napi demo_env = 0" "pool_size demo_env = 8"
  "k_queue_stopped demo_env = queue_off"
  by (simp_all add: demo_env_def kmalloc_law_def kmalloc_total_def alloc_netdev_law_def
      eth_type_trans_law_def fresh_of_notin stale_block_def)

section \<open>Two quiet devices\<close>

definition demo_pkt :: "paddr option \<Rightarrow> devp \<Rightarrow> snull_packet" where
  "demo_pkt nx d = \<lparr>pkt_next = nx, pkt_dev = d, datalen = 0, pkt_data = replicate ETH_DATA_LEN 0\<rparr>"

definition demo_dev :: "paddr \<Rightarrow> net_device" where
  "demo_dev p = stale_dev\<lparr>dev_priv := zero_priv\<lparr>rx_int_enabled := 1, ppool := Some p\<rparr>\<rparr>"

definition demo_state :: snull_state where
  "demo_state = \<lparr>pkts = [11 \<mapsto> demo_pkt (Some 12) 101, 12 \<mapsto> demo_pkt None 101, 21 \<mapsto> demo_pkt None 102],
     netdevs = [101 \<mapsto> demo_dev 11, 102 \<mapsto> demo_dev 21], skbs = Map.empty, shortpkt = [],
     snull_devs = [0 \<mapsto> 101, 1 \<mapsto> 102], snull_interrupt = Some RegularInterrupt, ktrace = []\<rparr>"

definition demo_pools :: "devp \<Rightarrow> paddr list" where
  "demo_pools = (\<lambda>_. [])(101 := [11, 12], 102 := [21])"

lemma demo_privs:
  "priv_of demo_state 101 = Some (zero_priv\<lparr>rx_int_enabled := 1, ppool := Some 11\<rparr>)"
  "priv_of demo_state 102 = Some (zero_priv\<lparr>rx_int_enabled := 1, ppool := Some 21\<rparr>)"
  by (simp_all add: priv_of_def demo_state_def demo_dev_def)

lemma demo_fields:
  "snull_devs demo_state 0 = Some 101" "snull_devs demo_state 1 = Some 102" "skbs demo_state = Map.empty"
  "snull_interrupt demo_state = Some RegularInterrupt" "ktrace demo_state = []"
  "pkts demo_state 11 = Some (demo_pkt (Some 12) 101)" "pkts demo_state 12 = Some (demo_pkt None 101)"
  "pkts demo_state 21 = Some (demo_pkt None 102)"
  by (simp_all add: demo_state_def)

lemma demo_quiet: "snull_quiet demo_state 101 102 demo_pools"
  by (auto simp: snull_quiet_def dev_quiet_def pool_holds_def full_data_def quiet_priv_def demo_privs
      demo_fields demo_pools_def zero_priv_def nexts_def demo_pkt_def simp del: One_nat_def)

lemma demo_loaded: "snull_loaded demo_state 101 102 demo_pools"
  using demo_quiet by (auto simp: snull_loaded_def demo_state_def demo_pools_def)

text \<open>An echo request of 60 bytes whose ICMP checksum is right, and a 42-byte frame.\<close>

definition echo_frame :: "byte list" where
  "echo_frame =
     [0,0,0,0,0,0, 0,0,0,0,0,0, 8,0,
      0x45,0,0,46, 0,0,0,0, 64,1,0,0, 192,168,0,1, 192,168,1,2,
      8,0,0xF7,0xFF, 0,0,0,0, 0,0,0,0, 0,0,0,0, 0,0,0,0, 0,0,0,0, 0,0]"

definition short_frame :: "byte list" where
  "short_frame = take 42 (echo_frame[34 := 17])"

lemma echo_frame_props [simp]: "length echo_frame = 60" "frame_kind echo_frame = ICMP_ECHO"
  by (simp_all add: echo_frame_def frame_kind_def frame_consts)

definition give_skb :: "byte list \<Rightarrow> snull_state \<Rightarrow> snull_state" where
  "give_skb b s = set_skb 7 (Some \<lparr>skb_data = b, skb_dev = None, skb_protocol = 0,
     skb_csum_unnecessary = False\<rparr>) s"

lemma give_skb_quiet: "snull_quiet s d0 d1 P \<Longrightarrow> snull_quiet (give_skb b s) d0 d1 P"
  by (auto simp: give_skb_def snull_quiet_def dev_quiet_def pool_holds_def full_data_def snull_state)

lemma demo_ready:
  assumes "length b \<le> ETH_DATA_LEN" and "d = 101 \<or> d = 102"
  shows "tx_ready demo_env (give_skb b demo_state) 101 102 demo_pools d 7 b"
  using assms demo_laws give_skb_quiet [OF demo_quiet]
  by (simp add: tx_ready_def give_skb_def snull_state)

section \<open>The checksum law\<close>

lemma sum16_append: "even (length a) \<Longrightarrow> sum16 (a @ b) = sum16 a + sum16 b"
  by (induction a rule: sum16.induct) simp_all

text \<open>
  What \<open>ip_fast_csum\<close> promises: stored in a header whose checksum field was zero, its result
  makes the header valid.
\<close>

definition ip_fast_csum_law :: "snull_env \<Rightarrow> bool" where
  "ip_fast_csum_law E \<longleftrightarrow> (\<forall>a b n c. length a = 10 \<longrightarrow> 5 \<le> n \<longrightarrow> 4 * n \<le> 12 + length b \<longrightarrow>
     c = k_ip_fast_csum E (a @ [0, 0] @ b) n \<longrightarrow>
     csum_valid (take (4 * n) (a @ [ucast c, ucast (drop_bit 8 c)] @ b)))"

lemma csum_bytes:
  assumes "a < 256" and "b < 256"
  shows "ucast (push_bit 8 (of_nat a) OR of_nat b :: 16 word) = (of_nat b :: byte)"
    and "ucast (drop_bit 8 (push_bit 8 (of_nat a) OR of_nat b :: 16 word)) = (of_nat a :: byte)"
proof -
  have hi: "\<not> bit b (n + 8)" for n
  proof -
    have "take_bit 8 b = b" using assms(2) by (simp add: take_bit_nat_eq_self)
    then show ?thesis by (metis add.commute bit_take_bit_iff not_add_less2)
  qed
  show "ucast (push_bit 8 (of_nat a) OR of_nat b :: 16 word) = (of_nat b :: byte)"
    by (rule bit_word_eqI) (auto simp: bit_simps)
  show "ucast (drop_bit 8 (push_bit 8 (of_nat a) OR of_nat b :: 16 word)) = (of_nat a :: byte)"
    by (rule bit_word_eqI) (use hi in \<open>auto simp: bit_simps add.commute\<close>)
qed

lemma internet_csum_law: "ip_fast_csum_law demo_env"
  unfolding ip_fast_csum_law_def
proof (intro allI impI)
  fix a b :: "byte list" and n :: nat and c :: "16 word"
  assume len: "length a = 10" "5 \<le> n" "4 * n \<le> 12 + length b"
    and c: "c = k_ip_fast_csum demo_env (a @ [0, 0] @ b) n"
  let ?b = "take (4 * n - 12) b"
  have cut: "take (4 * n) (a @ [x, y] @ b) = a @ [x, y] @ ?b" for x y :: byte
    using len by (simp add: take_Cons' numeral_2_eq_2)
  define S where "S = sum16 (a @ [0, 0] @ ?b)"
  define v where "v = 65535 - S mod 65535"
  have v: "0 < v" "v \<le> 65535" by (simp_all add: v_def)
  have "c = push_bit 8 (of_nat (v mod 256)) OR of_nat (v div 256)"
    using c cut by (simp add: demo_env_def internet_csum_def Let_def v_def S_def)
  then have bytes: "ucast c = (of_nat (v div 256) :: byte)" "ucast (drop_bit 8 c) = (of_nat (v mod 256) :: byte)"
    using csum_bytes [of "v mod 256" "v div 256"] v(2) by simp_all
  have "unat (ucast c :: byte) = v div 256" "unat (ucast (drop_bit 8 c) :: byte) = v mod 256"
    unfolding bytes using v(2) by (simp_all add: unat_of_nat)
  then have "256 * unat (ucast c :: byte) + unat (ucast (drop_bit 8 c) :: byte) = v" by simp
  then have sum: "sum16 (take (4 * n) (a @ [ucast c, ucast (drop_bit 8 c)] @ b)) = S + v"
    unfolding cut using len by (simp add: S_def sum16_append)
  have "S + v = (S div 65535) * 65535 + 65535"
    unfolding v_def using div_mult_mod_eq [of S 65535] mod_less_divisor [of 65535 S] by linarith
  then have "(S + v) mod 65535 = 0" by simp
  then show "csum_valid (take (4 * n) (a @ [ucast c, ucast (drop_bit 8 c)] @ b))"
    unfolding csum_valid_def sum using v(1) by simp
qed

end
