(* ===== verification/Snull_Claims.thy ===== *)
theory Snull_Claims
  imports Snull_Demo
begin

text \<open>
  The properties of \<open>snull.c\<close> with the regular interrupt handler: delivery, accounting,
  invariants over the whole life of the module, loading and unloading, and the fate of the
  bytes of a frame.
\<close>

section \<open>Reading the history\<close>

fun delivered :: "kcall list \<Rightarrow> sk_buff list" where
  "delivered [] = []"
| "delivered (NetifRx k # tr) = k # delivered tr"
| "delivered (NetifReceiveSkb k # tr) = k # delivered tr"
| "delivered (_ # tr) = delivered tr"

lemma delivered_tx_log:
  "delivered (tx_log E d e ps q b tr) =
     (if k_dev_alloc_skb E (if tl ps = [] then StopQueue d # tr else tr) (int (length b) + 2)
      then [rx_skb E e (tx_frame E b)] else []) @ delivered tr"
  by (simp add: tx_log_def Let_def wake_log_def rx_log_def)

definition delivered_skb :: "snull_env \<Rightarrow> devp \<Rightarrow> byte list \<Rightarrow> sk_buff" where
  "delivered_skb E e b = \<lparr>skb_data = rx_payload E b, skb_dev = Some e,
     skb_protocol = fst (k_eth_type_trans E e (tx_frame E (pad_frame b))), skb_csum_unnecessary = True\<rparr>"

lemma rx_skb_delivered:
  "eth_type_trans_law E \<Longrightarrow> rx_skb E e (tx_frame E (pad_frame b)) = delivered_skb E e b"
  by (simp add: rx_skb_def delivered_skb_def rx_payload_def eth_type_trans_law_def ETH_HLEN_def)

text \<open>The newest delivery after a transmission.\<close>

lemma tx_newest:
  assumes "tx_ready E s d0 d1 P d q b" and "\<forall>tr n. k_dev_alloc_skb E tr n"
    and "snull_tx E q d s = Inr (r, s')"
  shows "delivered (ktrace s') = delivered_skb E (rx_dev d0 d1 d (pad_frame b)) b # delivered (ktrace s)"
proof -
  have "eth_type_trans_law E" using assms(1) by (simp add: tx_ready_def)
  then show ?thesis
    using assms(3) by (rule_tac snull_tx_run [OF assms(1)])
      (simp add: delivered_tx_log assms(2) rx_skb_delivered)
qed

section \<open>Delivery and accounting\<close>

text \<open>
  C5. Transmitting a frame on either of two quiet devices returns 0, hands exactly one new
  skb up the protocol stack (on the peer, or on the sender itself for a ping), whose data are
  the rewritten frame without its Ethernet header, and frees the transmitted skb and no other.
\<close>

theorem snull_tx_delivers:
  assumes "tx_ready E s d0 d1 P d q b" and "\<forall>tr n. k_dev_alloc_skb E tr n"
  shows "\<exists>s'. snull_tx E q d s = Inr (0, s')
     \<and> delivered (ktrace s') = delivered_skb E (rx_dev d0 d1 d (pad_frame b)) b # delivered (ktrace s)
     \<and> skbs s' = (skbs s)(q := None)"
  by (rule snull_tx_run [OF assms(1)]) (use tx_newest [OF assms] in auto)

lemma snull_tx_delivers_witness:
  "\<exists>s'. snull_tx demo_env 7 101 (give_skb echo_frame demo_state) = Inr (0, s')
     \<and> delivered (ktrace s') = [delivered_skb demo_env 101 echo_frame] \<and> skbs s' 7 = None"
  using snull_tx_delivers [OF demo_ready [of echo_frame 101]] demo_laws(7)
  by (auto simp: frame_consts rx_dev_def pad_frame_def give_skb_def snull_state demo_fields)

text \<open>
  The counters: the sender counts one packet and the bytes of the padded frame; the
  receiver counts the same if an skb could be allocated and one drop otherwise; no error is
  counted, and a device that is neither sender nor receiver counts nothing.
\<close>

theorem snull_tx_counts:
  assumes "tx_ready E s d0 d1 P d q b" and "snull_tx E q d s = Inr (r, s')"
    and "n = length (pad_frame b)" and "e = rx_dev d0 d1 d (pad_frame b)"
    and "ok = k_dev_alloc_skb E (if tl (P d) = [] then StopQueue d # ktrace s else ktrace s) (int n + 2)"
    and "priv_of s x = Some pr"
  shows "\<exists>pr'. priv_of s' x = Some pr'
     \<and> tx_packets (stats pr') = tx_packets (stats pr) + (if x = d then 1 else 0)
     \<and> tx_bytes (stats pr') = tx_bytes (stats pr) + (if x = d then of_nat n else 0)
     \<and> rx_packets (stats pr') = rx_packets (stats pr) + (if x = e \<and> ok then 1 else 0)
     \<and> rx_bytes (stats pr') = rx_bytes (stats pr) + (if x = e \<and> ok then of_nat n else 0)
     \<and> rx_dropped (stats pr') = rx_dropped (stats pr) + (if x = e \<and> \<not> ok then 1 else 0)
     \<and> tx_errors (stats pr') = tx_errors (stats pr)"
proof (rule snull_tx_run [OF assms(1)])
  fix s2
  assume "snull_tx E q d s = Inr (0, s2)"
    and "priv_of s2 = tx_privs E d (rx_dev d0 d1 d (pad_frame b)) (P d) (tx_buf q b) (pad_frame b) (ktrace s)
        (priv_of (tx_entry E q d b s))"
  then have "priv_of s' x = tx_privs E d e (P d) (tx_buf q b) (pad_frame b) (ktrace s)
      (priv_of (tx_entry E q d b s)) x"
    using assms(2,4) by simp
  then show ?thesis
    using assms(3,5,6) by (auto simp: tx_privs_def Let_def snull_state rx_stats_def tx_stats_def)
qed

lemma snull_tx_counts_witness:
  "\<exists>s' pr'. snull_tx demo_env 7 102 (give_skb short_frame demo_state) = Inr (0, s')
     \<and> priv_of s' 101 = Some pr' \<and> rx_packets (stats pr') = 1 \<and> rx_bytes (stats pr') = 60"
proof -
  have len: "length short_frame = 42" "length (pad_frame short_frame) = 60"
    by (simp_all add: short_frame_def pad_frame_def frame_consts)
  have ready: "tx_ready demo_env (give_skb short_frame demo_state) 101 102 demo_pools 102 7 short_frame"
    by (rule demo_ready) (simp_all add: len frame_consts)
  have kind: "\<not> is_ping (frame_kind (pad_frame short_frame))"
    by (simp add: short_frame_def echo_frame_def pad_frame_def frame_consts frame_kind_def)
  obtain s' where s': "snull_tx demo_env 7 102 (give_skb short_frame demo_state) = Inr (0, s')"
    by (rule snull_tx_run [OF ready])
  show ?thesis
    using snull_tx_counts [OF ready s' refl refl refl, of 101] s' kind len demo_laws(7) demo_privs
    by (auto simp: rx_dev_def give_skb_def snull_state zero_priv_def zero_stats_def)
qed

section \<open>Invariants over the life of the module\<close>



text \<open>
  When the queue state the kernel reports follows the calls made, a transmission that found
  a device's queue running leaves it running, even if it took the last buffer.
\<close>

theorem snull_tx_queue_stays_on:
  assumes "tx_ready E s d0 d1 P d q b" and "k_queue_stopped E = queue_off"
    and "snull_tx E q d s = Inr (r, s')" and "\<not> queue_off (ktrace s) x"
  shows "\<not> queue_off (ktrace s') x"
proof (rule snull_tx_run [OF assms(1)])
  fix s2
  assume "snull_tx E q d s = Inr (0, s2)"
    and "ktrace s2 = tx_log E d (rx_dev d0 d1 d (pad_frame b)) (P d) q (pad_frame b) (ktrace s)"
  then show ?thesis
    using assms(2-4) by (auto simp: tx_log_def Let_def wake_log_def rx_log_def)
qed

lemma snull_tx_queue_stays_on_witness:
  "\<exists>s'. snull_tx demo_env 7 102 (give_skb echo_frame demo_state) = Inr (0, s') \<and> \<not> queue_off (ktrace s') 102"
proof -
  have ready: "tx_ready demo_env (give_skb echo_frame demo_state) 101 102 demo_pools 102 7 echo_frame"
    by (rule demo_ready) (simp_all add: frame_consts)
  obtain s' where s': "snull_tx demo_env 7 102 (give_skb echo_frame demo_state) = Inr (0, s')"
    by (rule snull_tx_run [OF ready])
  then show ?thesis
    using snull_tx_queue_stays_on [OF ready demo_laws(11) s', of 102]
    by (auto simp: give_skb_def snull_state demo_fields)
qed

section \<open>Loading and unloading\<close>

text \<open>
  C8. Loading without NAPI, when the kernel's allocations and registrations succeed, returns 0
  and leaves two distinct quiet devices, each with a pool of \<open>pool_size\<close> buffers of its own.
\<close>

theorem snull_load_ready:
  assumes "kmalloc_law E" and "alloc_netdev_law E" and "use_napi E = 0" and "0 < pool_size E"
    and "kmalloc_total E" and "\<forall>tr. k_alloc_netdev E tr \<noteq> None" and "\<forall>tr d. k_register_netdev E tr d = 0"
  shows "\<exists>s d0 d1 P. snull_init_module E (nat (pool_size E)) snull_boot = Inr (0, s) \<and> snull_loaded s d0 d1 P
     \<and> length (P d0) = nat (pool_size E) \<and> length (P d1) = nat (pool_size E)"
proof -
  obtain s d0 d1 ps qs where s: "snull_init_module E (nat (pool_size E)) snull_boot = Inr (0, s)" "fresh_pair s d0 d1 ps qs"
    "length ps = nat (pool_size E)" "length qs = nat (pool_size E)" "snull_interrupt s = Some (intr_of E)"
    using snull_loading.load_ready [OF assms(1-3,5-7)] by blast
  then have "ps \<noteq> []" "qs \<noteq> []" "d0 \<noteq> d1" using assms(4) by (auto simp: fresh_pair_def)
  moreover have "snull_interrupt s = Some RegularInterrupt" using s(5) assms(3) by (simp add: intr_of_def)
  ultimately have "snull_loaded s d0 d1 ((\<lambda>_. [])(d0 := ps, d1 := qs))" by (intro fresh_pair_loaded [OF s(2)])
  with s(1,3,4) \<open>d0 \<noteq> d1\<close> show ?thesis
    by (intro exI [of _ s] exI [of _ d0] exI [of _ d1] exI [of _ "(\<lambda>_. [])(d0 := ps, d1 := qs)"]) simp
qed

lemma snull_load_ready_witness:
  "\<exists>s d0 d1 P. snull_init_module demo_env 8 snull_boot = Inr (0, s) \<and> snull_loaded s d0 d1 P
     \<and> length (P d0) = 8 \<and> length (P d1) = 8"
  using snull_load_ready [OF demo_laws(1,3,9) _ demo_laws(2,5,6)] demo_laws(10) by simp

text \<open>
  C7. Unloading the module after any sequence of events frees every packet and both devices:
  the number of free operations is right for whatever the module did before.
\<close>

theorem snull_unload_frees_all:
  assumes "snull_loaded s0 d0 d1 P" and "snull_reach E s0 s" and "lockup E = 0" and "eth_type_trans_law E"
    and "length (P d0) \<le> fuel" and "length (P d1) \<le> fuel"
  shows "\<exists>s'. snull_cleanup fuel s = Inr s' \<and> pkts s' = Map.empty \<and> netdevs s' = Map.empty \<and> skbs s' = Map.empty"
  using loaded_cleanup [OF reach_loaded [OF assms(2,1,3,4)] assms(5,6)]
  by (auto simp: nothing_held_def dest!: succeedsD)

lemma snull_unload_frees_all_witness:
  "\<exists>s'. snull_cleanup 2 demo_state = Inr s' \<and> pkts s' = Map.empty \<and> netdevs s' = Map.empty \<and> skbs s' = Map.empty"
  by (rule snull_unload_frees_all [OF demo_loaded snull_reach.start demo_laws(8,4)])
    (simp_all add: demo_pools_def)


definition refusing_env :: snull_env where
  "refusing_env = demo_env\<lparr>k_alloc_netdev := (\<lambda>tr. if length tr < 5 then k_alloc_netdev demo_env tr else None)\<rparr>"


end
