(* ===== verification/Snull_Bytes.thy ===== *)
theory Snull_Bytes
  imports Snull_Claims
begin

text \<open>
  What arrives for what was sent: the properties of \<open>snull.c\<close> about the bytes of the newest
  skb that the driver has handed to the protocol stack.
\<close>

definition arrived :: "snull_state \<Rightarrow> byte list" where
  "arrived s = (case delivered (ktrace s) of k # _ \<Rightarrow> skb_data k | [] \<Rightarrow> [])"

lemma arrived_tx:
  assumes "tx_ready E s d0 d1 P d q b" and "\<forall>tr n. k_dev_alloc_skb E tr n"
    and "snull_tx E q d s = Inr (r, s')"
  shows "arrived s' = rx_payload E b"
  using tx_newest [OF assms] by (simp add: arrived_def delivered_skb_def)

lemma echo_run:
  obtains s' where "snull_tx demo_env 7 101 (give_skb echo_frame demo_state) = Inr (0, s')"
    "tx_ready demo_env (give_skb echo_frame demo_state) 101 102 demo_pools 101 7 echo_frame"
proof -
  have ready: "tx_ready demo_env (give_skb echo_frame demo_state) 101 102 demo_pools 101 7 echo_frame"
    by (rule demo_ready) (simp_all add: frame_consts)
  show thesis by (rule snull_tx_run [OF ready]) (use ready that in blast)
qed

lemma short_run:
  obtains s' where "snull_tx demo_env 7 101 (give_skb short_frame demo_state) = Inr (0, s')"
    "tx_ready demo_env (give_skb short_frame demo_state) 101 102 demo_pools 101 7 short_frame"
proof -
  have ready: "tx_ready demo_env (give_skb short_frame demo_state) 101 102 demo_pools 101 7 short_frame"
    by (rule demo_ready) (simp_all add: short_frame_def frame_consts)
  show thesis by (rule snull_tx_run [OF ready]) (use ready that in blast)
qed

section \<open>Frames that are not pings\<close>

text \<open>
  C14. A frame that is not a ping arrives as it was sent, without its Ethernet header: only the
  two bytes of the IP checksum differ, and a frame shorter than 60 bytes is padded with zeros,
  never with stale memory.
\<close>

theorem snull_tx_payload:
  assumes "tx_ready E s d0 d1 P d q b" and "\<forall>tr n. k_dev_alloc_skb E tr n"
    and "snull_tx E q d s = Inr (r, s')" and "\<not> is_ping (frame_kind (pad_frame b))"
  shows "length (arrived s') = max 60 (length b) - 14
     \<and> (\<forall>i < length (arrived s'). i \<noteq> 10 \<longrightarrow> i \<noteq> 11 \<longrightarrow>
          arrived s' ! i = (if i + 14 < length b then b ! (i + 14) else 0))"
proof -
  let ?p = "pad_frame b" and ?f = "tx_frame E (pad_frame b)"
  have lp: "60 \<le> length ?p" "length ?p = max 60 (length b)" by (simp_all add: length_pad_frame frame_consts)
  have notecho: "\<not> (?f ! 34 = ICMP_ECHO \<and> ?f ! 35 = 0)"
  proof -
    have t: "?f ! 34 = ?p ! 34" "?f ! 35 = ?p ! 35"
      using tx_frame_type [of ?p E] lp(1) by simp_all
    show ?thesis using assms(4) unfolding t is_ping_def frame_kind_echo [symmetric] by blast
  qed
  have len: "length (rx_payload E b) = length ?p - 14"
    using lp(1) by (simp add: rx_payload_def length_tx_frame)
  have "rx_payload E b ! i = (if i + 14 < length b then b ! (i + 14) else 0)"
    if "i < length ?p - 14" "i \<noteq> 10" "i \<noteq> 11" for i
  proof -
    have "rx_payload E b ! i = ?f ! (14 + i)"
      using nth_rx_payload [OF that(1), of E] notecho by (simp only: Let_def if_False)
    also have "\<dots> = ?p ! (14 + i)"
      using that lp(1) assms(4) by (simp add: nth_tx_frame)
    also have "\<dots> = (if i + 14 < length b then b ! (i + 14) else 0)"
      using that(1) by (auto simp: pad_frame_def nth_append add.commute split: if_splits)
    finally show ?thesis .
  qed
  then show ?thesis using len lp by (simp add: arrived_tx [OF assms(1-3)])
qed

lemma short_frame_kind: "\<not> is_ping (frame_kind (pad_frame short_frame))"
  by (simp add: short_frame_def echo_frame_def pad_frame_def frame_consts frame_kind_def)

lemma snull_tx_payload_witness:
  "\<exists>s'. snull_tx demo_env 7 101 (give_skb short_frame demo_state) = Inr (0, s')
     \<and> length (arrived s') = 46 \<and> arrived s' ! 9 = 1 \<and> arrived s' ! 20 = 17 \<and> arrived s' ! 40 = 0"
proof (rule short_run)
  fix s'
  assume run: "snull_tx demo_env 7 101 (give_skb short_frame demo_state) = Inr (0, s')"
    and ready: "tx_ready demo_env (give_skb short_frame demo_state) 101 102 demo_pools 101 7 short_frame"
  note p = snull_tx_payload [OF ready demo_laws(7) run short_frame_kind]
  have len: "length short_frame = 42" by (simp add: short_frame_def)
  have "length (arrived s') = 46" using p len by simp
  moreover from p len this have "arrived s' ! 9 = short_frame ! 23" "arrived s' ! 20 = short_frame ! 34"
    "arrived s' ! 40 = 0" by simp_all
  ultimately show ?thesis using run by (simp add: short_frame_def echo_frame_def)
qed

section \<open>Pings\<close>



text \<open>
  The ICMP checksum of an answered ping is wrong: the type byte changes and the checksum
  field does not, so a request with a valid ICMP checksum arrives as a reply whose checksum is
  invalid.  The reply is only accepted because the skb is marked CHECKSUM_UNNECESSARY.
\<close>

theorem snull_ping_bad_checksum:
  assumes "tx_ready E s d0 d1 P d q b" and "\<forall>tr n. k_dev_alloc_skb E tr n"
    and "snull_tx E q d s = Inr (r, s')" and "60 \<le> length b" and "frame_kind b = ICMP_ECHO"
    and "csum_valid (drop 34 b)"
  shows "\<not> csum_valid (drop 20 (arrived s')) \<and> skb_csum_unnecessary (hd (delivered (ktrace s')))"
proof
  have arr: "drop 20 (arrived s') = 0 # drop 35 b"
    using echo_payload_icmp [OF assms(4,5)] by (simp add: arrived_tx [OF assms(1-3)] frame_consts)
  have sent: "sum16 (drop 34 b) = 2048 + sum16 (0 # drop 35 b)"
    using echo_icmp_split [OF assms(4,5)] sum16_first [of 8 "drop 35 b"] by (simp add: frame_consts)
  have odd: "x mod 65535 \<noteq> 0" if "(2048 + x) mod 65535 = 0" for x :: nat
  proof
    assume "x mod 65535 = 0"
    then have "(2048 + x) mod 65535 = 2048 mod 65535" by (metis add_0_right mod_add_right_eq)
    with that show False by simp
  qed
  have "(2048 + sum16 (0 # drop 35 b)) mod 65535 = 0"
    using assms(6) unfolding csum_valid_def sent by (rule conjunct2)
  from odd [OF this] show "\<not> csum_valid (drop 20 (arrived s'))"
    unfolding arr csum_valid_def by (rule contrapos_nn) (rule conjunct2)
  show "skb_csum_unnecessary (hd (delivered (ktrace s')))"
    using tx_newest [OF assms(1-3)] by (simp add: delivered_skb_def)
qed

lemma snull_ping_bad_checksum_witness:
  "\<exists>s'. snull_tx demo_env 7 101 (give_skb echo_frame demo_state) = Inr (0, s')
     \<and> csum_valid (drop 34 echo_frame) \<and> \<not> csum_valid (drop 20 (arrived s'))"
proof (rule echo_run)
  fix s'
  assume run: "snull_tx demo_env 7 101 (give_skb echo_frame demo_state) = Inr (0, s')"
    and ready: "tx_ready demo_env (give_skb echo_frame demo_state) 101 102 demo_pools 101 7 echo_frame"
  have "csum_valid (drop 34 echo_frame)" by (simp add: echo_frame_def csum_valid_def)
  then show ?thesis
    using snull_ping_bad_checksum [OF ready demo_laws(7) run _ echo_frame_props(2)] run by auto
qed

section \<open>The IP header checksum\<close>

lemma tx_frame_header:
  assumes "39 \<le> length b"
  shows "\<exists>x y. drop 14 (tx_frame E b) = x @ ip_check E y @ drop 12 (drop 14 y)
     \<and> drop 14 (set_check y [0, 0]) = x @ [0, 0] @ drop 12 (drop 14 y) \<and> length x = 10 \<and> length y = length b
     \<and> y ! 14 = b ! 14"
proof -
  let ?y = "if is_ping (frame_kind b) then swap_frame b else b"
  have ly: "length ?y = length b" and h: "?y ! 14 = b ! 14"
    using assms by (simp_all add: nth_swap_frame)
  have split: "drop 14 (set_check y c) = drop 14 (take 24 y) @ c @ drop 12 (drop 14 y)"
    if "length y = length b" "length c = 2" for y c
    using that assms by (simp add: set_check_def)
  have "drop 14 (tx_frame E b) = drop 14 (take 24 ?y) @ ip_check E ?y @ drop 12 (drop 14 ?y)"
    unfolding tx_frame_def Let_def by (rule split [OF ly]) simp
  moreover have "drop 14 (set_check ?y [0, 0]) = drop 14 (take 24 ?y) @ [0, 0] @ drop 12 (drop 14 ?y)"
    by (rule split [OF ly]) simp
  moreover have "length (drop 14 (take 24 ?y)) = 10" using ly assms by simp
  ultimately show ?thesis using ly h by blast
qed



end
