(* ===== verification/Snull_Faults.thy ===== *)
theory Snull_Faults
  imports Snull_Bytes
begin

text \<open>
  Where \<open>snull.c\<close> leaves its contract: the simulated lockup and the watchdog that recovers
  from it, the watchdog on a device that is not locked up, frames longer than the data area of
  a packet, an empty pool, and loading with NAPI.
\<close>

section \<open>The transmit watchdog\<close>

lemma snull_tx_timeout_eq:
  assumes "priv_of s d = Some pr" and "\<not> lock pr" and "priv_skb pr = Some q" and "skbs s q = Some k"
    and "snull_interrupt s = Some RegularInterrupt"
  obtains s' where "snull_tx_timeout E d s = Inr s'" "skbs s' = (skbs s)(q := None)" "pkts s' = pkts s"
    "priv_of s' = (priv_of s)(d \<mapsto> pr\<lparr>status := 0,
        stats := (tx_stats (tx_packetlen pr) (stats pr))\<lparr>tx_errors := tx_errors (stats pr) + 1\<rparr>\<rparr>)"
    "ktrace s' = WakeQueue d # DevKfreeSkb (Some q) # ktrace s"
    "snull_devs s' = snull_devs s" "snull_interrupt s' = snull_interrupt s"
proof -
  let ?s1 = "set_priv d (\<lambda>pr. pr\<lparr>status := SNULL_TX_INTR\<rparr>) s" and ?pr1 = "pr\<lparr>status := SNULL_TX_INTR\<rparr>"
  have p1: "priv_of ?s1 = (priv_of s)(d \<mapsto> ?pr1)" using assms(1) by (auto simp: snull_state fun_eq_iff)
  have "\<exists>s2. snull_regular_interrupt E (Some d) ?s1 = Inr s2
     \<and> pkts s2 = pkts ?s1 \<and> skbs s2 = (skbs ?s1)(q := None) \<and> shortpkt s2 = shortpkt ?s1
     \<and> snull_devs s2 = snull_devs ?s1 \<and> snull_interrupt s2 = snull_interrupt ?s1
     \<and> priv_of s2 = (priv_of ?s1)(d \<mapsto> ?pr1\<lparr>status := 0, stats := tx_stats (tx_packetlen ?pr1) (stats ?pr1)\<rparr>)
     \<and> ktrace s2 = DevKfreeSkb (Some q) # ktrace ?s1"
    using p1 assms by (intro tx_interrupt [where k = k]) (simp_all add: snull_state)
  then obtain s2 where s2: "snull_regular_interrupt E (Some d) ?s1 = Inr s2"
     "pkts s2 = pkts s" "skbs s2 = (skbs s)(q := None)" "snull_devs s2 = snull_devs s"
     "snull_interrupt s2 = snull_interrupt s" "ktrace s2 = DevKfreeSkb (Some q) # ktrace s"
     "priv_of s2 = (priv_of s)(d \<mapsto> pr\<lparr>status := 0, stats := tx_stats (tx_packetlen pr) (stats pr)\<rparr>)"
    using p1 by (auto simp: snull_state)
  let ?s3 = "emit (WakeQueue d) (set_priv d (\<lambda>pr. pr\<lparr>stats := (stats pr)\<lparr>tx_errors := tx_errors (stats pr) + 1\<rparr>\<rparr>) s2)"
  have "snull_tx_timeout E d s = Inr ?s3"
    using assms(1,5) s2 by (simp add: snull_tx_timeout_def raise_interrupt_def snull_ops snull_state)
  then show thesis
    using s2 by (intro that [of ?s3]) (auto simp: snull_state tx_stats_def fun_eq_iff)
qed

lemma snull_tx_timeout_freed:
  assumes "priv_of s d = Some pr" and "\<not> lock pr" and "priv_skb pr = Some q" and "skbs s q = None"
    and "snull_interrupt s = Some RegularInterrupt"
  shows "snull_tx_timeout E d s = Inl DoubleFree"
  using assms by (simp add: snull_tx_timeout_def raise_interrupt_def snull_regular_interrupt_def tx_done_def
      snull_ops snull_state SNULL_RX_INTR_def SNULL_TX_INTR_def dev_kfree_skb_def)

text \<open>
  Once a transmission has completed, a call of the watchdog handler on the same device
  frees the transmitted skb a second time: the handler relies on the kernel calling it only
  while a transmission is outstanding.
\<close>

theorem snull_tx_timeout_double_free:
  assumes "tx_ready E s d0 d1 P d q b" and "snull_tx E q d s = Inr (r, s')"
  shows "snull_tx_timeout E d s' = Inl DoubleFree"
proof (rule snull_tx_run [OF assms(1)])
  fix s2
  assume run: "snull_tx E q d s = Inr (0, s2)" "skbs s2 = (skbs s)(q := None)"
    "priv_of s2 = tx_privs E d (rx_dev d0 d1 d (pad_frame b)) (P d) (tx_buf q b) (pad_frame b) (ktrace s)
        (priv_of (tx_entry E q d b s))" "snull_interrupt s2 = snull_interrupt s"
  have q: "snull_quiet s d0 d1 P" "d = d0 \<or> d = d1" using assms(1) by (auto simp: tx_ready_def)
  then obtain pr where pr: "priv_of s d = Some pr" "\<not> lock pr" "snull_interrupt s = Some RegularInterrupt"
    by (auto simp: snull_quiet_def dev_quiet_def quiet_priv_def)
  define pr' where "pr' = the (priv_of s2 d)"
  have "priv_of s2 d = Some pr'" "\<not> lock pr'" "priv_skb pr' = Some q"
    using run(3) pr(1,2) unfolding pr'_def
    by (cases "rx_dev d0 d1 d (pad_frame b) = d"; simp add: tx_privs_def Let_def snull_state)+
  then have "snull_tx_timeout E d s2 = Inl DoubleFree"
    using run(2,4) pr(3) by (intro snull_tx_timeout_freed [where q = q]) simp_all
  then show ?thesis using run(1) assms(2) by simp
qed

lemma snull_tx_timeout_double_free_witness:
  "\<exists>s'. snull_tx demo_env 7 101 (give_skb echo_frame demo_state) = Inr (0, s')
     \<and> snull_tx_timeout demo_env 101 s' = Inl DoubleFree"
  by (rule echo_run) (use snull_tx_timeout_double_free in blast)

section \<open>Lockup and recovery\<close>

text \<open>The frame is the one the \<open>lockup\<close> parameter singles out, everything else as for a transmission.\<close>

definition tx_locks_up :: "snull_env \<Rightarrow> snull_state \<Rightarrow> devp \<Rightarrow> devp \<Rightarrow> (devp \<Rightarrow> paddr list) \<Rightarrow> devp \<Rightarrow> skbp \<Rightarrow> byte list \<Rightarrow> bool" where
  "tx_locks_up E s d0 d1 P d q b \<longleftrightarrow> snull_quiet s d0 d1 P \<and> (d = d0 \<or> d = d1) \<and> eth_type_trans_law E
     \<and> map_option skb_data (skbs s q) = Some b \<and> length b \<le> ETH_DATA_LEN \<and> lockup E \<noteq> 0
     \<and> (case priv_of s d of None \<Rightarrow> False
        | Some pr \<Rightarrow> uint (tx_packets (stats pr) + 1) mod c_ulong (lockup E) = 0)"

lemma snull_tx_stalls:
  assumes "tx_locks_up E s d0 d1 P d q b"
  obtains s' p k f pr pr' where "snull_tx E q d s = Inr (0, s')" "skbs s' q \<noteq> None" "\<forall>r. r \<noteq> q \<longrightarrow> skbs s' r = skbs s r"
    "ktrace s' = StopQueue d # mid_log E d (rx_dev d0 d1 d (pad_frame b)) (P d) (pad_frame b) (ktrace s)"
    "priv_of s' = (mid_privs E d (rx_dev d0 d1 d (pad_frame b)) (P d) (pad_frame b) (ktrace s) (priv_of s))(d \<mapsto> pr')"
    "priv_of s d = Some pr" "quiet_priv pr"
    "\<not> lock pr'" "status pr' = SNULL_TX_INTR" "priv_skb pr' = Some q" "rx_queue pr' = None" "ppool pr' = ppool pr"
    "tx_packets (stats pr') = tx_packets (stats pr)" "tx_errors (stats pr') = tx_errors (stats pr)"
    "rx_int_enabled pr' \<noteq> 0"
    "pkts s p = Some k" "pkts s' = (pkts s)(p \<mapsto> f k)" "pkt_next (f k) = pkt_next k"
    "pkt_dev (f k) = pkt_dev k" "length (pkt_data (f k)) = length (pkt_data k)"
    "snull_devs s' = snull_devs s" "snull_interrupt s' = Some RegularInterrupt"
proof -
  let ?b = "pad_frame b" and ?t = "tx_entry E q d b s" and ?buf = "tx_buf q b"
  from assms obtain kq where kq: "skbs s q = Some kq" "b = skb_data kq" by (auto simp: tx_locks_up_def)
  from assms have a: "snull_quiet s d0 d1 P" "d = d0 \<or> d = d1" "lockup E \<noteq> 0" "eth_type_trans_law E"
    "length b \<le> ETH_DATA_LEN" by (auto simp: tx_locks_up_def)
  from assms obtain pr where pr: "priv_of s d = Some pr" "uint (tx_packets (stats pr) + 1) mod c_ulong (lockup E) = 0"
    by (auto simp: tx_locks_up_def split: option.splits)
  have dq: "dev_quiet s d (P d)" using a(1,2) by (auto simp: snull_quiet_def)
  then obtain p ps where ps: "P d = p # ps" and qp: "quiet_priv pr" using pr(1) by (auto simp: dev_quiet_def neq_Nil_conv)
  from dq ps obtain k where k: "pkts s p = Some k" "length (pkt_data k) = ETH_DATA_LEN"
    by (auto simp: dev_quiet_def pool_holds_def full_data_def)
  have len: "60 \<le> length ?b" "length ?b \<le> ETH_DATA_LEN"
    using a(5) by (simp_all add: length_pad_frame frame_consts)
  have kt: "pkts ?t p = Some k" "skbs ?t q = Some kq" using k kq by (simp_all add: snull_state)
  define f :: "snull_packet \<Rightarrow> snull_packet" where "f = (\<lambda>k. k\<lparr>datalen := int (length ?b), pkt_data := tx_frame E ?b @ drop (length ?b) (pkt_data k)\<rparr>)"
  obtain s6 where s6: "snull_hw_tx E ?buf (int (length ?b)) d ?t = hw_tx_complete E ?buf (int (length ?b)) d s6"
    "pkts s6 = (pkts s)(p \<mapsto> f k)"
    "priv_of s6 = mid_privs E d (rx_dev d0 d1 d ?b) (P d) ?b (ktrace s) (priv_of ?t)"
    "ktrace s6 = mid_log E d (rx_dev d0 d1 d ?b) (P d) ?b (ktrace s)" "\<exists>kq. skbs s6 q = Some kq"
    "\<forall>r. (\<forall>r'. ?buf = SkbData r' \<longrightarrow> r \<noteq> r') \<longrightarrow> skbs s6 r = skbs s r"
    "snull_devs s6 = snull_devs s" "snull_interrupt s6 = Some RegularInterrupt"
    by (rule snull_hw_tx_mid [OF snull_quiet_entry [OF a(1)] a(2,4) tx_buf_entry [OF kq] len kt(2) refl ps kt(1)])
      (simp add: snull_state f_def)
  define pr6 where "pr6 = the (priv_of s6 d)"
  have pr6: "priv_of s6 d = Some pr6" "\<not> lock pr6" "status pr6 = 0" "priv_skb pr6 = Some q"
    "rx_queue pr6 = None" "ppool pr6 = ppool pr" "rx_int_enabled pr6 \<noteq> 0"
    "tx_packets (stats pr6) = tx_packets (stats pr)" "tx_errors (stats pr6) = tx_errors (stats pr)"
    using s6(3) pr(1) qp by (auto simp: mid_privs_def pr6_def quiet_priv_def snull_state rx_stats_def)
  define g :: "snull_priv \<Rightarrow> snull_priv" where "g = (\<lambda>pr. pr\<lparr>tx_packetlen := int (length ?b), tx_packetdata := Some ?buf,
      status := status pr OR SNULL_TX_INTR\<rparr>)"
  let ?s' = "emit (StopQueue d) (set_priv d g s6)"
  have "netdev_priv (set_priv d g s6) d = Inr (g pr6)"
    using pr6(1) by (simp add: netdev_priv_eq snull_state)
  then have "hw_tx_complete E ?buf (int (length ?b)) d s6 = Inr ?s'"
    using upd_priv_eq [OF pr6(1), of g] pr(2) pr6(8) a(3)
    by (simp add: hw_tx_complete_def g_def)
  then have run: "snull_tx E q d s = Inr (0, ?s')"
    using snull_tx_eq [OF kq _ pr(1)] qp s6(1) a(5) by (simp add: quiet_priv_def frame_consts)
  have P': "priv_of ?s' = (mid_privs E d (rx_dev d0 d1 d ?b) (P d) ?b (ktrace s) (priv_of s))(d \<mapsto> g pr6)"
    using s6(3) pr6(1) by (auto simp: snull_state fun_eq_iff mid_privs_def)
  show thesis
  proof (rule that [OF run _ _ _ P' pr(1) qp])
    show "\<forall>r. r \<noteq> q \<longrightarrow> skbs ?s' r = skbs s r" using s6(6) by (auto simp: snull_state tx_buf_def)
    show "length (pkt_data (f k)) = length (pkt_data k)" using k(2) len by (auto simp: f_def length_tx_frame)
  qed (use s6 pr6 k in \<open>auto simp: snull_state g_def f_def SNULL_TX_INTR_def\<close>)
qed

text \<open>Devices whose private areas are quiet again, with one packet refilled in its pool, are quiet.\<close>

lemma quiet_again:
  assumes quiet: "snull_quiet s d0 d1 P" and pr: "priv_of s d = Some pr"
    and v: "priv_of t = (mid_privs E d e ps b tr (priv_of s))(d \<mapsto> pr2)" "quiet_priv pr2" "ppool pr2 = ppool pr"
    and p: "pkts s p = Some k" "pkts t = (pkts s)(p \<mapsto> k')" "pkt_next k' = pkt_next k" "pkt_dev k' = pkt_dev k"
      "length (pkt_data k') = length (pkt_data k)"
    and same: "snull_devs t = snull_devs s" "snull_interrupt t = Some RegularInterrupt"
  shows "snull_quiet t d0 d1 P"
proof -
  have "dev_quiet t x (P x)" if dqx: "dev_quiet s x (P x)" for x
  proof -
    from dqx obtain prx where prx: "priv_of s x = Some prx" "quiet_priv prx" by (auto simp: dev_quiet_def)
    obtain prx' where prx': "priv_of t x = Some prx'" "quiet_priv prx'" "ppool prx' = ppool prx"
    proof (cases "x = d")
      case True
      then show thesis using v pr prx that by simp
    next
      case False
      then show thesis using v(1) prx that by (cases "x = e") (simp_all add: mid_privs_def quiet_priv_def)
    qed
    show ?thesis
      using dqx p by (intro dev_quiet_cong [OF dqx prx(1) prx']) (auto simp: dev_quiet_def pool_holds_def)
  qed
  then show ?thesis using quiet same by (simp add: snull_quiet_def)
qed

text \<open>
  C11. A simulated lockup and its recovery: the frame is handed to the receiver, but its skb is
  kept and the queue is stopped; the watchdog handler then frees that skb, counts one packet
  and one error, wakes the queue, and leaves both devices quiet with all their buffers.
\<close>

theorem snull_lockup_recovers:
  assumes "tx_locks_up E s d0 d1 P d q b"
  shows "\<exists>s1 s2 pr pr2. snull_tx E q d s = Inr (0, s1) \<and> skbs s1 q \<noteq> None \<and> hd (ktrace s1) = StopQueue d
     \<and> snull_tx_timeout E d s1 = Inr s2 \<and> skbs s2 = (skbs s)(q := None)
     \<and> ktrace s2 = WakeQueue d # DevKfreeSkb (Some q) # ktrace s1
     \<and> priv_of s d = Some pr \<and> priv_of s2 d = Some pr2
     \<and> tx_packets (stats pr2) = tx_packets (stats pr) + 1 \<and> tx_errors (stats pr2) = tx_errors (stats pr) + 1
     \<and> snull_quiet s2 d0 d1 P"
proof (rule snull_tx_stalls [OF assms])
  let ?m = "mid_privs E d (rx_dev d0 d1 d (pad_frame b)) (P d) (pad_frame b) (ktrace s) (priv_of s)"
  fix s1 p k pr pr' and f :: "snull_packet \<Rightarrow> snull_packet"
  assume s1: "snull_tx E q d s = Inr (0, s1)" "skbs s1 q \<noteq> None" "\<forall>r. r \<noteq> q \<longrightarrow> skbs s1 r = skbs s r"
    "ktrace s1 = StopQueue d # mid_log E d (rx_dev d0 d1 d (pad_frame b)) (P d) (pad_frame b) (ktrace s)"
    "priv_of s1 = ?m(d \<mapsto> pr')"
    and pr: "priv_of s d = Some pr" "quiet_priv pr"
    and pr': "\<not> lock pr'" "status pr' = SNULL_TX_INTR" "priv_skb pr' = Some q" "rx_queue pr' = None" "ppool pr' = ppool pr"
    "tx_packets (stats pr') = tx_packets (stats pr)" "tx_errors (stats pr') = tx_errors (stats pr)" "rx_int_enabled pr' \<noteq> 0"
    and p: "pkts s p = Some k" "pkts s1 = (pkts s)(p \<mapsto> f k)" "pkt_next (f k) = pkt_next k"
    "pkt_dev (f k) = pkt_dev k" "length (pkt_data (f k)) = length (pkt_data k)"
    and same: "snull_devs s1 = snull_devs s" "snull_interrupt s1 = Some RegularInterrupt"
  from s1(2) obtain kq where kq: "skbs s1 q = Some kq" by blast
  obtain s2 where s2: "snull_tx_timeout E d s1 = Inr s2" "skbs s2 = (skbs s1)(q := None)" "pkts s2 = pkts s1"
    "priv_of s2 = (priv_of s1)(d \<mapsto> pr'\<lparr>status := 0,
        stats := (tx_stats (tx_packetlen pr') (stats pr'))\<lparr>tx_errors := tx_errors (stats pr') + 1\<rparr>\<rparr>)"
    "ktrace s2 = WakeQueue d # DevKfreeSkb (Some q) # ktrace s1"
    "snull_devs s2 = snull_devs s1" "snull_interrupt s2 = snull_interrupt s1"
    by (rule snull_tx_timeout_eq [of s1 d pr', OF _ pr'(1,3) kq])
      (use s1(5) pr' same(2) in simp_all)
  have "snull_quiet s d0 d1 P" using assms by (simp add: tx_locks_up_def)
  then have "snull_quiet s2 d0 d1 P"
    by (rule quiet_again [OF _ pr(1) s2(4) [unfolded s1(5) fun_upd_upd] _ _ p(1) s2(3) [unfolded p(2)] p(3-5)])
      (use pr' pr same s2(6,7) in \<open>simp_all add: quiet_priv_def\<close>)
  moreover have "skbs s2 = (skbs s)(q := None)" using s2(2) s1(3) by (simp add: fun_eq_iff)
  ultimately show ?thesis
    using s1(1,2,4) s2(1,4,5) pr(1) pr'(6,7)
    by (intro exI [of _ s1] exI [of _ s2] exI [of _ pr]
        exI [of _ "pr'\<lparr>status := 0, stats := (tx_stats (tx_packetlen pr') (stats pr'))\<lparr>tx_errors := tx_errors (stats pr') + 1\<rparr>\<rparr>"])
      (simp add: tx_stats_def)
qed

definition lockup_env :: snull_env where
  "lockup_env = demo_env\<lparr>lockup := 1\<rparr>"

lemma snull_lockup_recovers_witness:
  "\<exists>s1 s2. snull_tx lockup_env 7 101 (give_skb echo_frame demo_state) = Inr (0, s1) \<and> skbs s1 7 \<noteq> None
     \<and> snull_tx_timeout lockup_env 101 s1 = Inr s2 \<and> skbs s2 7 = None \<and> snull_quiet s2 101 102 demo_pools"
proof -
  have "tx_locks_up lockup_env (give_skb echo_frame demo_state) 101 102 demo_pools 101 7 echo_frame"
    using give_skb_quiet [OF demo_quiet] demo_laws(4) demo_privs(1)
    by (simp add: tx_locks_up_def lockup_env_def eth_type_trans_law_def give_skb_def snull_state
        frame_consts zero_priv_def zero_stats_def c_ulong_def)
  from snull_lockup_recovers [OF this] show ?thesis by auto
qed

section \<open>Frames that do not fit, and an empty pool\<close>

lemma hw_tx_front:
  assumes "load_buf s buf = Inr b" and "60 \<le> length b" and "length b < 2 ^ 31"
    and "store_buf buf (tx_frame E b) s = Inr s1" and "hw_tx_dest s1 (frame_kind b) d = Some e"
    and "snull_get_tx_buffer E d s1 = Inl x \<or> (\<exists>p s2 k. snull_get_tx_buffer E d s1 = Inr (p, s2)
           \<and> pkts s2 p = Some k \<and> length (pkt_data k) < length b \<and> x = Overrun)"
  shows "snull_hw_tx E buf (int (length b)) d s = Inl x"
proof -
  have lf: "length (tx_frame E b) = length b" using assms(2) by (simp add: length_tx_frame)
  obtain b1 where b1: "hw_tx_prot b = Inr (frame_kind b)" "hw_tx_swap (frame_kind b) b = Inr b1"
      "hw_tx_csum E b1 = Inr (tx_frame E b)"
    using hw_tx_frame_eq [of b E] assms(2) by (auto simp: hw_tx_frame_def bind_res_eq_Inr)
  have "\<not> c_ulong (int (length b)) < int (ETH_HLEN + SIZEOF_IPHDR)"
    using assms(2,3) by (simp add: c_ulong_id frame_consts)
  then show ?thesis
    using assms(1,4-6) b1 lf by (auto simp: snull_hw_tx_def snull_ops snull_state)
qed

lemma tx_front:
  assumes "snull_devs s 0 = Some d0" and "snull_devs s 1 = Some d1" and "d0 \<noteq> d1" and "d = d0 \<or> d = d1"
    and "skbs s q = Some kq" and "length (skb_data kq) < 2 ^ 31" and "priv_of s d = Some pr" and "\<not> lock pr"
    and "\<And>s1. pkts s1 = pkts s \<Longrightarrow> priv_of s1 = (priv_of s)(d \<mapsto> pr\<lparr>priv_skb := Some q\<rparr>) \<Longrightarrow>
        snull_get_tx_buffer E d s1 = Inl x \<or> (\<exists>p s2 k. snull_get_tx_buffer E d s1 = Inr (p, s2)
           \<and> pkts s2 p = Some k \<and> length (pkt_data k) < length (pad_frame (skb_data kq)) \<and> x = Overrun)"
  shows "snull_tx E q d s = Inl x"
proof -
  let ?b = "skb_data kq" and ?t = "tx_entry E q d (skb_data kq) s"
  obtain s1 where s1: "store_buf (tx_buf q ?b) (tx_frame E (pad_frame ?b)) ?t = Inr s1" "pkts s1 = pkts ?t"
      "priv_of s1 = priv_of ?t" "snull_devs s1 = snull_devs ?t"
    by (rule store_frame [OF tx_buf_entry [OF assms(5) refl]]) (use assms(5) in \<open>auto simp: snull_state\<close>)
  have dest: "hw_tx_dest s1 (frame_kind (pad_frame ?b)) d = Some (rx_dev d0 d1 d (pad_frame ?b))"
    using s1(4) assms(1-4) by (intro hw_tx_dest_eq) (simp_all add: snull_state)
  have "priv_of s1 = (priv_of s)(d \<mapsto> pr\<lparr>priv_skb := Some q\<rparr>)"
    using s1(3) assms(7) by (auto simp: snull_state fun_eq_iff)
  then have get: "snull_get_tx_buffer E d s1 = Inl x \<or> (\<exists>p s2 k. snull_get_tx_buffer E d s1 = Inr (p, s2)
           \<and> pkts s2 p = Some k \<and> length (pkt_data k) < length (pad_frame ?b) \<and> x = Overrun)"
    using s1(2) by (intro assms(9)) (simp_all add: snull_state)
  have "60 \<le> length (pad_frame ?b)" "length (pad_frame ?b) < 2 ^ 31"
    using assms(6) by (simp_all add: length_pad_frame frame_consts)
  from hw_tx_front [OF tx_buf_entry [OF assms(5) refl] this s1(1) dest get]
  show ?thesis using snull_tx_eq [OF assms(5) refl assms(6-8)] by simp
qed

text \<open>
  C16. A packet holds 1500 bytes, but an MTU of 1500, which \<open>snull_change_mtu\<close> accepts, lets
  the kernel send frames of up to 1514 bytes: transmitting one of more than 1500 bytes writes
  past the end of the packet.
\<close>

theorem snull_tx_overruns:
  assumes "snull_quiet s d0 d1 P" and "d = d0 \<or> d = d1" and "skbs s q = Some kq"
    and "ETH_DATA_LEN < length (skb_data kq)" and "length (skb_data kq) \<le> ETH_HLEN + 1500"
  shows "snull_tx E q d s = Inl Overrun"
proof -
  from assms(1,2) obtain pr p k where pr: "priv_of s d = Some pr" "\<not> lock pr" "ppool pr = Some p"
    and k: "pkts s p = Some k" "length (pkt_data k) = ETH_DATA_LEN"
    by (auto simp: snull_quiet_def dev_quiet_def quiet_priv_def pool_holds_def full_data_def neq_Nil_conv)
  from assms(1) have devs: "snull_devs s 0 = Some d0" "snull_devs s 1 = Some d1" "d0 \<noteq> d1"
    by (simp_all add: snull_quiet_def)
  have len: "length (skb_data kq) < 2 ^ 31" using assms(5) by (simp add: frame_consts)
  show ?thesis
  proof (rule tx_front [OF devs assms(2,3) len pr(1,2)])
    fix s1
    assume s1: "pkts s1 = pkts s" "priv_of s1 = (priv_of s)(d \<mapsto> pr\<lparr>priv_skb := Some q\<rparr>)"
    let ?s2 = "(if pkt_next k = None then emit (StopQueue d) else id) (set_priv d (\<lambda>pr. pr\<lparr>ppool := pkt_next k\<rparr>) s1)"
    have "snull_get_tx_buffer E d s1 = Inr (p, ?s2)"
      using s1 pr k by (intro snull_get_tx_buffer_eq [where pr = "pr\<lparr>priv_skb := Some q\<rparr>"]) simp_all
    moreover have "pkts ?s2 p = Some k" using s1(1) k by (simp add: snull_state)
    moreover have "length (pkt_data k) < length (pad_frame (skb_data kq))"
      using k(2) assms(4) by (simp add: length_pad_frame)
    ultimately show "snull_get_tx_buffer E d s1 = Inl Overrun \<or> (\<exists>p s2 k. snull_get_tx_buffer E d s1 = Inr (p, s2)
           \<and> pkts s2 p = Some k \<and> length (pkt_data k) < length (pad_frame (skb_data kq)) \<and> Overrun = Overrun)"
      by blast
  qed
qed

lemma snull_tx_overruns_witness:
  "snull_tx demo_env 7 101 (give_skb (replicate 1514 0) demo_state) = Inl Overrun"
  by (rule snull_tx_overruns [OF give_skb_quiet [OF demo_quiet]])
    (auto simp: give_skb_def snull_state frame_consts)

text \<open>
  Transmitting on a device whose pool is empty dereferences a NULL pointer: nothing in
  \<open>snull_tx\<close> looks at the pool, it relies on the queue having been stopped.
\<close>

theorem snull_tx_no_buffer:
  assumes "snull_devs s 0 = Some d0" and "snull_devs s 1 = Some d1" and "d0 \<noteq> d1" and "d = d0 \<or> d = d1"
    and "skbs s q = Some kq" and "length (skb_data kq) < 2 ^ 31" and "priv_of s d = Some pr" and "\<not> lock pr"
    and "ppool pr = None"
  shows "snull_tx E q d s = Inl NullDeref"
proof (rule tx_front [OF assms(1-8)])
  fix s1
  assume "priv_of s1 = (priv_of s)(d \<mapsto> pr\<lparr>priv_skb := Some q\<rparr>)"
  then show "snull_get_tx_buffer E d s1 = Inl NullDeref \<or> (\<exists>p s2 k. snull_get_tx_buffer E d s1 = Inr (p, s2)
       \<and> pkts s2 p = Some k \<and> length (pkt_data k) < length (pad_frame (skb_data kq)) \<and> NullDeref = Overrun)"
    using snull_get_tx_buffer_empty [of s1 d "pr\<lparr>priv_skb := Some q\<rparr>" E] assms(8,9) by simp
qed

lemma snull_tx_no_buffer_witness:
  "snull_tx demo_env 7 101 (give_skb echo_frame (set_priv 101 (\<lambda>pr. pr\<lparr>ppool := None\<rparr>) demo_state)) = Inl NullDeref"
  by (rule snull_tx_no_buffer [where ?d0.0 = 101 and ?d1.0 = 102
        and pr = "zero_priv\<lparr>rx_int_enabled := 1, ppool := None\<rparr>"])
    (auto simp: give_skb_def snull_state demo_fields demo_privs zero_priv_def simp del: One_nat_def)

section \<open>NAPI\<close>

text \<open>
  Loading with \<open>use_napi\<close> set dereferences a NULL pointer: nothing ever allocates the
  \<open>napi_struct\<close> that \<open>snull_init\<close> passes to \<open>netif_napi_add\<close>.
\<close>

theorem snull_napi_load_faults:
  assumes "use_napi E \<noteq> 0" and "\<not> k_napi_add_ok E None" and "k_alloc_netdev E [] \<noteq> None"
  shows "snull_init_module E fuel snull_boot = Inl NullDeref"
proof -
  obtain d nd where a: "k_alloc_netdev E [] = Some (d, nd)" using assms(3) by auto
  let ?s = "(emit (AllocNetdev (Some d)) (snull_boot\<lparr>snull_interrupt := Some NapiInterrupt\<rparr>))\<lparr>netdevs := [d \<mapsto> nd]\<rparr>"
  obtain pr where pr: "priv_of ?s d = Some pr" by (simp add: priv_of_def)
  let ?s1 = "set_dev d (k_ether_setup E) ?s"
  obtain pr1 where pr1: "priv_of ?s1 d = Some pr1" using pr by (auto simp: priv_of_def set_dev_def)
  have "snull_init E d ?s = Inl NullDeref"
    using assms(1,2) pr pr1 by (simp add: snull_init_def snull_ops snull_state zero_priv_def)
  then show ?thesis
    using assms(1) a by (simp add: snull_init_module_def alloc_netdev_def snull_boot_def Let_def)
qed

lemma snull_napi_load_faults_witness:
  "snull_init_module (demo_env\<lparr>use_napi := 1\<rparr>) 8 snull_boot = Inl NullDeref"
  by (rule snull_napi_load_faults) (simp_all add: demo_env_def)

end
