(* ===== verification/Snull_Poll.thy ===== *)
theory Snull_Poll
  imports Snull_Faults "HOL-Library.Sublist"
begin

text \<open>
  NAPI polling and the buffer lists of \<open>snull.c\<close>: the poll loop moves packets from the
  receive queue back to the pools of their owners, in the order of the queue and within the
  budget; the queue itself is last-in first-out.
\<close>

section \<open>Buffers between a queue and the pools\<close>

definition owner :: "snull_state \<Rightarrow> paddr \<Rightarrow> devp" where
  "owner s p = pkt_dev (the (pkts s p))"

text \<open>A packet without its link to the next: what releasing packets leaves alone.\<close>

definition bodies :: "snull_state \<Rightarrow> paddr \<Rightarrow> (devp \<times> int \<times> byte list) option" where
  "bodies s p = map_option (\<lambda>k. (pkt_dev k, datalen k, pkt_data k)) (pkts s p)"

lemma bodies_owner: "bodies u = bodies s \<Longrightarrow> owner u = owner s"
proof
  fix p assume "bodies u = bodies s"
  then have "bodies u p = bodies s p" by simp
  then show "owner u p = owner s p"
    by (cases "pkts u p"; cases "pkts s p") (auto simp: bodies_def owner_def)
qed

text \<open>Has a device asked to be polled since it was last polled to the end?\<close>

fun on_list :: "devp \<Rightarrow> kcall list \<Rightarrow> bool" where
  "on_list e [] = False"
| "on_list e (NetifRxSchedule x # tr) = (x = e \<or> on_list e tr)"
| "on_list e (NetifRxComplete x # tr) = (x \<noteq> e \<and> on_list e tr)"
| "on_list e (_ # tr) = on_list e tr"

text \<open>The abstract effect of releasing packets one after the other.\<close>

definition give_all :: "(paddr \<Rightarrow> devp) \<Rightarrow> paddr list \<Rightarrow> (devp \<Rightarrow> paddr list) \<Rightarrow> devp \<Rightarrow> paddr list" where
  "give_all own ps P = fold (\<lambda>p P. P(own p := p # P (own p))) ps P"

lemma give_all_simps [simp]:
  "give_all own [] P = P"
  "give_all own (p # ps) P = give_all own ps (P(own p := p # P (own p)))"
  by (simp_all add: give_all_def)

lemma give_all_eq: "give_all own ps P x = rev (filter (\<lambda>p. own p = x) ps) @ P x"
  by (induction ps arbitrary: P) auto

text \<open>Queue \<open>rs\<close> of device \<open>d\<close> and pools \<open>P\<close> are well-formed and disjoint.\<close>

definition bufs_ok :: "snull_state \<Rightarrow> devp \<Rightarrow> paddr list \<Rightarrow> (devp \<Rightarrow> paddr list) \<Rightarrow> bool" where
  "bufs_ok s d rs P \<longleftrightarrow> rx_holds d rs s
     \<and> (\<forall>p \<in> set rs. \<exists>k n. pkts s p = Some k \<and> datalen k = int n \<and> n \<le> length (pkt_data k)
          \<and> priv_of s (pkt_dev k) \<noteq> None)
     \<and> (\<forall>x. priv_of s x \<noteq> None \<longrightarrow> pool_holds x (P x) s)
     \<and> (\<forall>p \<in> set rs. \<forall>x. priv_of s x \<noteq> None \<longrightarrow> p \<notin> set (P x))"

lemma bufs_ok_distinct: "bufs_ok s d rs P \<Longrightarrow> distinct rs"
  by (auto simp: bufs_ok_def rx_holds_def dest: chain_distinct)

section \<open>Updates that leave the buffers alone\<close>

text \<open>Only counters and the history change.\<close>

definition same_bufs :: "snull_state \<Rightarrow> snull_state \<Rightarrow> bool" where
  "same_bufs s t \<longleftrightarrow> pkts t = pkts s
     \<and> (\<forall>x. map_option (\<lambda>pr. (lock pr, ppool pr, rx_queue pr, pstNapi pr)) (priv_of t x)
          = map_option (\<lambda>pr. (lock pr, ppool pr, rx_queue pr, pstNapi pr)) (priv_of s x))"

lemma same_bufs_refl [simp]: "same_bufs s s"
  by (simp add: same_bufs_def)

lemma same_bufs_trans: "same_bufs s t \<Longrightarrow> same_bufs t u \<Longrightarrow> same_bufs s u"
  by (simp add: same_bufs_def)

lemma same_bufs_priv:
  assumes "same_bufs s t" and "priv_of s x = Some pr"
  obtains pr' where "priv_of t x = Some pr'" "lock pr' = lock pr" "ppool pr' = ppool pr"
    "rx_queue pr' = rx_queue pr" "pstNapi pr' = pstNapi pr"
proof -
  from assms have "map_option (\<lambda>pr. (lock pr, ppool pr, rx_queue pr, pstNapi pr)) (priv_of t x)
      = Some (lock pr, ppool pr, rx_queue pr, pstNapi pr)"
    by (simp add: same_bufs_def)
  then show thesis using that by auto
qed

lemma same_bufs_sym: "same_bufs s t \<Longrightarrow> same_bufs t s"
  unfolding same_bufs_def by simp

lemma same_bufs_none:
  assumes "same_bufs s t"
  shows "priv_of t x = None \<longleftrightarrow> priv_of s x = None"
proof
  show "priv_of s x = None" if "priv_of t x = None"
  proof (cases "priv_of s x")
    case (Some pr)
    show ?thesis by (rule same_bufs_priv [OF assms Some]) (use that in simp)
  qed
  show "priv_of t x = None" if "priv_of s x = None"
  proof (cases "priv_of t x")
    case (Some pr)
    show ?thesis by (rule same_bufs_priv [OF same_bufs_sym [OF assms] Some]) (use that in simp)
  qed
qed

lemma bufs_ok_same:
  assumes "bufs_ok s d rs P" and "same_bufs s t"
  shows "bufs_ok t d rs P"
proof -
  have p: "pkts t = pkts s" and nx: "nexts t = nexts s"
  proof -
    show p: "pkts t = pkts s" using assms(2) unfolding same_bufs_def by (rule conjunct1)
    show "nexts t = nexts s" by (simp add: nexts_def p fun_eq_iff)
  qed
  have pool: "pool_holds x ps t" if "pool_holds x ps s" for x ps
  proof -
    from that obtain pr where pr: "priv_of s x = Some pr" "\<not> lock pr" "chain (nexts s) (ppool pr) ps"
      "\<forall>p \<in> set ps. \<exists>k. pkts s p = Some k \<and> pkt_dev k = x"
      by (auto simp: pool_holds_def)
    obtain pr' where "priv_of t x = Some pr'" "lock pr' = lock pr" "ppool pr' = ppool pr"
      by (rule same_bufs_priv [OF assms(2) pr(1)])
    with pr show ?thesis using p nx by (simp add: pool_holds_def)
  qed
  from assms(1) obtain pr where pr: "priv_of s d = Some pr" "\<not> lock pr" "chain (nexts s) (rx_queue pr) rs"
    by (auto simp: bufs_ok_def rx_holds_def)
  obtain pr' where "priv_of t d = Some pr'" "lock pr' = lock pr" "rx_queue pr' = rx_queue pr"
    by (rule same_bufs_priv [OF assms(2) pr(1)])
  with pr have rx: "rx_holds d rs t" using nx by (simp add: rx_holds_def)
  show ?thesis
    using assms(1) rx pool same_bufs_none [OF assms(2)] p by (simp add: bufs_ok_def)
qed

lemma same_bufs_emit [simp]: "same_bufs s (emit k t) = same_bufs s t"
  by (simp add: same_bufs_def snull_state)

lemma same_bufs_stats: "same_bufs s t \<Longrightarrow> same_bufs s (set_priv d (\<lambda>pr. pr\<lparr>stats := f (stats pr)\<rparr>) t)"
  by (auto simp: same_bufs_def snull_state option.map_comp comp_def)

section \<open>One packet\<close>

lemma dequeue_step:
  assumes "bufs_ok s d (p # rs) P"
  obtains pr k where "snull_dequeue_buf d s = Inr (Some p, set_priv d (\<lambda>pr. pr\<lparr>rx_queue := pkt_next k\<rparr>) s)"
    "priv_of s d = Some pr" "\<not> lock pr" "pkts s p = Some k" "chain (nexts s) (pkt_next k) rs" "p \<notin> set rs"
proof -
  from assms obtain pr where pr: "priv_of s d = Some pr" "\<not> lock pr" "chain (nexts s) (rx_queue pr) (p # rs)"
    by (auto simp: bufs_ok_def rx_holds_def)
  then obtain k where k: "pkts s p = Some k" "chain (nexts s) (pkt_next k) rs"
    by (auto simp: nexts_def)
  have "p \<notin> set rs" using chain_distinct [OF pr(3)] by simp
  with pr k show thesis using that [of k pr] by (simp add: snull_dequeue_buf_eq)
qed

text \<open>After the packet has left the queue, giving it back restores the invariant.\<close>

lemma bufs_ok_give:
  assumes ok: "bufs_ok s d (p # rs) P" and k: "pkts s p = Some k" and po: "priv_of s (pkt_dev k) = Some po"
    and pu: "pkts u = (pkts s)(p \<mapsto> k\<lparr>pkt_next := ppool po\<rparr>)"
    and v: "\<And>x. map_option (\<lambda>pr. (lock pr, ppool pr, rx_queue pr)) (priv_of u x)
      = map_option (\<lambda>pr. (lock pr, if x = pkt_dev k then Some p else ppool pr, if x = d then pkt_next k else rx_queue pr)) (priv_of s x)"
  shows "bufs_ok u d rs (P(pkt_dev k := p # P (pkt_dev k)))"
proof -
  let ?o = "pkt_dev k"
  have some: "\<exists>pr'. priv_of u x = Some pr' \<and> lock pr' = lock pr \<and> ppool pr' = (if x = ?o then Some p else ppool pr)
      \<and> rx_queue pr' = (if x = d then pkt_next k else rx_queue pr)" if "priv_of s x = Some pr" for x pr
    using v [of x] that by auto
  have dom: "priv_of u x = None \<longleftrightarrow> priv_of s x = None" for x
    using arg_cong [OF v [of x], of "\<lambda>y. y = None"] by simp
  have nu: "nexts u = (nexts s)(p := Some (ppool po))" by (auto simp: nexts_def pu fun_eq_iff)
  obtain prd where prd: "priv_of s d = Some prd" "\<not> lock prd" "chain (nexts s) (pkt_next k) rs" "p \<notin> set rs"
    by (rule dequeue_step [OF ok]) (use k in auto)
  have rx: "rx_holds d rs u"
    using some [OF prd(1)] prd(2-4) by (auto simp: rx_holds_def nu)
  have pools: "pool_holds x ((P(?o := p # P ?o)) x) u" if "priv_of u x \<noteq> None" for x
  proof -
    have "priv_of s x \<noteq> None" using that dom [of x] by simp
    then have hx: "pool_holds x (P x) s" "p \<notin> set (P x)" using ok by (auto simp: bufs_ok_def)
    then obtain prx where prx: "priv_of s x = Some prx" "\<not> lock prx" "chain (nexts s) (ppool prx) (P x)"
      and own: "\<forall>q \<in> set (P x). \<exists>k. pkts s q = Some k \<and> pkt_dev k = x" by (auto simp: pool_holds_def)
    have "chain (nexts u) (ppool prx) (P x)" "\<forall>q \<in> set (P x). \<exists>k. pkts u q = Some k \<and> pkt_dev k = x"
      using prx(3) own hx(2) by (auto simp: nu pu)
    then show ?thesis using some [OF prx(1)] prx(1,2) po
      by (cases "x = ?o") (auto simp: pool_holds_def nu pu)
  qed
  show ?thesis
    unfolding bufs_ok_def
  proof (intro conjI)
    show "\<forall>q \<in> set rs. \<exists>k n. pkts u q = Some k \<and> datalen k = int n \<and> n \<le> length (pkt_data k) \<and> priv_of u (pkt_dev k) \<noteq> None"
      using ok prd(4) dom by (auto simp: bufs_ok_def pu)
    show "\<forall>q \<in> set rs. \<forall>x. priv_of u x \<noteq> None \<longrightarrow> q \<notin> set ((P(?o := p # P ?o)) x)"
      using ok prd(4) dom by (auto simp: bufs_ok_def)
  qed (use rx pools in auto)
qed

text \<open>What polling device \<open>d\<close> keeps when it gives back the packets \<open>A\<close>.\<close>

definition poll_kept :: "devp \<Rightarrow> paddr set \<Rightarrow> snull_state \<Rightarrow> snull_state \<Rightarrow> bool" where
  "poll_kept d A s u \<longleftrightarrow> bodies u = bodies s \<and> (\<forall>r. r \<notin> A \<longrightarrow> pkts u r = pkts s r)
     \<and> (\<forall>x. x \<noteq> d \<longrightarrow> map_option rx_queue (priv_of u x) = map_option rx_queue (priv_of s x))
     \<and> (\<forall>x. map_option pstNapi (priv_of u x) = map_option pstNapi (priv_of s x))"

lemma poll_kept_refl [simp]: "poll_kept d {} s s"
  by (simp add: poll_kept_def)

lemma poll_kept_trans: "poll_kept d A s t \<Longrightarrow> poll_kept d B t u \<Longrightarrow> poll_kept d (A \<union> B) s u"
  by (simp add: poll_kept_def)

lemma release_step:
  assumes ok: "bufs_ok s d (p # rs) P" and k: "pkts s p = Some k"
    and t: "same_bufs (set_priv d (\<lambda>pr. pr\<lparr>rx_queue := pkt_next k\<rparr>) s) t"
  obtains u where "snull_release_buffer E p t = Inr u" "bufs_ok u d rs (P(pkt_dev k := p # P (pkt_dev k)))"
    "poll_kept d {p} s u"
    "ktrace u = (if k_queue_stopped E (ktrace t) (pkt_dev k) \<and> P (pkt_dev k) = [] then [WakeQueue (pkt_dev k)] else []) @ ktrace t"
proof -
  let ?o = "pkt_dev k"
  from ok k have "priv_of s ?o \<noteq> None" by (auto simp: bufs_ok_def)
  then obtain po where po: "priv_of s ?o = Some po" by blast
  then have po2: "\<not> lock po" "chain (nexts s) (ppool po) (P ?o)" using ok by (auto simp: bufs_ok_def pool_holds_def)
  have vt: "map_option (\<lambda>pr. (lock pr, ppool pr, rx_queue pr, pstNapi pr)) (priv_of t x)
      = map_option (\<lambda>pr. (lock pr, ppool pr, if x = d then pkt_next k else rx_queue pr, pstNapi pr)) (priv_of s x)" for x
    using t by (simp add: same_bufs_def snull_state option.map_comp comp_def)
  from vt [of ?o] po obtain pot where pot: "priv_of t ?o = Some pot" "lock pot = lock po" "ppool pot = ppool po" by auto
  have pt: "pkts t = pkts s" using t by (simp add: same_bufs_def snull_state)
  define u where "u = (if k_queue_stopped E (ktrace t) ?o \<and> ppool pot = None then emit (WakeQueue ?o) else id)
       (set_priv ?o (\<lambda>pr. pr\<lparr>ppool := Some p\<rparr>) (set_pkt p (\<lambda>k. k\<lparr>pkt_next := ppool pot\<rparr>) t))"
  have rel: "snull_release_buffer E p t = Inr u"
    unfolding u_def using pot po2(1) pt k by (intro snull_release_buffer_eq) simp_all
  have pu: "pkts u = (pkts s)(p \<mapsto> k\<lparr>pkt_next := ppool po\<rparr>)"
    using pt k pot by (auto simp: u_def snull_state fun_eq_iff)
  have vu: "map_option (\<lambda>pr. (lock pr, ppool pr, rx_queue pr, pstNapi pr)) (priv_of u x)
      = map_option (\<lambda>pr. (lock pr, if x = ?o then Some p else ppool pr, if x = d then pkt_next k else rx_queue pr, pstNapi pr)) (priv_of s x)" for x
    using vt [of x] by (cases "priv_of s x"; cases "priv_of t x") (auto simp: u_def snull_state)
  have "bufs_ok u d rs (P(?o := p # P ?o))"
    by (rule bufs_ok_give [OF ok k po pu])
      (use arg_cong [OF vu, of "map_option (\<lambda>(a, b, c, d). (a, b, c))"] in \<open>simp add: option.map_comp comp_def\<close>)
  moreover have "ktrace u = (if k_queue_stopped E (ktrace t) ?o \<and> P ?o = [] then [WakeQueue ?o] else []) @ ktrace t"
    using pot(3) chain_head [OF po2(2)] by (simp add: u_def snull_state)
  moreover have "map_option pstNapi (priv_of u x) = map_option pstNapi (priv_of s x)" "x \<noteq> d \<longrightarrow> map_option rx_queue (priv_of u x) = map_option rx_queue (priv_of s x)" for x
    using vu [of x] by (cases "priv_of s x"; cases "priv_of u x"; simp)+
  then have "poll_kept d {p} s u" using k by (simp add: poll_kept_def bodies_def pu fun_eq_iff)
  ultimately show thesis using rel that by blast
qed

section \<open>The loop\<close>

text \<open>Queues are stopped exactly while their pool is empty.\<close>

definition flow_ok :: "snull_state \<Rightarrow> (devp \<Rightarrow> paddr list) \<Rightarrow> bool" where
  "flow_ok s P \<longleftrightarrow> (\<forall>x. priv_of s x \<noteq> None \<longrightarrow> (queue_off (ktrace s) x \<longleftrightarrow> P x = []))"

text \<open>Giving a packet back wakes the queue of its owner if the pool was empty.\<close>

lemma flow_ok_give:
  assumes "flow_ok s P" and "k_queue_stopped E = queue_off" and "priv_of s o' \<noteq> None"
    and "\<And>x. priv_of u x \<noteq> None \<Longrightarrow> priv_of s x \<noteq> None"
    and "ktrace u = (if k_queue_stopped E (ktrace t) o' \<and> P o' = [] then [WakeQueue o'] else []) @ ktrace t"
    and "\<And>x. queue_off (ktrace t) x = queue_off (ktrace s) x"
  shows "flow_ok u (P(o' := p # P o'))"
proof -
  from assms(1,3) have "queue_off (ktrace s) o' \<longleftrightarrow> P o' = []" by (simp add: flow_ok_def)
  then show ?thesis using assms(1,2,4-6) by (auto simp: flow_ok_def)
qed

text \<open>
  One round up to the release of the buffer: the packet is taken from the queue, and either
  handed up and counted or, without memory for the skb, dropped.
\<close>

lemma poll_loop_receive:
  assumes deq: "snull_dequeue_buf d s = Inr (Some p, set_priv d (\<lambda>pr. pr\<lparr>rx_queue := pkt_next k\<rparr>) s)"
    and pr: "priv_of s d = Some pr" and k: "pkts s p = Some k" and rq: "rx_queue pr = Some p" and quota: "n < quota"
    and skb: "build_skb E d k = Inr skb"
  obtains t n' where "same_bufs (set_priv d (\<lambda>pr. pr\<lparr>rx_queue := pkt_next k\<rparr>) s) t"
    "\<forall>x. on_list x (ktrace t) = on_list x (ktrace s)" "\<forall>x. queue_off (ktrace t) x = queue_off (ktrace s) x"
    "n' = n \<and> delivered (ktrace t) = delivered (ktrace s) \<and> \<not> (\<forall>tr j. k_dev_alloc_skb E tr j)
       \<or> n' = n + 1 \<and> delivered (ktrace t) = skb # delivered (ktrace s)"
    "\<forall>u. snull_release_buffer E p t = Inr u \<longrightarrow>
       poll_loop E d quota fuel n s = (case fuel of 0 \<Rightarrow> Inl OutOfFuel | Suc f \<Rightarrow> poll_loop E d quota f n' u)"
proof -
  let ?s1 = "set_priv d (\<lambda>pr. pr\<lparr>rx_queue := pkt_next k\<rparr>) s"
  let ?drop = "\<lambda>st. st\<lparr>rx_dropped := rx_dropped st + 1\<rparr>"
  let ?cnt = "\<lambda>st. st\<lparr>rx_packets := rx_packets st + 1, rx_bytes := rx_bytes st + word_of_int (datalen k)\<rparr>"
  have some: "priv_of (emit a ?s1) d = Some (pr\<lparr>rx_queue := pkt_next k\<rparr>)"
    "priv_of (emit b (emit a ?s1)) d = Some (pr\<lparr>rx_queue := pkt_next k\<rparr>)" for a b
    using pr by (simp_all add: snull_state)
  have head: "netdev_priv s d = Inr pr" using pr by (rule netdev_priv_eq)
  have pkt: "get_pkt ?s1 (Some p) = Inr k" using k by (simp add: snull_ops snull_state)
  show thesis
  proof (cases "k_dev_alloc_skb E (ktrace ?s1) (datalen k + 2)")
    case True
    let ?t = "set_priv d (\<lambda>pr. pr\<lparr>stats := ?cnt (stats pr)\<rparr>)
        (emit (NetifReceiveSkb skb) (emit (DevAllocSkb (datalen k + 2) True) ?s1))"
    have cnt: "count_rx d (datalen k) (emit (NetifReceiveSkb skb) (emit (DevAllocSkb (datalen k + 2) True) ?s1)) = Inr ?t"
      unfolding count_rx_def using upd_stats_eq [OF some(2)] by simp
    show thesis
    proof (rule that [of ?t "n + 1"])
      show "same_bufs ?s1 ?t" by (rule same_bufs_stats) simp
      show "\<forall>u. snull_release_buffer E p ?t = Inr u \<longrightarrow>
        poll_loop E d quota fuel n s = (case fuel of 0 \<Rightarrow> Inl OutOfFuel | Suc f \<Rightarrow> poll_loop E d quota f (n + 1) u)"
        using True head rq quota deq pkt skb cnt by (subst poll_loop.simps) (simp split: nat.split)
    qed (simp_all add: snull_state)
  next
    case False
    let ?t = "set_priv d (\<lambda>pr. pr\<lparr>stats := ?drop (stats pr)\<rparr>) (emit (DevAllocSkb (datalen k + 2) False) ?s1)"
    have drop: "upd_stats d ?drop (emit (DevAllocSkb (datalen k + 2) False) ?s1) = Inr ?t"
      using upd_stats_eq [OF some(1)] by simp
    show thesis
    proof (rule that [of ?t n])
      show "same_bufs ?s1 ?t" by (rule same_bufs_stats) simp
      show "\<forall>u. snull_release_buffer E p ?t = Inr u \<longrightarrow>
        poll_loop E d quota fuel n s = (case fuel of 0 \<Rightarrow> Inl OutOfFuel | Suc f \<Rightarrow> poll_loop E d quota f n u)"
        using False head rq quota deq pkt drop by (subst poll_loop.simps) (simp split: nat.split)
    qed (use False in \<open>auto simp: snull_state\<close>)
  qed
qed

text \<open>One iteration on a non-empty queue, with the skb that is built and how much memory is found.\<close>

lemma poll_loop_step:
  assumes ok: "bufs_ok s d (p # rs) P" and quota: "n < quota"
    and skb: "\<forall>k. pkts s p = Some k \<longrightarrow> build_skb E d k = Inr skb"
  obtains u n' where
    "poll_loop E d quota fuel n s = (case fuel of 0 \<Rightarrow> Inl OutOfFuel | Suc f \<Rightarrow> poll_loop E d quota f n' u)"
    "bufs_ok u d rs (P(owner s p := p # P (owner s p)))" "poll_kept d {p} s u"
    "n' = n \<and> delivered (ktrace u) = delivered (ktrace s) \<and> \<not> (\<forall>tr j. k_dev_alloc_skb E tr j)
       \<or> n' = n + 1 \<and> delivered (ktrace u) = skb # delivered (ktrace s)"
    "\<forall>x. on_list x (ktrace u) = on_list x (ktrace s)"
    "k_queue_stopped E = queue_off \<longrightarrow> flow_ok s P \<longrightarrow> flow_ok u (P(owner s p := p # P (owner s p)))"
proof -
  obtain pr k where pk: "snull_dequeue_buf d s = Inr (Some p, set_priv d (\<lambda>pr. pr\<lparr>rx_queue := pkt_next k\<rparr>) s)"
    "priv_of s d = Some pr" "\<not> lock pr" "pkts s p = Some k" "chain (nexts s) (pkt_next k) rs" "p \<notin> set rs"
    by (rule dequeue_step [OF ok])
  from ok pk have rq: "rx_queue pr = Some p" by (auto simp: bufs_ok_def rx_holds_def)
  have skb1: "build_skb E d k = Inr skb" using skb pk(4) by simp
  obtain t n' where t: "same_bufs (set_priv d (\<lambda>pr. pr\<lparr>rx_queue := pkt_next k\<rparr>) s) t"
    "\<forall>x. on_list x (ktrace t) = on_list x (ktrace s)" "\<forall>x. queue_off (ktrace t) x = queue_off (ktrace s) x"
    "n' = n \<and> delivered (ktrace t) = delivered (ktrace s) \<and> \<not> (\<forall>tr j. k_dev_alloc_skb E tr j)
       \<or> n' = n + 1 \<and> delivered (ktrace t) = skb # delivered (ktrace s)"
    "\<forall>u. snull_release_buffer E p t = Inr u \<longrightarrow>
       poll_loop E d quota fuel n s = (case fuel of 0 \<Rightarrow> Inl OutOfFuel | Suc f \<Rightarrow> poll_loop E d quota f n' u)"
    by (rule poll_loop_receive [where fuel = fuel, OF pk(1,2,4) rq quota skb1])
  obtain u where u: "snull_release_buffer E p t = Inr u" "bufs_ok u d rs (P(pkt_dev k := p # P (pkt_dev k)))"
    "poll_kept d {p} s u"
    "ktrace u = (if k_queue_stopped E (ktrace t) (pkt_dev k) \<and> P (pkt_dev k) = [] then [WakeQueue (pkt_dev k)] else []) @ ktrace t"
    by (rule release_step [OF ok pk(4) t(1)])
  have own: "owner s p = pkt_dev k" using pk(4) by (simp add: owner_def)
  have dom: "priv_of u x \<noteq> None \<Longrightarrow> priv_of s x \<noteq> None" for x
    using u(3) unfolding poll_kept_def by (metis map_option_is_None)
  have "priv_of s (pkt_dev k) \<noteq> None" using pk(4) ok by (auto simp: bufs_ok_def)
  then have flow: "k_queue_stopped E = queue_off \<longrightarrow> flow_ok s P \<longrightarrow> flow_ok u (P(owner s p := p # P (owner s p)))"
    using flow_ok_give [where s = s and t = t and u = u and E = E and P = P and o' = "pkt_dev k"] dom u(4) t(3) by (simp add: own)
  show thesis
    by (rule that [OF t(5) [rule_format, OF u(1)] u(2) [folded own] u(3) _ _ flow]) (use t(2,4) u(4) in simp_all)
qed

lemma poll_loop_ends:
  assumes "bufs_ok s d rs P" and "rs = [] \<or> quota \<le> n"
  shows "poll_loop E d quota fuel n s = Inr (n, s)"
proof -
  from assms(1) obtain pr where pr: "priv_of s d = Some pr" "chain (nexts s) (rx_queue pr) rs"
    by (auto simp: bufs_ok_def rx_holds_def)
  then have "netdev_priv s d = Inr pr" "rs = [] \<Longrightarrow> rx_queue pr = None" by (simp_all add: netdev_priv_eq)
  with assms(2) show ?thesis by (subst poll_loop.simps) auto
qed

text \<open>The skbs that the packets of a queue become.\<close>

definition builds :: "snull_env \<Rightarrow> devp \<Rightarrow> snull_state \<Rightarrow> paddr list \<Rightarrow> sk_buff list \<Rightarrow> bool" where
  "builds E d s = list_all2 (\<lambda>p skb. \<forall>k. pkts s p = Some k \<longrightarrow> build_skb E d k = Inr skb)"

lemma builds_kept:
  assumes "builds E d s rs ks" and "bodies u = bodies s"
  shows "builds E d u rs ks"
  unfolding builds_def
proof (rule list_all2_mono [OF assms(1) [unfolded builds_def]], intro allI impI)
  fix p skb k
  assume a: "\<forall>k. pkts s p = Some k \<longrightarrow> build_skb E d k = Inr skb" and u: "pkts u p = Some k"
  then obtain k' where "pkts s p = Some k'" "datalen k' = datalen k" "pkt_data k' = pkt_data k"
    using fun_cong [OF assms(2), of p] by (cases "pkts s p") (auto simp: bodies_def)
  with a show "build_skb E d k = Inr skb" by (auto simp: build_skb_def)
qed

text \<open>The skb of a packet with a length that fits.\<close>

definition polled_skb :: "snull_env \<Rightarrow> devp \<Rightarrow> snull_packet \<Rightarrow> sk_buff" where
  "polled_skb E d k = (let t = k_eth_type_trans E d (take (nat (datalen k)) (pkt_data k)) in
     \<lparr>skb_data = snd t, skb_dev = Some d, skb_protocol = fst t, skb_csum_unnecessary = True\<rparr>)"

definition queued_skbs :: "snull_env \<Rightarrow> devp \<Rightarrow> snull_state \<Rightarrow> paddr list \<Rightarrow> sk_buff list" where
  "queued_skbs E d s = map (\<lambda>p. polled_skb E d (the (pkts s p)))"

lemma build_skb_fits: "datalen k = int n \<Longrightarrow> n \<le> length (pkt_data k) \<Longrightarrow> build_skb E d k = Inr (polled_skb E d k)"
  by (simp add: build_skb_def polled_skb_def split_beta Let_def)

lemma bufs_ok_builds:
  assumes "bufs_ok s d rs P"
  shows "builds E d s rs (queued_skbs E d s rs)"
proof -
  have "build_skb E d k = Inr (polled_skb E d k)" if "p \<in> set rs" "pkts s p = Some k" for p k
  proof -
    from assms that obtain n where "datalen k = int n" "n \<le> length (pkt_data k)" by (auto simp: bufs_ok_def)
    then show ?thesis by (rule build_skb_fits)
  qed
  then show ?thesis by (auto simp: builds_def queued_skbs_def list_all2_map2 list_all2_same)
qed

text \<open>
  The loop takes the first \<open>m\<close> packets off the queue and gives them back; what comes up are
  \<open>n' - n\<close> of their skbs in order, all of them unless memory is short.
\<close>

lemma poll_loop_moves:
  assumes "bufs_ok s d rs P" and "length rs \<le> fuel" and "n \<le> quota" and "builds E d s rs ks"
  shows "\<exists>n' s' m ups. poll_loop E d quota fuel n s = Inr (n', s') \<and> m \<le> length rs
     \<and> bufs_ok s' d (drop m rs) (give_all (owner s) (take m rs) P) \<and> poll_kept d (set (take m rs)) s s'
     \<and> n \<le> n' \<and> n' \<le> quota \<and> n' - n \<le> int m \<and> (n' < quota \<longrightarrow> m = length rs)
     \<and> ((\<forall>tr j. k_dev_alloc_skb E tr j) \<longrightarrow> n' - n = int m)
     \<and> delivered (ktrace s') = rev ups @ delivered (ktrace s) \<and> int (length ups) = n' - n \<and> subseq ups (take m ks)
     \<and> (\<forall>x. on_list x (ktrace s') = on_list x (ktrace s))
     \<and> (k_queue_stopped E = queue_off \<longrightarrow> flow_ok s P \<longrightarrow> flow_ok s' (give_all (owner s) (take m rs) P))"
  using assms
proof (induction rs arbitrary: s P n fuel ks)
  case Nil
  then show ?case
    by (intro exI [of _ n] exI [of _ s] exI [of _ 0] exI [of _ "[]"]) (simp add: poll_loop_ends)
next
  case (Cons p rs)
  show ?case
  proof (cases "n < quota")
    case False
    with Cons.prems show ?thesis
      by (intro exI [of _ n] exI [of _ s] exI [of _ 0] exI [of _ "[]"]) (simp add: poll_loop_ends)
  next
    case True
    from Cons.prems(2) obtain f where f: "fuel = Suc f" "length rs \<le> f" by (cases fuel) auto
    from Cons.prems(4) obtain skb ks' where ks: "ks = skb # ks'" "\<forall>k. pkts s p = Some k \<longrightarrow> build_skb E d k = Inr skb"
      and rest: "builds E d s rs ks'" by (cases ks) (auto simp: builds_def)
    let ?P = "P(owner s p := p # P (owner s p))"
    obtain u n1 where u: "poll_loop E d quota fuel n s = (case fuel of 0 \<Rightarrow> Inl OutOfFuel | Suc f \<Rightarrow> poll_loop E d quota f n1 u)"
      "bufs_ok u d rs ?P" "poll_kept d {p} s u"
      "n1 = n \<and> delivered (ktrace u) = delivered (ktrace s) \<and> \<not> (\<forall>tr j. k_dev_alloc_skb E tr j)
         \<or> n1 = n + 1 \<and> delivered (ktrace u) = skb # delivered (ktrace s)"
      "\<forall>x. on_list x (ktrace u) = on_list x (ktrace s)"
      "k_queue_stopped E = queue_off \<longrightarrow> flow_ok s P \<longrightarrow> flow_ok u ?P"
      by (rule poll_loop_step [OF Cons.prems(1) True ks(2), of fuel])
    from u(3) have b: "bodies u = bodies s" by (simp add: poll_kept_def)
    have "n1 \<le> quota" using u(4) True by auto
    from Cons.IH [OF u(2) f(2) this builds_kept [OF rest b]] obtain n' s' m ups where IH:
      "poll_loop E d quota f n1 u = Inr (n', s')" "m \<le> length rs"
      "bufs_ok s' d (drop m rs) (give_all (owner u) (take m rs) ?P)" "poll_kept d (set (take m rs)) u s'"
      "n1 \<le> n'" "n' \<le> quota" "n' - n1 \<le> int m" "n' < quota \<longrightarrow> m = length rs"
      "(\<forall>tr j. k_dev_alloc_skb E tr j) \<longrightarrow> n' - n1 = int m"
      "delivered (ktrace s') = rev ups @ delivered (ktrace u)" "int (length ups) = n' - n1" "subseq ups (take m ks')"
      "\<forall>x. on_list x (ktrace s') = on_list x (ktrace u)"
      "k_queue_stopped E = queue_off \<longrightarrow> flow_ok u ?P \<longrightarrow> flow_ok s' (give_all (owner u) (take m rs) ?P)"
      by (elim exE conjE) (rule that)
    have own: "owner u = owner s" using b by (rule bodies_owner)
    have kept: "poll_kept d (set (take (Suc m) (p # rs))) s s'" using poll_kept_trans [OF u(3) IH(4)] by simp
    let ?ups = "if n1 = n then ups else skb # ups"
    have ups: "delivered (ktrace s') = rev ?ups @ delivered (ktrace s)" "int (length ?ups) = n' - n" "subseq ?ups (take (Suc m) ks)"
      using u(4) IH(10-12) ks(1) by auto
    have all: "(\<forall>tr j. k_dev_alloc_skb E tr j) \<longrightarrow> n' - n = int (Suc m)" using u(4) IH(9) by auto
    show ?thesis
      by (intro exI [of _ n'] exI [of _ s'] exI [of _ "Suc m"] exI [of _ ?ups] conjI)
        (use IH(1-3,5-8,13,14) u(1,4-6) f(1) own kept ups all in auto)
  qed
qed

lemma poll_loop_result:
  assumes "bufs_ok s d rs P" and "length rs \<le> fuel" and "0 \<le> quota"
  shows "\<exists>n' s' m ups. poll_loop E d quota fuel 0 s = Inr (n', s') \<and> m \<le> length rs
     \<and> bufs_ok s' d (drop m rs) (give_all (owner s) (take m rs) P)
     \<and> n' = int (length ups) \<and> n' \<le> quota \<and> (n' < quota \<longrightarrow> m = length rs)
     \<and> delivered (ktrace s') = rev ups @ delivered (ktrace s) \<and> subseq ups (queued_skbs E d s (take m rs))
     \<and> ((\<forall>tr j. k_dev_alloc_skb E tr j) \<longrightarrow> ups = queued_skbs E d s (take m rs))
     \<and> (\<forall>x. map_option pstNapi (priv_of s' x) = map_option pstNapi (priv_of s x))"
proof -
  from poll_loop_moves [OF assms bufs_ok_builds [OF assms(1), of E]] obtain n' s' m ups where l:
    "poll_loop E d quota fuel 0 s = Inr (n', s')" "m \<le> length rs"
    "bufs_ok s' d (drop m rs) (give_all (owner s) (take m rs) P)" "poll_kept d (set (take m rs)) s s'"
    "n' \<le> quota" "n' < quota \<longrightarrow> m = length rs" "(\<forall>tr j. k_dev_alloc_skb E tr j) \<longrightarrow> n' - 0 = int m"
    "delivered (ktrace s') = rev ups @ delivered (ktrace s)" "int (length ups) = n' - 0" "subseq ups (take m (queued_skbs E d s rs))"
    by (elim exE conjE) (rule that)
  have take: "take m (queued_skbs E d s rs) = queued_skbs E d s (take m rs)" by (simp add: queued_skbs_def take_map)
  have "length (queued_skbs E d s (take m rs)) = m" using l(2) by (simp add: queued_skbs_def)
  with l(7,9,10) have "(\<forall>tr j. k_dev_alloc_skb E tr j) \<longrightarrow> ups = queued_skbs E d s (take m rs)"
    unfolding take by (auto dest: subseq_same_length)
  with l take show ?thesis by (intro exI [of _ n'] exI [of _ s'] exI [of _ m] exI [of _ ups]) (auto simp: poll_kept_def)
qed


text \<open>A queue of two packets of different owners, as NAPI reception would leave it.\<close>

definition queued_pkt :: "paddr option \<Rightarrow> devp \<Rightarrow> snull_packet" where
  "queued_pkt nx d = (demo_pkt nx d)\<lparr>datalen := 60\<rparr>"

definition queued_state :: snull_state where
  "queued_state = demo_state\<lparr>pkts := (pkts demo_state)(31 \<mapsto> queued_pkt (Some 32) 101, 32 \<mapsto> queued_pkt None 102),
     netdevs := [101 \<mapsto> (demo_dev 11)\<lparr>dev_priv := zero_priv\<lparr>ppool := Some 11, rx_queue := Some 31, pstNapi := Some 1\<rparr>\<rparr>,
                 102 \<mapsto> demo_dev 21]\<rparr>"

lemma queued_privs:
  "priv_of queued_state 101 = Some (zero_priv\<lparr>ppool := Some 11, rx_queue := Some 31, pstNapi := Some 1\<rparr>)"
  "priv_of queued_state 102 = Some (zero_priv\<lparr>rx_int_enabled := 1, ppool := Some 21\<rparr>)"
  "x \<noteq> 101 \<Longrightarrow> x \<noteq> 102 \<Longrightarrow> priv_of queued_state x = None"
  by (simp_all add: priv_of_def queued_state_def demo_dev_def)

lemma queued_ok: "bufs_ok queued_state 101 [31, 32] demo_pools"
proof -
  have p: "pkts queued_state 31 = Some (queued_pkt (Some 32) 101)" "pkts queued_state 32 = Some (queued_pkt None 102)"
    "pkts queued_state 11 = Some (demo_pkt (Some 12) 101)" "pkts queued_state 12 = Some (demo_pkt None 101)"
    "pkts queued_state 21 = Some (demo_pkt None 102)"
    by (simp_all add: queued_state_def demo_fields)
  have dom: "x = 101 \<or> x = 102" if "priv_of queued_state x \<noteq> None" for x
    using queued_privs(3) [of x] that by argo
  have pools: "pool_holds 101 [11, 12] queued_state" "pool_holds 102 [21] queued_state"
    using p by (auto simp: pool_holds_def queued_privs nexts_def demo_pkt_def zero_priv_def)
  have rx: "rx_holds 101 [31, 32] queued_state"
    using p by (auto simp: rx_holds_def queued_privs nexts_def queued_pkt_def demo_pkt_def zero_priv_def)
  have pk: "\<exists>k n. pkts queued_state q = Some k \<and> datalen k = int n \<and> n \<le> length (pkt_data k)
      \<and> priv_of queued_state (pkt_dev k) \<noteq> None" if "q = 31 \<or> q = 32" for q
    using that
  proof
    assume "q = 31"
    then show ?thesis using p(1) queued_privs(1)
      by (intro exI [of _ "queued_pkt (Some 32) 101"] exI [of _ 60]) (simp add: queued_pkt_def demo_pkt_def frame_consts)
  next
    assume "q = 32"
    then show ?thesis using p(2) queued_privs(2)
      by (intro exI [of _ "queued_pkt None 102"] exI [of _ 60]) (simp add: queued_pkt_def demo_pkt_def frame_consts)
  qed
  show ?thesis
    unfolding bufs_ok_def using dom pools rx pk by (auto simp: demo_pools_def)
qed


end
