(* ===== verification/Snull_Methods.thy ===== *)
theory Snull_Methods
  imports Snull_Poll
begin

text \<open>
  The remaining operations of \<open>snull.c\<close>: the device methods on all their branches, the
  order of the receive queue, and the life of a packet pool.
\<close>

section \<open>Device methods\<close>

definition snul :: "byte \<Rightarrow> byte list" where
  "snul x = [0x00, 0x53, 0x4E, 0x55, 0x4C, x]"

text \<open>
  \<open>snull_open\<close> returns 0, starts the queue and gives the two devices the distinct hardware
  addresses "0SNUL0" and "0SNUL1" with a leading zero byte, so that neither is multicast.
\<close>

theorem snull_open_addresses:
  assumes "snull_devs s 0 = Some d0" and "snull_devs s 1 = Some d1" and "d0 \<noteq> d1"
    and "netdevs s d0 = Some n0" and "netdevs s d1 = Some n1"
  shows "\<exists>s0 s1. snull_open d0 s = Inr (0, s0) \<and> snull_open d1 s0 = Inr (0, s1)
     \<and> map_option dev_addr (netdevs s1 d0) = Some (snul 0x30)
     \<and> map_option dev_addr (netdevs s1 d1) = Some (snul 0x31) \<and> even (uint (hd (snul 0x30)))
     \<and> ktrace s1 = StartQueue d1 # StartQueue d0 # ktrace s
     \<and> map_option dev_priv (netdevs s1 d0) = Some (dev_priv n0)
     \<and> map_option dev_priv (netdevs s1 d1) = Some (dev_priv n1)"
  using assms by (auto simp: snull_open_def upd_dev_def get_dev_def emit_def snul_def frame_consts)

lemma snull_open_addresses_witness:
  "\<exists>s0 s1. snull_open 101 demo_state = Inr (0, s0) \<and> snull_open 102 s0 = Inr (0, s1)
     \<and> map_option dev_addr (netdevs s1 101) = Some (snul 0x30)
     \<and> map_option dev_addr (netdevs s1 102) = Some (snul 0x31)"
  using snull_open_addresses [OF demo_fields(1,2), of "demo_dev 11" "demo_dev 21"]
  by (auto simp: demo_state_def)

text \<open>
  \<open>snull_config\<close>: an interface that is up is busy, a change of the I/O address is not
  supported, and otherwise the only effect is to store the requested interrupt number.
\<close>

theorem snull_config_cases:
  assumes "netdevs s d = Some nd"
  shows "snull_config d m s =
    (if dev_flags nd AND IFF_UP \<noteq> 0 then Inr (- EBUSY, s)
     else if map_base_addr m \<noteq> base_addr nd then Inr (- EOPNOTSUPP, s)
     else Inr (0, s\<lparr>netdevs := (netdevs s)(d \<mapsto> nd\<lparr>dev_irq := map_irq m\<rparr>)\<rparr>))"
proof -
  have "s\<lparr>netdevs := (netdevs s)(d \<mapsto> nd\<lparr>dev_irq := map_irq m\<rparr>)\<rparr> = s" if "map_irq m = dev_irq nd"
    using that assms by (cases s; cases nd) (auto simp: fun_eq_iff)
  then show ?thesis
    using assms by (auto simp: snull_config_def get_dev_def upd_dev_def)
qed

lemma snull_config_cases_witness:
  "snull_config 101 \<lparr>map_base_addr = 4, map_irq = 9\<rparr> demo_state = Inr (- EOPNOTSUPP, demo_state)"
  using snull_config_cases [of demo_state 101 "demo_dev 11" "\<lparr>map_base_addr = 4, map_irq = 9\<rparr>"]
  by (simp add: demo_state_def demo_dev_def stale_dev_def)

text \<open>
  \<open>snull_change_mtu\<close> refuses values outside 68..1500 with -EINVAL and no effect; any other
  value is stored under the lock, which is free again afterwards, and nothing else changes.
  Called while the lock is held, it deadlocks.
\<close>

theorem snull_change_mtu_cases:
  assumes "netdevs s d = Some nd"
  shows "snull_change_mtu d m s =
    (if m < 68 \<or> 1500 < m then Inr (- EINVAL, s)
     else if lock (dev_priv nd) then Inl SelfDeadlock
     else Inr (0, s\<lparr>netdevs := (netdevs s)(d \<mapsto> nd\<lparr>dev_mtu := m\<rparr>)\<rparr>))"
  using assms
  by (cases nd, cases "dev_priv nd")
    (auto simp: snull_change_mtu_def spin_lock_def spin_unlock_def netdev_priv_def upd_priv_def upd_dev_def get_dev_def)

lemma snull_change_mtu_cases_witness:
  "snull_change_mtu 101 1501 demo_state = Inr (- EINVAL, demo_state)"
  using snull_change_mtu_cases [of demo_state 101 "demo_dev 11" 1501] by (simp add: demo_state_def)

section \<open>The receive queue\<close>

text \<open>
  The receive queue is a stack: packets put on it come off in the opposite order, before
  what was there, so a backlog is misordered, as the FIXME in \<open>snull_enqueue_buf\<close> suspects.
\<close>

theorem snull_rx_queue_lifo:
  assumes "rx_holds d ps s" and "distinct qs" and "\<forall>q \<in> set qs. rx_loose d q s"
  shows "\<exists>s1 s2. push_all (snull_enqueue_buf d) qs s = Inr s1
     \<and> pop_many (snull_dequeue_buf d) (length qs) s1 = Inr (map Some (rev qs), s2) \<and> rx_holds d ps s2"
  by (rule rx.last_in_first_out [OF assms])

lemma demo_rx: "rx_holds 101 [] demo_state"
  by (simp add: rx_holds_def demo_privs zero_priv_def)

lemma snull_rx_queue_lifo_witness:
  "\<exists>s1 s2. push_all (snull_enqueue_buf 101) [11, 21] demo_state = Inr s1
     \<and> pop_many (snull_dequeue_buf 101) 2 s1 = Inr ([Some 21, Some 11], s2)"
proof -
  have "rx_loose 101 11 demo_state" "rx_loose 101 21 demo_state"
    by (auto simp: rx_loose_def rx_holds_def demo_fields demo_privs zero_priv_def)
  then show ?thesis
    using snull_rx_queue_lifo [OF demo_rx, of "[11, 21]"] by (auto simp: numeral_2_eq_2)
qed

section \<open>The packet pool\<close>

text \<open>
  \<open>snull_setup_pool\<close> never faults: it builds a pool of at most \<open>pool_size\<close> packets, all new,
  of full size and owned by the device, and has fewer only if an allocation failed last.
\<close>

theorem snull_setup_pool_builds:
  assumes "heap_ok s" and "kmalloc_law E" and "priv_of s d = Some pr" and "\<not> lock pr"
  shows "\<exists>s' ps. snull_setup_pool E d s = Inr s' \<and> pool_holds d ps s' \<and> full_data ps s' \<and> heap_ok s'
     \<and> length ps \<le> nat (pool_size E) \<and> (length ps < nat (pool_size E) \<longrightarrow> hd (ktrace s') = KMalloc None)
     \<and> (\<forall>p \<in> set ps. pkts s p = None) \<and> (\<forall>p. p \<notin> set ps \<longrightarrow> pkts s' p = pkts s p)"
  using snull_setup_pool_holds [OF assms] by (elim exE conjE) (rule exI, rule exI, auto)

lemma snull_setup_pool_builds_witness:
  "\<exists>s' ps. snull_setup_pool demo_env 101 (snull_boot\<lparr>netdevs := [101 \<mapsto> demo_dev 5]\<rparr>) = Inr s' \<and> pool_holds 101 ps s'"
proof -
  let ?s = "snull_boot\<lparr>netdevs := [101 \<mapsto> demo_dev 5]\<rparr>"
  have "heap_ok ?s" by (simp add: heap_ok_def snull_boot_def)
  moreover have "priv_of ?s 101 = Some (dev_priv (demo_dev 5))" by (simp add: priv_of_def)
  moreover have "\<not> lock (dev_priv (demo_dev 5))" by (simp add: demo_dev_def zero_priv_def)
  ultimately show ?thesis using snull_setup_pool_builds [OF _ demo_laws(1)] by blast
qed

text \<open>
  C17. The loop of \<open>snull_teardown_pool\<close> ends after exactly as many iterations as the pool has
  packets, and then every one of them has been freed, once and in order.
\<close>

theorem snull_teardown_pool_ends:
  assumes "pool_holds d ps s"
  shows "if length ps \<le> fuel
    then \<exists>s'. snull_teardown_pool fuel d s = Inr s' \<and> ktrace s' = map KFree (rev ps) @ ktrace s
           \<and> pkts s' = (\<lambda>p. if p \<in> set ps then None else pkts s p)
    else snull_teardown_pool fuel d s = Inl OutOfFuel"
proof -
  from assms obtain pr where pr: "priv_of s d = Some pr" by (auto simp: pool_holds_def)
  show ?thesis
    using snull_teardown_pool_frees [OF assms pr] snull_teardown_pool_short [OF assms] by auto
qed

lemma snull_teardown_pool_ends_witness:
  "snull_teardown_pool 1 101 demo_state = Inl OutOfFuel
     \<and> (\<exists>s'. snull_teardown_pool 2 101 demo_state = Inr s' \<and> ktrace s' = [KFree 12, KFree 11])"
proof -
  have "pool_holds 101 [11, 12] demo_state"
    using demo_quiet by (simp add: snull_quiet_def dev_quiet_def demo_pools_def)
  from snull_teardown_pool_ends [OF this, of 1] snull_teardown_pool_ends [OF this, of 2]
  show ?thesis by (auto simp: demo_fields)
qed

text \<open>
  An interrupt on an unlocked device with no status bit set changes nothing, with either
  handler, and neither does an interrupt for no device; with the lock held the handlers deadlock.
\<close>

theorem snull_spurious_interrupt:
  assumes "priv_of s d = Some pr" and "status pr = 0"
  shows "snull_regular_interrupt E (Some d) s = (if lock pr then Inl SelfDeadlock else Inr s)
     \<and> snull_napi_interrupt E (Some d) s = (if lock pr then Inl SelfDeadlock else Inr s)
     \<and> snull_regular_interrupt E None s = Inr s \<and> snull_napi_interrupt E None s = Inr s"
proof -
  have same: "set_priv d (\<lambda>pr. pr\<lparr>status := 0, lock := False\<rparr>) s = s" if "\<not> lock pr"
  proof -
    have "set_priv d (\<lambda>pr. pr\<lparr>status := 0, lock := False\<rparr>) s = set_priv d (\<lambda>pr. pr\<lparr>lock := False\<rparr>) s"
      using assms by (intro set_priv_cong [OF assms(1)]) (cases pr, simp)
    with relock(3) [OF assms(1) that] show ?thesis by simp
  qed
  show ?thesis
    using assms same by (simp add: snull_regular_interrupt_def snull_napi_interrupt_def snull_ops snull_state spin_lock_held)
qed

lemma snull_spurious_interrupt_witness:
  "snull_regular_interrupt demo_env (Some 101) demo_state = Inr demo_state"
  using snull_spurious_interrupt [OF demo_privs(1), of demo_env] by (simp add: zero_priv_def)

end
