(* ===== verification/Snull_Publics.thy ===== *)
theory Snull_Publics
  imports Snull_Datapath
begin

text \<open>
  What the data path leaves alone: the fields of the devices outside their private areas.
\<close>

text \<open>A device without its private area: nothing the data path does touches it.\<close>

definition publics :: "snull_state \<Rightarrow> devp \<Rightarrow> net_device option" where
  "publics s d = map_option (\<lambda>nd. nd\<lparr>dev_priv := zero_priv\<rparr>) (netdevs s d)"

lemma publics_map:
  assumes "publics s' = publics s" and "\<And>nd. f (nd\<lparr>dev_priv := zero_priv\<rparr>) = f nd"
  shows "map_option f (netdevs s' d) = map_option f (netdevs s d)"
proof -
  have "map_option f (publics s' d) = map_option f (publics s d)" using assms(1) by simp
  then show ?thesis by (simp add: publics_def option.map_comp comp_def assms(2))
qed

lemma publics_emit [simp]: "publics (emit k s) = publics s"
  by (simp add: publics_def emit_def fun_eq_iff)

lemma publics_upd_priv: "upd_priv d f s = Inr s' \<Longrightarrow> publics s' = publics s"
  by (auto simp: upd_priv_def upd_dev_def get_dev_def publics_def fun_eq_iff split: option.splits)

lemma publics_upd_pkt: "upd_pkt p f s = Inr s' \<Longrightarrow> publics s' = publics s"
  by (auto simp: upd_pkt_def publics_def bind_res_eq_Inr)

lemma publics_lock: "spin_lock d s = Inr s' \<Longrightarrow> publics s' = publics s" "spin_unlock d s = Inr s' \<Longrightarrow> publics s' = publics s"
  by (auto simp: spin_lock_def spin_unlock_def bind_res_eq_Inr split: if_splits dest: publics_upd_priv)

lemma publics_dequeue: "snull_dequeue_buf d s = Inr (q, s') \<Longrightarrow> publics s' = publics s"
  by (auto simp: snull_dequeue_buf_def bind_res_eq_Inr split: option.splits dest!: publics_lock publics_upd_priv)

lemma publics_release: "snull_release_buffer E p s = Inr s' \<Longrightarrow> publics s' = publics s"
  by (auto simp: snull_release_buffer_def bind_res_eq_Inr dest!: publics_lock publics_upd_priv publics_upd_pkt)

lemma publics_poll_loop: "poll_loop E d quota fuel n s = Inr (n', s') \<Longrightarrow> publics s' = publics s"
proof (induction fuel arbitrary: n s)
  case 0
  then show ?case by (subst (asm) poll_loop.simps) (auto simp: bind_res_eq_Inr split: if_splits)
next
  case (Suc fuel)
  from Suc.prems show ?case
    by (subst (asm) poll_loop.simps)
      (auto simp: bind_res_eq_Inr Let_def upd_stats_def count_rx_def split: if_splits
        dest!: Suc.IH publics_release publics_upd_priv publics_dequeue)
qed

lemma publics_setup_pool_loop: "setup_pool_loop E d n s = Inr s' \<Longrightarrow> publics s' = publics s"
proof (induction n arbitrary: s)
  case (Suc n)
  have new: "publics (new_pkt p k s) = publics s" for p k by (simp add: publics_def new_pkt_def emit_def fun_eq_iff)
  from Suc.prems show ?case
    by (auto simp: bind_res_eq_Inr new split: option.splits dest!: Suc.IH publics_upd_pkt publics_upd_priv)
qed simp

lemma publics_setup_pool: "snull_setup_pool E d s = Inr s' \<Longrightarrow> publics s' = publics s"
  by (auto simp: snull_setup_pool_def bind_res_eq_Inr dest!: publics_setup_pool_loop publics_upd_priv)

lemma publics_upd_stats: "upd_stats d f s = Inr s' \<Longrightarrow> publics s' = publics s"
  by (simp add: upd_stats_def publics_upd_priv)

lemma publics_buf: "store_buf b xs s = Inr s' \<Longrightarrow> publics s' = publics s"
  by (auto simp: store_buf_def publics_def split: bufp.splits option.splits)

lemma publics_kfree_skb: "dev_kfree_skb q s = Inr s' \<Longrightarrow> publics s' = publics s"
  by (auto simp: dev_kfree_skb_def publics_def emit_def fun_eq_iff split: option.splits)

lemmas publics_prims = publics_upd_priv publics_upd_pkt publics_lock publics_upd_stats publics_buf publics_kfree_skb

lemma publics_get_tx_buffer: "snull_get_tx_buffer E d s = Inr (p, s') \<Longrightarrow> publics s' = publics s"
  by (auto simp: snull_get_tx_buffer_def bind_res_eq_Inr split: if_splits dest!: publics_prims)

lemma publics_enqueue: "snull_enqueue_buf d p s = Inr s' \<Longrightarrow> publics s' = publics s"
  by (auto simp: snull_enqueue_buf_def bind_res_eq_Inr dest!: publics_prims)

lemma publics_rx: "snull_rx E d p s = Inr s' \<Longrightarrow> publics s' = publics s"
  by (auto simp: snull_rx_def count_rx_def bind_res_eq_Inr Let_def split: if_splits dest!: publics_prims)

lemma publics_tx_done: "tx_done d s = Inr s' \<Longrightarrow> publics s' = publics s"
  by (auto simp: tx_done_def bind_res_eq_Inr dest!: publics_prims)

lemma publics_regular_interrupt: "snull_regular_interrupt E d s = Inr s' \<Longrightarrow> publics s' = publics s"
  by (auto simp: snull_regular_interrupt_def bind_res_eq_Inr Let_def split: if_splits option.splits
      dest!: publics_prims publics_rx publics_tx_done publics_release)

lemma publics_napi_interrupt: "snull_napi_interrupt E d s = Inr s' \<Longrightarrow> publics s' = publics s"
  by (auto simp: snull_napi_interrupt_def snull_rx_ints_def bind_res_eq_Inr Let_def split: if_splits option.splits
      dest!: publics_prims publics_tx_done)

lemma publics_interrupt: "raise_interrupt E d s = Inr s' \<Longrightarrow> publics s' = publics s"
  by (auto simp: raise_interrupt_def split: option.splits intr_fn.splits
      dest!: publics_regular_interrupt publics_napi_interrupt)

lemma publics_hw_tx: "snull_hw_tx E buf len d s = Inr s' \<Longrightarrow> publics s' = publics s"
  by (auto simp: snull_hw_tx_def hw_tx_complete_def bind_res_eq_Inr Let_def split: if_splits option.splits
      dest!: publics_prims publics_get_tx_buffer publics_enqueue publics_interrupt)

end
