(* ===== verification/Refinement.thy ===== *)
theory Refinement
  imports KM_Prelude
begin

text \<open>
  The refinement of a specification that answers calls by a component that answers them too, or
  faults: what holds for one call holds for every sequence of calls.
\<close>

text \<open>Calls one after the other, with all answers; the specification stops at a call that is not made.\<close>

fun call_run :: "('e \<Rightarrow> 's \<Rightarrow> ('a \<times> 's) res) \<Rightarrow> 'e list \<Rightarrow> 's \<Rightarrow> ('a list \<times> 's) res" where
  "call_run call [] s = Inr ([], s)"
| "call_run call (ev # evs) s = bind_res (call ev s) (\<lambda>(a, s1).
     bind_res (call_run call evs s1) (\<lambda>(as, s2). Inr (a # as, s2)))"

fun spec_run :: "('e \<Rightarrow> 'w \<Rightarrow> ('a \<times> 'w) option) \<Rightarrow> 'e list \<Rightarrow> 'w \<Rightarrow> ('a list \<times> 'w) option" where
  "spec_run spec [] w = Some ([], w)"
| "spec_run spec (ev # evs) w = Option.bind (spec ev w) (\<lambda>(a, w1).
     Option.bind (spec_run spec evs w1) (\<lambda>(as, w2). Some (a # as, w2)))"

text \<open>A component that implements a specification call by call does so for every sequence.\<close>

locale call_refinement =
  fixes call :: "'e \<Rightarrow> 's \<Rightarrow> ('a \<times> 's) res" and spec :: "'e \<Rightarrow> 'w \<Rightarrow> ('a \<times> 'w) option"
    and rel :: "'s \<Rightarrow> 'w \<Rightarrow> bool"
  assumes call_spec: "rel s w \<Longrightarrow> spec ev w = Some (a, w') \<Longrightarrow> \<exists>s'. call ev s = Inr (a, s') \<and> rel s' w'"
begin

lemma run_spec:
  "rel s w \<Longrightarrow> spec_run spec evs w = Some (as, w') \<Longrightarrow> \<exists>s'. call_run call evs s = Inr (as, s') \<and> rel s' w'"
proof (induction evs arbitrary: s w as)
  case (Cons ev evs)
  from Cons.prems(2) obtain a w1 bs where w1: "spec ev w = Some (a, w1)" "spec_run spec evs w1 = Some (bs, w')" "as = a # bs"
    by (auto simp: bind_eq_Some_conv)
  obtain s1 where s1: "call ev s = Inr (a, s1)" "rel s1 w1" using call_spec [OF Cons.prems(1) w1(1)] by blast
  then obtain s2 where "call_run call evs s1 = Inr (bs, s2)" "rel s2 w'" using Cons.IH w1(2) by blast
  with s1 w1(3) show ?case by auto
qed simp

text \<open>A property of the specification's states that every step keeps holds after every run.\<close>

lemma spec_invariant:
  assumes "\<And>ev w a w'. I w \<Longrightarrow> spec ev w = Some (a, w') \<Longrightarrow> I w'" and "I w" and "spec_run spec evs w = Some (as, w')"
  shows "I w'"
  using assms(2,3) by (induction evs arbitrary: w as) (auto simp: bind_eq_Some_conv intro: assms(1))

end

end
