(* ===== verification/Snull_Wire.thy ===== *)
theory Snull_Wire
  imports Snull_Bytes Snull_Publics Refinement
begin

text \<open>
  The two interfaces of the loaded module as what they are meant to be: the ends of a wire.  The
  specification knows no packets, queues, interrupts or locks, only what each interface shows
  and what has come up; the driver implements it call by call.
\<close>

section \<open>The specification\<close>

record iface =
  if_addr :: "byte list"
  if_mtu :: int
  if_irq :: int
  if_base :: int
  if_up :: bool
  if_on :: bool
  if_stats :: net_device_stats

text \<open>What has been handed up, newest first, and the interfaces.\<close>

record wire =
  w_up :: "sk_buff list"
  w_ifs :: "devp \<Rightarrow> iface option"

datatype answer = Ret int | Counters net_device_stats

definition upd_if :: "devp \<Rightarrow> (iface \<Rightarrow> iface) \<Rightarrow> wire \<Rightarrow> wire" where
  "upd_if d f w = w\<lparr>w_ifs := (w_ifs w)(d := map_option f (w_ifs w d))\<rparr>"

definition if_sent :: "nat \<Rightarrow> iface \<Rightarrow> iface" where
  "if_sent n i = i\<lparr>if_stats := (if_stats i)\<lparr>tx_packets := tx_packets (if_stats i) + 1,
     tx_bytes := tx_bytes (if_stats i) + of_nat n\<rparr>\<rparr>"

definition if_got :: "nat \<Rightarrow> iface \<Rightarrow> iface" where
  "if_got n i = i\<lparr>if_stats := (if_stats i)\<lparr>rx_packets := rx_packets (if_stats i) + 1,
     rx_bytes := rx_bytes (if_stats i) + of_nat n\<rparr>\<rparr>"

text \<open>Where a frame comes up.\<close>

definition wire_peer :: "devp \<Rightarrow> devp \<Rightarrow> devp \<Rightarrow> byte list \<Rightarrow> devp" where
  "wire_peer d0 d1 d b = rx_dev d0 d1 d (pad_frame b)"

text \<open>
  The calls.  None: the kernel does not make this call (no such interface, a stopped queue) or the
  frame is longer than a packet.
\<close>

fun wire_step :: "snull_env \<Rightarrow> devp \<Rightarrow> devp \<Rightarrow> snull_event \<Rightarrow> wire \<Rightarrow> (answer \<times> wire) option" where
  "wire_step E d0 d1 (Xmit q k d) w = Option.bind (w_ifs w d) (\<lambda>i.
     if if_on i \<and> length (skb_data k) \<le> ETH_DATA_LEN
     then (let b = skb_data k; n = length (pad_frame b); e = wire_peer d0 d1 d b in
       Some (Ret 0, (upd_if d (if_sent n) (upd_if e (if_got n) w))\<lparr>w_up := delivered_skb E e b # w_up w\<rparr>))
     else None)"
| "wire_step E d0 d1 (OpenDev d) w = Option.bind (w_ifs w d) (\<lambda>i. Some (Ret 0,
     upd_if d (\<lambda>i. i\<lparr>if_addr := [0x00, 0x53, 0x4E, 0x55, 0x4C, if d = d1 then 0x31 else 0x30], if_on := True\<rparr>) w))"
| "wire_step E d0 d1 (StopDev d) w = Option.bind (w_ifs w d) (\<lambda>i. Some (Ret 0, upd_if d (\<lambda>i. i\<lparr>if_on := False\<rparr>) w))"
| "wire_step E d0 d1 (Configure d m) w = Option.bind (w_ifs w d) (\<lambda>i.
     if if_up i then Some (Ret (- EBUSY), w)
     else if map_base_addr m \<noteq> if_base i then Some (Ret (- EOPNOTSUPP), w)
     else Some (Ret 0, upd_if d (\<lambda>i. i\<lparr>if_irq := map_irq m\<rparr>) w))"
| "wire_step E d0 d1 (ChangeMtu d n) w = Option.bind (w_ifs w d) (\<lambda>i.
     if 68 \<le> n \<and> n \<le> 1500 then Some (Ret 0, upd_if d (\<lambda>i. i\<lparr>if_mtu := n\<rparr>) w) else Some (Ret (- EINVAL), w))"
| "wire_step E d0 d1 (Ioctl d c) w = Option.bind (w_ifs w d) (\<lambda>i. Some (Ret 0, w))"
| "wire_step E d0 d1 (GetStats d) w = Option.bind (w_ifs w d) (\<lambda>i. Some (Counters (if_stats i), w))"

section \<open>The driver's calls and what they show\<close>

fun ndo_call :: "snull_env \<Rightarrow> snull_event \<Rightarrow> snull_state \<Rightarrow> (answer \<times> snull_state) res" where
  "ndo_call E (Xmit q k d) s = bind_res (snull_tx E q d (set_skb q (Some k) s)) (\<lambda>(r, s'). Inr (Ret r, s'))"
| "ndo_call E (OpenDev d) s = bind_res (snull_open d s) (\<lambda>(r, s'). Inr (Ret r, s'))"
| "ndo_call E (StopDev d) s = bind_res (snull_release d s) (\<lambda>(r, s'). Inr (Ret r, s'))"
| "ndo_call E (Configure d m) s = bind_res (snull_config d m s) (\<lambda>(r, s'). Inr (Ret r, s'))"
| "ndo_call E (ChangeMtu d n) s = bind_res (snull_change_mtu d n s) (\<lambda>(r, s'). Inr (Ret r, s'))"
| "ndo_call E (Ioctl d c) s = bind_res (snull_ioctl d c s) (\<lambda>(r, s'). Inr (Ret r, s'))"
| "ndo_call E (GetStats d) s = bind_res (snull_stats d s) (\<lambda>st. Inr (Counters st, s))"

lemma handle_ndo_call: "handle E ev s = bind_res (ndo_call E ev s) (\<lambda>(_, s'). Inr s')"
  by (cases ev) (simp_all add: bind_res_assoc case_prod_beta')

definition iface_of :: "bool \<Rightarrow> net_device \<Rightarrow> iface" where
  "iface_of on nd = \<lparr>if_addr = dev_addr nd, if_mtu = dev_mtu nd, if_irq = dev_irq nd, if_base = base_addr nd,
     if_up = (dev_flags nd AND IFF_UP \<noteq> 0), if_on = on, if_stats = stats (dev_priv nd)\<rparr>"

definition wire_of :: "snull_state \<Rightarrow> wire" where
  "wire_of s = \<lparr>w_up = delivered (ktrace s),
     w_ifs = (\<lambda>d. map_option (iface_of (\<not> queue_off (ktrace s) d)) (netdevs s d))\<rparr>"

text \<open>What the kernel is assumed to do: enough memory for skbs, and the queue state follows the calls.\<close>

definition wire_env :: "snull_env \<Rightarrow> bool" where
  "wire_env E \<longleftrightarrow> lockup E = 0 \<and> eth_type_trans_law E \<and> (\<forall>tr n. k_dev_alloc_skb E tr n) \<and> k_queue_stopped E = queue_off"

section \<open>One call\<close>

text \<open>What an interface shows outside the private area of its device.\<close>

definition lines :: "snull_state \<Rightarrow> devp \<Rightarrow> (byte list \<times> int \<times> int \<times> int \<times> 32 word) option" where
  "lines s d = map_option (\<lambda>nd. (dev_addr nd, dev_mtu nd, dev_irq nd, base_addr nd, dev_flags nd)) (netdevs s d)"

lemma iface_of_lines:
  "map_option (iface_of on) (netdevs s d) = (case priv_of s d of None \<Rightarrow> None
     | Some pr \<Rightarrow> map_option (\<lambda>(a, m, i, b, f). \<lparr>if_addr = a, if_mtu = m, if_irq = i, if_base = b, if_up = (f AND IFF_UP \<noteq> 0),
         if_on = on, if_stats = stats pr\<rparr>) (lines s d))"
  by (cases "netdevs s d") (simp_all add: iface_of_def lines_def priv_of_def)

lemma lines_publics: "publics s' = publics s \<Longrightarrow> lines s' d = lines s d"
  unfolding lines_def by (rule publics_map) simp_all

lemma lines_entry: "lines (tx_entry E q d b s) x = lines s x" "lines (set_skb q k s) x = lines s x"
  by (simp_all add: lines_def tx_entry_def set_priv_def set_dev_def set_short_def set_skb_def option.map_comp comp_def)

lemma tx_log_queue:
  assumes "k_queue_stopped E = queue_off" and "\<not> queue_off tr d"
  shows "queue_off (tx_log E d e ps q b tr) x = queue_off tr x"
  using assms by (auto simp: tx_log_def Let_def wake_log_def rx_log_def)

lemma xmit_ready:
  assumes "snull_loaded s d0 d1 P" and "wire_env E" and "d = d0 \<or> d = d1" and "length (skb_data k) \<le> ETH_DATA_LEN"
  shows "tx_ready E (set_skb q (Some k) s) d0 d1 P d q (skb_data k)"
proof -
  have "snull_quiet (set_skb q (Some k) s) d0 d1 P"
    using assms(1) by (auto simp: snull_loaded_def snull_quiet_def dev_quiet_def pool_holds_def full_data_def snull_state)
  then show ?thesis using assms by (simp add: tx_ready_def wire_env_def snull_state)
qed

lemma xmit_lines:
  assumes "snull_loaded s d0 d1 P" and "d = d0 \<or> d = d1" and "length (skb_data k) \<le> ETH_DATA_LEN"
    and "snull_tx E q d (set_skb q (Some k) s) = Inr (r, s')"
  shows "lines s' x = lines s x"
proof -
  let ?s = "set_skb q (Some k) s"
  obtain pr where pr: "priv_of s d = Some pr" "\<not> lock pr" using snull_loaded_dev [OF assms(1,2)] by auto
  let ?h = "snull_hw_tx E (tx_buf q (skb_data k)) (int (length (pad_frame (skb_data k)))) d (tx_entry E q d (skb_data k) ?s)"
  have "snull_tx E q d ?s = bind_res ?h (\<lambda>s'. Inr (0, s'))"
    using pr assms(3) by (intro snull_tx_eq [where kq = k and pr = pr]) (simp_all add: snull_state frame_consts)
  then have "?h = Inr s'" using assms(4) by (cases ?h) simp_all
  then have "publics s' = publics (tx_entry E q d (skb_data k) ?s)" by (rule publics_hw_tx)
  from lines_publics [OF this, of x] show ?thesis by (simp add: lines_entry)
qed

lemma xmit_wire:
  assumes "snull_loaded s d0 d1 P" and "wire_env E" and "d = d0 \<or> d = d1" and "length (skb_data k) \<le> ETH_DATA_LEN"
    and "\<not> queue_off (ktrace s) d"
  shows "\<exists>s'. snull_tx E q d (set_skb q (Some k) s) = Inr (0, s')
     \<and> wire_of s' = (let b = skb_data k; n = length (pad_frame b); e = wire_peer d0 d1 d b in
         (upd_if d (if_sent n) (upd_if e (if_got n) (wire_of s)))\<lparr>w_up := delivered_skb E e b # w_up (wire_of s)\<rparr>)"
proof -
  let ?s = "set_skb q (Some k) s" and ?b = "skb_data k"
  let ?e = "rx_dev d0 d1 d (pad_frame ?b)"
  note ready = xmit_ready [OF assms(1-4), of q]
  have env: "\<forall>tr n. k_dev_alloc_skb E tr n" "k_queue_stopped E = queue_off" using assms(2) by (simp_all add: wire_env_def)
  obtain s' where run: "snull_tx E q d ?s = Inr (0, s')"
    "ktrace s' = tx_log E d ?e (P d) q (pad_frame ?b) (ktrace ?s)"
    "priv_of s' = tx_privs E d ?e (P d) (tx_buf q ?b) (pad_frame ?b) (ktrace ?s) (priv_of (tx_entry E q d ?b ?s))"
    using ready by (rule snull_tx_run) blast
  have up: "delivered (ktrace s') = delivered_skb E ?e ?b # delivered (ktrace s)"
    using tx_newest [OF ready env(1) run(1)] by (simp add: snull_state)
  have on: "queue_off (ktrace s') x = queue_off (ktrace s) x" for x
    using tx_log_queue [OF env(2) assms(5)] run(2) by (simp add: snull_state)
  have lines: "lines s' x = lines s x" for x by (rule xmit_lines [OF assms(1,3,4) run(1)])
  show ?thesis
  proof (intro exI conjI)
    show "snull_tx E q d ?s = Inr (0, s')" by (rule run(1))
    show "wire_of s' = (let b = ?b; n = length (pad_frame b); e = wire_peer d0 d1 d b in
         (upd_if d (if_sent n) (upd_if e (if_got n) (wire_of s)))\<lparr>w_up := delivered_skb E e b # w_up (wire_of s)\<rparr>)"
      unfolding wire_of_def iface_of_lines on lines up run(3)
      by (cases "lines s d"; cases "lines s ?e")
        (auto simp: Let_def wire_peer_def upd_if_def fun_eq_iff tx_privs_def snull_state rx_stats_def tx_stats_def
          if_sent_def if_got_def env(1) split: option.splits)
  qed
qed

text \<open>The other calls change at most one device and the queue state.\<close>

lemma wire_of_upd:
  assumes "netdevs s d = Some nd"
  shows "wire_of (s\<lparr>netdevs := (netdevs s)(d \<mapsto> nd')\<rparr>) =
    upd_if d (\<lambda>_. iface_of (\<not> queue_off (ktrace s) d) nd') (wire_of s)"
  using assms by (auto simp: wire_of_def upd_if_def fun_eq_iff)

lemma wire_ifsD: "w_ifs (wire_of s) d = Some i \<Longrightarrow> \<exists>nd. netdevs s d = Some nd \<and> i = iface_of (\<not> queue_off (ktrace s) d) nd"
  by (auto simp: wire_of_def)

lemma ndo_call_wire:
  assumes "snull_loaded s d0 d1 P" and "wire_env E" and "wire_step E d0 d1 ev (wire_of s) = Some (a, w)"
  shows "\<exists>s'. ndo_call E ev s = Inr (a, s') \<and> wire_of s' = w"
proof -
  from assms(3) obtain i where i: "w_ifs (wire_of s) (event_dev ev) = Some i" by (cases ev) (auto simp: bind_eq_Some_conv)
  then obtain nd where nd: "netdevs s (event_dev ev) = Some nd" "i = iface_of (\<not> queue_off (ktrace s) (event_dev ev)) nd"
    using wire_ifsD by blast
  have dev: "event_dev ev = d0 \<or> event_dev ev = d1" using nd(1) assms(1) by (auto simp: snull_loaded_def)
  have unl: "\<not> lock (dev_priv nd)" using snull_loaded_dev [OF assms(1) dev] nd(1) by auto
  have devs: "snull_devs s 1 = Some d1" "d0 \<noteq> d1" using snull_loaded_names [OF assms(1)] by simp_all
  show ?thesis
  proof (cases ev)
    case (Xmit q k d)
    then have ok: "\<not> queue_off (ktrace s) d" "length (skb_data k) \<le> ETH_DATA_LEN" "d = d0 \<or> d = d1"
      using assms(3) i nd(2) dev by (auto simp: iface_of_def split: if_splits)
    from xmit_wire [OF assms(1,2) ok(3,2,1), of q] Xmit assms(3) i nd(2) ok show ?thesis
      by (auto simp: iface_of_def Let_def)
  next
    case (OpenDev d)
    then show ?thesis using assms(3) i nd devs dev
      by (auto simp: snull_open_def snull_ops snull_state wire_of_def upd_if_def iface_of_def fun_eq_iff
          upd_dev_def get_dev_def emit_def ETH_ALEN_def)
  next
    case (StopDev d)
    then show ?thesis using assms(3) i nd
      by (auto simp: snull_release_def wire_of_def upd_if_def iface_of_def fun_eq_iff emit_def)
  next
    case (Configure d m)
    then show ?thesis using assms(3) i nd
      by (auto simp: snull_config_def get_dev_def upd_dev_def iface_of_def wire_of_upd wire_of_def upd_if_def fun_eq_iff split: if_splits)
  next
    case (ChangeMtu d n)
    then show ?thesis using assms(3) i nd unl
      by (auto simp: snull_change_mtu_def spin_lock_def spin_unlock_def netdev_priv_def get_dev_def upd_priv_def upd_dev_def
          iface_of_def wire_of_def upd_if_def fun_eq_iff split: if_splits)
  next
    case (Ioctl d c)
    then show ?thesis using assms(3) i by (auto simp: snull_ioctl_def)
  next
    case (GetStats d)
    then show ?thesis using assms(3) i nd by (auto simp: snull_stats_def netdev_priv_def get_dev_def iface_of_def)
  qed
qed

section \<open>All sequences of calls\<close>

definition wire_rel :: "snull_env \<Rightarrow> devp \<Rightarrow> devp \<Rightarrow> (devp \<Rightarrow> paddr list) \<Rightarrow> snull_state \<Rightarrow> wire \<Rightarrow> bool" where
  "wire_rel E d0 d1 P s w \<longleftrightarrow> wire_of s = w \<and> snull_loaded s d0 d1 P \<and> wire_env E"

interpretation wire: call_refinement "ndo_call E" "wire_step E d0 d1" "wire_rel E d0 d1 P" for E d0 d1 P
proof
  fix s w0 ev a w
  assume rel: "wire_rel E d0 d1 P s w0" and step: "wire_step E d0 d1 ev w0 = Some (a, w)"
  then have l: "snull_loaded s d0 d1 P" "wire_env E" and spec: "wire_step E d0 d1 ev (wire_of s) = Some (a, w)"
    by (simp_all add: wire_rel_def)
  from ndo_call_wire [OF l spec] obtain s' where s': "ndo_call E ev s = Inr (a, s')" "wire_of s' = w" by blast
  from spec obtain i where "w_ifs (wire_of s) (event_dev ev) = Some i" by (cases ev) (auto simp: bind_eq_Some_conv)
  then have "event_dev ev \<in> dom (netdevs s)" using wire_ifsD by blast
  then have "admissible s ev"
    using spec snull_loaded_names [OF l(1)] l(1)
    by (cases ev) (auto simp: snull_loaded_def bind_eq_Some_conv split: if_splits)
  then have "succeeds (\<lambda>s'. snull_loaded s' d0 d1 P) (handle E ev s)"
    using handle_keeps [OF l(1)] l(2) by (simp add: wire_env_def)
  then have "wire_rel E d0 d1 P s' w" using s' l(2) by (simp add: handle_ndo_call wire_rel_def)
  with s' show "\<exists>s'. ndo_call E ev s = Inr (a, s') \<and> wire_rel E d0 d1 P s' w" by blast
qed

text \<open>
  C1. The driver implements the wire: for every sequence of calls that the kernel may make, each
  call answers what the specification says, none faults, and what the interfaces show and have handed up is
  always what the specification says; the internal invariant holds throughout.
\<close>

theorem snull_is_wire:
  assumes "snull_loaded s d0 d1 P" and "wire_env E" and "spec_run (wire_step E d0 d1) evs (wire_of s) = Some (as, w)"
  shows "\<exists>s'. call_run (ndo_call E) evs s = Inr (as, s') \<and> wire_of s' = w \<and> snull_loaded s' d0 d1 P"
  using wire.run_spec [of E d0 d1 P s "wire_of s" evs as w] assms by (auto simp: wire_rel_def)

section \<open>Nothing is lost\<close>

fun wire_sent :: "snull_env \<Rightarrow> devp \<Rightarrow> devp \<Rightarrow> snull_event list \<Rightarrow> sk_buff list" where
  "wire_sent E d0 d1 [] = []"
| "wire_sent E d0 d1 (Xmit q k d # evs) =
     delivered_skb E (wire_peer d0 d1 d (skb_data k)) (skb_data k) # wire_sent E d0 d1 evs"
| "wire_sent E d0 d1 (_ # evs) = wire_sent E d0 d1 evs"

definition wire_total :: "(net_device_stats \<Rightarrow> 64 word) \<Rightarrow> devp \<Rightarrow> devp \<Rightarrow> wire \<Rightarrow> 64 word" where
  "wire_total f d0 d1 w = (case (w_ifs w d0, w_ifs w d1) of (Some i, Some j) \<Rightarrow> f (if_stats i) + f (if_stats j) | _ \<Rightarrow> 0)"

lemma wire_peer_ends: "d = d0 \<or> d = d1 \<Longrightarrow> wire_peer d0 d1 d b = d0 \<or> wire_peer d0 d1 d b = d1"
  by (auto simp: wire_peer_def rx_dev_def)

lemma wire_total_upd:
  assumes "dom (w_ifs w) = {d0, d1}" and "d0 \<noteq> d1" and "d = d0 \<or> d = d1" and "\<And>i. f (if_stats (g i)) = f (if_stats i) + c"
  shows "wire_total f d0 d1 (upd_if d g w) = wire_total f d0 d1 w + c" "dom (w_ifs (upd_if d g w)) = {d0, d1}"
proof -
  obtain i j where "w_ifs w d0 = Some i" "w_ifs w d1 = Some j" using assms(1) by (metis domD insertI1 insertI2)
  then show "wire_total f d0 d1 (upd_if d g w) = wire_total f d0 d1 w + c"
    using assms(2-4) by (auto simp: wire_total_def upd_if_def)
  show "dom (w_ifs (upd_if d g w)) = {d0, d1}" using assms(1,3) by (auto simp: upd_if_def)
qed

lemma wire_total_up [simp]: "wire_total f d0 d1 (w\<lparr>w_up := u\<rparr>) = wire_total f d0 d1 w"
  by (simp add: wire_total_def)

text \<open>Every call but a transmission leaves what has come up and all counters alone.\<close>

lemma wire_step_plain:
  assumes "wire_step E d0 d1 ev w = Some (a, w')" and "\<And>q k d. ev \<noteq> Xmit q k d"
  shows "w' = w \<or> (\<exists>g. w' = upd_if (event_dev ev) g w \<and> (\<forall>i. if_stats (g i) = if_stats i))"
proof (cases ev)
  case (OpenDev d)
  with assms(1) show ?thesis by (auto simp: bind_eq_Some_conv intro!: exI [of _ "\<lambda>i. i\<lparr>if_addr := _, if_on := True\<rparr>"])
next
  case (StopDev d)
  with assms(1) show ?thesis by (auto simp: bind_eq_Some_conv intro!: exI [of _ "\<lambda>i. i\<lparr>if_on := False\<rparr>"])
next
  case (Configure d m)
  with assms(1) show ?thesis by (auto simp: bind_eq_Some_conv intro!: exI [of _ "\<lambda>i. i\<lparr>if_irq := map_irq m\<rparr>"] split: if_splits)
next
  case (ChangeMtu d n)
  with assms(1) show ?thesis by (auto simp: bind_eq_Some_conv intro!: exI [of _ "\<lambda>i. i\<lparr>if_mtu := n\<rparr>"] split: if_splits)
qed (use assms in \<open>auto simp: bind_eq_Some_conv\<close>)

text \<open>What a call that is no transmission, or a transmission, does to sums over both ends.\<close>

lemma wire_step_total:
  assumes "wire_step E d0 d1 ev w = Some (a, w')" and "d0 \<noteq> d1" and "dom (w_ifs w) = {d0, d1}"
    and "\<And>n i. f (if_stats (if_sent n i)) = f (if_stats i) + cs n" and "\<And>n i. f (if_stats (if_got n i)) = f (if_stats i) + cg n"
  shows "wire_total f d0 d1 w' = wire_total f d0 d1 w
     + (case ev of Xmit q k d \<Rightarrow> cs (length (pad_frame (skb_data k))) + cg (length (pad_frame (skb_data k))) | _ \<Rightarrow> 0)
   \<and> dom (w_ifs w') = {d0, d1} \<and> w_up w' = wire_sent E d0 d1 [ev] @ w_up w"
proof -
  from assms(1) obtain k where "w_ifs w (event_dev ev) = Some k" by (cases ev) (auto simp: bind_eq_Some_conv)
  then have dev: "event_dev ev = d0 \<or> event_dev ev = d1" using assms(3) by blast
  show ?thesis
  proof (cases "\<exists>q k d. ev = Xmit q k d")
    case True
    then obtain q k d where Xmit: "ev = Xmit q k d" by blast
    let ?n = "length (pad_frame (skb_data k))" and ?e = "wire_peer d0 d1 d (skb_data k)"
    have d: "d = d0 \<or> d = d1" using dev Xmit by simp
    note got = wire_total_upd [OF assms(3,2) wire_peer_ends [OF d], of f "if_got ?n" "cg ?n" "skb_data k", OF assms(5)]
    note sent = wire_total_upd [OF got(2) assms(2) d, of f "if_sent ?n" "cs ?n", OF assms(4)]
    have "w' = (upd_if d (if_sent ?n) (upd_if ?e (if_got ?n) w))\<lparr>w_up := delivered_skb E ?e (skb_data k) # w_up w\<rparr>"
      using assms(1) Xmit by (auto simp: bind_eq_Some_conv Let_def split: if_splits)
    then show ?thesis using sent got Xmit by (simp add: algebra_simps)
  next
    case False
    then have no: "\<And>q k d. ev \<noteq> Xmit q k d" by blast
    have "wire_total f d0 d1 w' = wire_total f d0 d1 w \<and> dom (w_ifs w') = {d0, d1} \<and> w_up w' = w_up w"
      using wire_step_plain [OF assms(1) no]
    proof (elim disjE exE conjE)
      fix g
      assume g: "w' = upd_if (event_dev ev) g w" "\<forall>i. if_stats (g i) = if_stats i"
      with wire_total_upd [OF assms(3,2) dev, of f g 0] show ?thesis by (simp add: upd_if_def)
    qed (use assms(3) in simp)
    then show ?thesis using False by (cases ev) simp_all
  qed
qed

lemma wire_run_keeps:
  assumes "spec_run (wire_step E d0 d1) evs w = Some (as, w')" and "d0 \<noteq> d1" and "dom (w_ifs w) = {d0, d1}"
  shows "w_up w' = rev (wire_sent E d0 d1 evs) @ w_up w
     \<and> wire_total tx_packets d0 d1 w' = wire_total tx_packets d0 d1 w + of_nat (length (wire_sent E d0 d1 evs))
     \<and> wire_total rx_packets d0 d1 w' = wire_total rx_packets d0 d1 w + of_nat (length (wire_sent E d0 d1 evs))
     \<and> wire_total tx_bytes d0 d1 w' - wire_total rx_bytes d0 d1 w' = wire_total tx_bytes d0 d1 w - wire_total rx_bytes d0 d1 w
     \<and> wire_total rx_dropped d0 d1 w' = wire_total rx_dropped d0 d1 w \<and> wire_total tx_errors d0 d1 w' = wire_total tx_errors d0 d1 w"
  using assms(1,3)
proof (induction evs arbitrary: w as)
  case (Cons ev evs)
  from Cons.prems(1) obtain a w1 bs where w1: "wire_step E d0 d1 ev w = Some (a, w1)" "spec_run (wire_step E d0 d1) evs w1 = Some (bs, w')"
    by (auto simp: bind_eq_Some_conv)
  note step = wire_step_total [OF w1(1) assms(2) Cons.prems(2)]
  have "dom (w_ifs w1) = {d0, d1}" "w_up w1 = wire_sent E d0 d1 [ev] @ w_up w"
    using step [of tx_errors "\<lambda>_. 0" "\<lambda>_. 0"] by (simp_all add: if_sent_def if_got_def)
  note ih = Cons.IH [OF w1(2) this(1)] and up = this(2)
  have "wire_total tx_errors d0 d1 w1 = wire_total tx_errors d0 d1 w" "wire_total rx_dropped d0 d1 w1 = wire_total rx_dropped d0 d1 w"
    using step [of tx_errors "\<lambda>_. 0" "\<lambda>_. 0"] step [of rx_dropped "\<lambda>_. 0" "\<lambda>_. 0"]
    by (cases ev; simp add: if_sent_def if_got_def)+
  moreover have "wire_total tx_packets d0 d1 w1 = wire_total tx_packets d0 d1 w + of_nat (length (wire_sent E d0 d1 [ev]))"
    "wire_total rx_packets d0 d1 w1 = wire_total rx_packets d0 d1 w + of_nat (length (wire_sent E d0 d1 [ev]))"
    using step [of tx_packets "\<lambda>_. 1" "\<lambda>_. 0"] step [of rx_packets "\<lambda>_. 0" "\<lambda>_. 1"]
    by (cases ev; simp add: if_sent_def if_got_def)+
  moreover have "wire_total tx_bytes d0 d1 w1 - wire_total rx_bytes d0 d1 w1 = wire_total tx_bytes d0 d1 w - wire_total rx_bytes d0 d1 w"
    using step [of tx_bytes of_nat "\<lambda>_. 0"] step [of rx_bytes "\<lambda>_. 0" of_nat]
    by (cases ev) (simp_all add: if_sent_def if_got_def)
  moreover have "wire_sent E d0 d1 (ev # evs) = wire_sent E d0 d1 [ev] @ wire_sent E d0 d1 evs" by (cases ev) simp_all
  moreover have "rev (wire_sent E d0 d1 [ev]) = wire_sent E d0 d1 [ev]" by (cases ev) simp_all
  ultimately show ?case using ih up by (simp add: ac_simps)
qed simp


section \<open>An example\<close>

definition demo_calls :: "snull_event list" where
  "demo_calls = [ChangeMtu 101 9000, Xmit 7 \<lparr>skb_data = echo_frame, skb_dev = None, skb_protocol = 0, skb_csum_unnecessary = False\<rparr> 101,
     StopDev 102, Configure 102 \<lparr>map_base_addr = 0, map_irq = 9\<rparr>, OpenDev 102,
     Xmit 8 \<lparr>skb_data = short_frame, skb_dev = None, skb_protocol = 0, skb_csum_unnecessary = False\<rparr> 102]"

lemma demo_wire_env: "wire_env demo_env"
  using demo_laws by (simp add: wire_env_def)

lemma demo_peers: "wire_peer 101 102 101 echo_frame = 101" "wire_peer 101 102 102 short_frame = 101"
  using short_frame_kind by (simp_all add: wire_peer_def rx_dev_def pad_frame_def is_ping_def frame_consts)

lemma demo_spec_run:
  "\<exists>w. spec_run (wire_step demo_env 101 102) demo_calls (wire_of demo_state) =
     Some ([Ret (- EINVAL), Ret 0, Ret 0, Ret 0, Ret 0, Ret 0], w) \<and> map_option if_irq (w_ifs w 102) = Some 9"
proof -
  have len: "length short_frame = 42" by (simp add: short_frame_def)
  show ?thesis
    by (simp add: demo_calls_def wire_of_def demo_state_def demo_dev_def stale_dev_def iface_of_def upd_if_def Let_def
        demo_peers len if_sent_def if_got_def frame_consts IFF_UP_def)
qed

lemma snull_is_wire_witness:
  "\<exists>s'. call_run (ndo_call demo_env) demo_calls demo_state = Inr ([Ret (- EINVAL), Ret 0, Ret 0, Ret 0, Ret 0, Ret 0], s')
     \<and> map_option if_irq (w_ifs (wire_of s') 102) = Some 9"
proof -
  obtain w where w: "spec_run (wire_step demo_env 101 102) demo_calls (wire_of demo_state) =
     Some ([Ret (- EINVAL), Ret 0, Ret 0, Ret 0, Ret 0, Ret 0], w)" "map_option if_irq (w_ifs w 102) = Some 9"
    using demo_spec_run by blast
  from snull_is_wire [OF demo_loaded demo_wire_env w(1)] w(2) show ?thesis by blast
qed


end
