(* ===== verification/Snull_Silent.thy ===== *)
theory Snull_Silent
  imports Snull_Poll Snull_Wire
begin

text \<open>
  The polled mode of \<open>snull.c\<close>.  Its interrupt handler switches receive interrupts off, but the call
  that would ask the kernel to poll the device is commented out.  Whatever calls of its methods the
  kernel makes, no device asks to be polled and no frame is handed up.
\<close>

text \<open>What has been handed up, which devices have asked to be polled, and the mode.\<close>

definition rx_view :: "snull_state \<Rightarrow> sk_buff list \<times> (devp \<Rightarrow> bool) \<times> intr_fn option" where
  "rx_view s = (delivered (ktrace s), \<lambda>x. on_list x (ktrace s), snull_interrupt s)"

lemma view_set [simp]:
  "rx_view (set_skb q v s) = rx_view s" "rx_view (set_dev d f s) = rx_view s"
  "rx_view (emit (StopQueue d) s) = rx_view s" "rx_view (emit (StartQueue d) s) = rx_view s"
  "rx_view (emit (WakeQueue d) s) = rx_view s" "rx_view (emit (DevKfreeSkb r) s) = rx_view s"
  by (simp_all add: rx_view_def snull_state)

lemma view_upd_dev: "upd_dev d f s = Inr s' \<Longrightarrow> rx_view s' = rx_view s"
  by (auto simp: upd_dev_def get_dev_def rx_view_def split: option.splits)

lemma view_upd_priv: "upd_priv d f s = Inr s' \<Longrightarrow> rx_view s' = rx_view s"
  by (simp add: upd_priv_def view_upd_dev)

lemma view_upd_pkt: "upd_pkt p f s = Inr s' \<Longrightarrow> rx_view s' = rx_view s"
  by (auto simp: upd_pkt_def rx_view_def bind_res_eq_Inr)

lemma view_lock: "spin_lock d s = Inr s' \<Longrightarrow> rx_view s' = rx_view s" "spin_unlock d s = Inr s' \<Longrightarrow> rx_view s' = rx_view s"
  by (auto simp: spin_lock_def spin_unlock_def bind_res_eq_Inr split: if_splits dest: view_upd_priv)

lemma view_upd_stats: "upd_stats d f s = Inr s' \<Longrightarrow> rx_view s' = rx_view s"
  by (simp add: upd_stats_def view_upd_priv)

lemma view_buf: "store_buf b xs s = Inr s' \<Longrightarrow> rx_view s' = rx_view s"
  by (auto simp: store_buf_def rx_view_def split: bufp.splits option.splits)

lemma view_kfree_skb: "dev_kfree_skb q s = Inr s' \<Longrightarrow> rx_view s' = rx_view s"
  by (auto simp: dev_kfree_skb_def rx_view_def emit_def split: option.splits)

lemmas view_prims = view_upd_dev view_upd_priv view_upd_pkt view_lock view_upd_stats view_buf view_kfree_skb

lemma view_get_tx_buffer: "snull_get_tx_buffer E d s = Inr (p, s') \<Longrightarrow> rx_view s' = rx_view s"
  by (auto simp: snull_get_tx_buffer_def bind_res_eq_Inr split: if_splits dest!: view_prims)

lemma view_enqueue: "snull_enqueue_buf d p s = Inr s' \<Longrightarrow> rx_view s' = rx_view s"
  by (auto simp: snull_enqueue_buf_def bind_res_eq_Inr dest!: view_prims)

lemma view_tx_done: "tx_done d s = Inr s' \<Longrightarrow> rx_view s' = rx_view s"
  by (auto simp: tx_done_def bind_res_eq_Inr dest!: view_prims)

lemma view_napi_interrupt: "snull_napi_interrupt E d s = Inr s' \<Longrightarrow> rx_view s' = rx_view s"
  by (auto simp: snull_napi_interrupt_def snull_rx_ints_def bind_res_eq_Inr Let_def split: if_splits option.splits
      dest!: view_prims view_tx_done)

text \<open>An interrupt in polled mode, which is part of the view.\<close>

lemma view_interrupt:
  "raise_interrupt E d s = Inr s' \<Longrightarrow> snd (snd (rx_view s)) = Some NapiInterrupt \<Longrightarrow> rx_view s' = rx_view s"
  by (auto simp: raise_interrupt_def rx_view_def [where s = s] dest: view_napi_interrupt)

lemma view_hw_tx:
  "snull_hw_tx E buf len d s = Inr s' \<Longrightarrow> snd (snd (rx_view s)) = Some NapiInterrupt \<Longrightarrow> rx_view s' = rx_view s"
  by (auto simp: snull_hw_tx_def hw_tx_complete_def bind_res_eq_Inr Let_def split: if_splits option.splits
      dest!: view_prims view_get_tx_buffer view_enqueue view_interrupt)

lemma view_mode: "snd (snd (rx_view s)) = snull_interrupt s"
  by (simp add: rx_view_def)

lemma view_shortpkt [simp]: "rx_view (s\<lparr>shortpkt := x\<rparr>) = rx_view s"
  by (simp add: rx_view_def)

lemma view_tx:
  "snull_tx E q d s = Inr (r, s') \<Longrightarrow> snull_interrupt s = Some NapiInterrupt \<Longrightarrow> rx_view s' = rx_view s"
  by (auto simp: snull_tx_def bind_res_eq_Inr Let_def view_mode [symmetric] split: if_splits dest!: view_prims view_hw_tx)

lemma view_timeout:
  "snull_tx_timeout E d s = Inr s' \<Longrightarrow> snull_interrupt s = Some NapiInterrupt \<Longrightarrow> rx_view s' = rx_view s"
  by (auto simp: snull_tx_timeout_def bind_res_eq_Inr view_mode [symmetric] dest!: view_prims view_interrupt)

text \<open>The calls of the methods, and the watchdog of a device.\<close>

fun kernel_call :: "snull_env \<Rightarrow> snull_event + devp \<Rightarrow> snull_state \<Rightarrow> (answer option \<times> snull_state) res" where
  "kernel_call E (Inl ev) s = bind_res (ndo_call E ev s) (\<lambda>(a, s'). Inr (Some a, s'))"
| "kernel_call E (Inr d) s = bind_res (snull_tx_timeout E d s) (\<lambda>s'. Inr (None, s'))"

lemma view_ndo_call:
  assumes "ndo_call E ev s = Inr (a, s')" and "snull_interrupt s = Some NapiInterrupt"
  shows "rx_view s' = rx_view s"
  using assms
  by (cases ev) (auto simp: bind_res_eq_Inr snull_open_def snull_release_def snull_config_def snull_change_mtu_def snull_ioctl_def Let_def
      view_mode [symmetric] split: if_splits dest!: view_prims view_tx)

lemma view_kernel_call:
  "kernel_call E c s = Inr (a, s') \<Longrightarrow> snull_interrupt s = Some NapiInterrupt \<Longrightarrow> rx_view s' = rx_view s"
  by (cases c) (auto simp: bind_res_eq_Inr dest: view_ndo_call view_timeout)

lemma view_call_run:
  "call_run (kernel_call E) cs s = Inr (as, s') \<Longrightarrow> snull_interrupt s = Some NapiInterrupt \<Longrightarrow> rx_view s' = rx_view s"
proof (induction cs arbitrary: s as)
  case (Cons c cs)
  from Cons.prems(1) obtain a s1 as1 where c: "kernel_call E c s = Inr (a, s1)" "call_run (kernel_call E) cs s1 = Inr (as1, s')"
    by (auto simp: bind_res_eq_Inr)
  from view_kernel_call [OF c(1) Cons.prems(2)] have v: "rx_view s1 = rx_view s" .
  then have "snull_interrupt s1 = Some NapiInterrupt" using Cons.prems(2) by (simp add: view_mode [symmetric])
  with Cons.IH [OF c(2)] v show ?case by simp
qed simp

text \<open>
  C15. In polled mode nothing ever comes up: no sequence of method calls and watchdogs hands a
  frame to the kernel or makes a device ask to be polled.
\<close>

theorem snull_napi_silent:
  assumes "snull_interrupt s = Some NapiInterrupt" and "call_run (kernel_call E) cs s = Inr (as, s')"
  shows "delivered (ktrace s') = delivered (ktrace s) \<and> (\<forall>x. on_list x (ktrace s') \<longleftrightarrow> on_list x (ktrace s))"
  using view_call_run [OF assms(2,1)] by (auto simp: rx_view_def fun_eq_iff)

lemma snull_napi_silent_witness:
  "\<exists>as s'. call_run (kernel_call demo_env) [Inl (OpenDev 101), Inr 101, Inl (GetStats 101)] (demo_state\<lparr>snull_interrupt := Some NapiInterrupt\<rparr>) = Inr (as, s')
     \<and> ktrace s' = [WakeQueue 101, DevKfreeSkb None, StartQueue 101] \<and> delivered (ktrace s') = []"
proof -
  let ?s = "demo_state\<lparr>snull_interrupt := Some NapiInterrupt\<rparr>"
  have "\<exists>as s'. call_run (kernel_call demo_env) [Inl (OpenDev 101), Inr 101, Inl (GetStats 101)] ?s = Inr (as, s')
     \<and> ktrace s' = [WakeQueue 101, DevKfreeSkb None, StartQueue 101]"
    by (simp add: demo_state_def demo_dev_def zero_priv_def stale_dev_def snull_open_def snull_tx_timeout_def
        raise_interrupt_def snull_napi_interrupt_def tx_done_def snull_stats_def
        upd_dev_def get_dev_def upd_priv_def netdev_priv_def spin_lock_def spin_unlock_def
        dev_kfree_skb_def upd_stats_def emit_def SNULL_RX_INTR_def SNULL_TX_INTR_def)
  then show ?thesis using snull_napi_silent [of ?s demo_env "[Inl (OpenDev 101), Inr 101, Inl (GetStats 101)]"] by (auto simp: demo_state_def)
qed

end
