(* ===== verification/Snull_Registry.thy ===== *)
theory Snull_Registry
  imports Snull_Claims
begin

text \<open>
  Registration of the interfaces: which devices a load that fails for want of memory withdraws from the
  kernel without having registered them.
\<close>

fun reg_calls :: "kcall list \<Rightarrow> kcall list" where
  "reg_calls [] = []"
| "reg_calls (RegisterNetdev d r # tr) = RegisterNetdev d r # reg_calls tr"
| "reg_calls (UnregisterNetdev d # tr) = UnregisterNetdev d # reg_calls tr"
| "reg_calls (_ # tr) = reg_calls tr"

text \<open>These calls, and the devices the module has noted.\<close>

definition regs :: "snull_state \<Rightarrow> kcall list \<times> (nat \<Rightarrow> devp option)" where
  "regs s = (reg_calls (ktrace s), snull_devs s)"

lemma regs_upd_dev: "upd_dev d f s = Inr s' \<Longrightarrow> regs s' = regs s"
  by (auto simp: upd_dev_def get_dev_def regs_def split: option.splits)

lemma regs_upd_priv: "upd_priv d f s = Inr s' \<Longrightarrow> regs s' = regs s"
  by (simp add: upd_priv_def regs_upd_dev)

lemma regs_upd_pkt: "upd_pkt p f s = Inr s' \<Longrightarrow> regs s' = regs s"
  by (auto simp: upd_pkt_def regs_def bind_res_eq_Inr)

lemma regs_emit [simp]:
  "regs (emit (KMalloc p) s) = regs s" "regs (emit (NapiAdd d n) s) = regs s" "regs (emit (AllocNetdev x) s) = regs s"
  "regs (emit (FreeNetdev d) s) = regs s" "regs (emit (UnregisterNetdev d) s) = apfst ((#) (UnregisterNetdev d)) (regs s)"
  by (simp_all add: regs_def snull_state)

lemma regs_pkts [simp]: "regs (new_pkt p k s) = regs s" "regs (kfree_pkt p s) = regs s"
  by (simp_all add: regs_def new_pkt_def kfree_pkt_def emit_def)

lemma regs_fields [simp]:
  "regs (s\<lparr>snull_devs := v\<rparr>) = (fst (regs s), v)" "regs (s\<lparr>netdevs := n\<rparr>) = regs s" "regs (s\<lparr>snull_interrupt := i\<rparr>) = regs s"
  by (simp_all add: regs_def)

lemma regs_setup_pool_loop: "setup_pool_loop E d n s = Inr s' \<Longrightarrow> regs s' = regs s"
proof (induction n arbitrary: s)
  case (Suc n)
  from Suc.prems show ?case
    by (auto simp: bind_res_eq_Inr split: option.splits dest!: Suc.IH regs_upd_pkt regs_upd_priv)
qed simp

lemma regs_init: "snull_init E d s = Inr s' \<Longrightarrow> regs s' = regs s"
  by (auto simp: snull_init_def snull_rx_ints_def snull_setup_pool_def bind_res_eq_Inr split: if_splits
      dest!: regs_upd_dev regs_upd_priv regs_setup_pool_loop)

lemma regs_teardown: "snull_teardown_pool fuel d s = Inr s' \<Longrightarrow> regs s' = regs s"
proof (induction fuel arbitrary: s)
  case 0
  then show ?case by (subst (asm) snull_teardown_pool.simps) (auto simp: bind_res_eq_Inr split: option.splits)
next
  case (Suc fuel)
  from Suc.prems show ?case
    by (subst (asm) snull_teardown_pool.simps)
      (auto simp: bind_res_eq_Inr split: option.splits dest!: Suc.IH regs_upd_priv)
qed

lemma regs_alloc: "alloc_netdev E s = Inr (x, s') \<Longrightarrow> regs s' = regs s"
  by (auto simp: alloc_netdev_def bind_res_eq_Inr split: option.splits dest!: regs_init)

text \<open>Cleaning up withdraws each device the module has noted.\<close>

definition withdrawn :: "devp option \<Rightarrow> kcall list" where
  "withdrawn x = (case x of None \<Rightarrow> [] | Some d \<Rightarrow> [UnregisterNetdev d])"

lemma cleanup_dev_regs:
  "cleanup_dev fuel i s = Inr s' \<Longrightarrow> regs s' = (withdrawn (snull_devs s i) @ fst (regs s), snull_devs s)"
  by (auto simp: cleanup_dev_def withdrawn_def bind_res_eq_Inr split: option.splits dest!: regs_teardown) (simp_all add: regs_def)

lemma cleanup_regs:
  assumes "snull_cleanup fuel s = Inr s'"
  shows "fst (regs s') = withdrawn (snull_devs s 1) @ withdrawn (snull_devs s 0) @ fst (regs s)"
proof -
  from assms obtain t where t: "cleanup_dev fuel 0 s = Inr t" "cleanup_dev fuel 1 t = Inr s'"
    by (auto simp: snull_cleanup_def bind_res_eq_Inr)
  from cleanup_dev_regs [OF t(1)] have "snull_devs t = snull_devs s" by (simp add: regs_def)
  with cleanup_dev_regs [OF t(1)] cleanup_dev_regs [OF t(2)] show ?thesis by simp
qed

text \<open>
  A load that runs out of memory for its second interface withdraws the first from the kernel,
  which it has never registered.
\<close>

theorem snull_unregisters_unregistered:
  assumes "k_alloc_netdev E [] = Some (d, nd)" and "snull_init_module E fuel snull_boot = Inr (- ENOMEM, s)"
  shows "reg_calls (ktrace s) = [UnregisterNetdev d]"
proof -
  let ?s0 = "snull_boot\<lparr>snull_interrupt := Some (if use_napi E \<noteq> 0 then NapiInterrupt else RegularInterrupt)\<rparr>"
  from assms(2) obtain d0 s1 d1 s3 where a: "alloc_netdev E ?s0 = Inr (d0, s1)"
    "alloc_netdev E (s1\<lparr>snull_devs := (snull_devs s1)(0 := d0)\<rparr>) = Inr (d1, s3)"
    by (auto simp: snull_init_module_def bind_res_eq_Inr Let_def)
  let ?s4 = "s3\<lparr>snull_devs := (snull_devs s3)(1 := d1)\<rparr>"
  from a(1) assms(1) have d0: "d0 = Some d" by (auto simp: alloc_netdev_def snull_boot_def bind_res_eq_Inr)
  have no: "regs ?s0 = ([], \<lambda>_. None)" by (simp add: regs_def snull_boot_def)
  have r: "fst (regs ?s4) = []" "snull_devs ?s4 0 = Some d" "snull_devs ?s4 1 = d1"
    using regs_alloc [OF a(1)] regs_alloc [OF a(2)] no d0 by (auto simp: regs_def)
  have "d1 = None"
  proof (rule ccontr)
    assume "d1 \<noteq> None"
    then obtain e where e: "d1 = Some e" by blast
    have "bind_res (bind_res (register_dev E 0 (- ENODEV, ?s4)) (register_dev E 1)) (\<lambda>(ret, s5).
      if ret \<noteq> 0 then bind_res (snull_cleanup fuel s5) (\<lambda>s6. Inr (ret, s6)) else Inr (ret, s5)) = Inr (- ENOMEM, s)"
      using assms(2) a r by (simp add: snull_init_module_def Let_def e)
    then show False by (auto simp: bind_res_eq_Inr register_dev_def Let_def split: option.splits if_splits)
  qed
  then have "snull_cleanup fuel ?s4 = Inr s"
    using assms(2) a r by (auto simp: snull_init_module_def Let_def bind_res_eq_Inr)
  from cleanup_regs [OF this] r \<open>d1 = None\<close> show ?thesis by (simp add: regs_def withdrawn_def)
qed

text \<open>A kernel with memory for one device only.\<close>

definition one_dev_env :: snull_env where
  "one_dev_env = demo_env\<lparr>pool_size := 0, k_alloc_netdev := (\<lambda>tr. case tr of [] \<Rightarrow> Some (100, stale_dev) | _ \<Rightarrow> None)\<rparr>"

lemma snull_unregisters_unregistered_witness:
  "\<exists>s. snull_init_module one_dev_env 8 snull_boot = Inr (- ENOMEM, s) \<and> reg_calls (ktrace s) = [UnregisterNetdev 100]"
proof -
  have "\<exists>s. snull_init_module one_dev_env 8 snull_boot = Inr (- ENOMEM, s)"
    by (simp add: one_dev_env_def demo_env_def snull_init_module_def alloc_netdev_def snull_init_def snull_setup_pool_def
      snull_rx_ints_def snull_cleanup_def cleanup_dev_def snull_teardown_pool.simps snull_boot_def snull_ops snull_state Let_def zero_priv_def priv_of_def set_dev_def set_priv_def)
  then show ?thesis using snull_unregisters_unregistered [of one_dev_env 100 stale_dev 8] by (auto simp: one_dev_env_def)
qed

end
