(* ===== verification/Snull_Orig.thy ===== *)
theory Snull_Orig
  imports Snull_Methods
begin

text \<open>
  The original driver \<open>ldd3_snull_orig/snull.c\<close>, from which \<open>snull.c\<close> was derived.  Functions
  whose bodies are the same in both files are the definitions of \<open>Snull_Defs\<close> under their own
  names; the rest is written out.  The original has no echo replies: it sends each frame to the
  other interface with the third octet of both IP addresses toggled.
\<close>

section \<open>What the two files share\<close>

text \<open>The structures; the original has no \<open>pstNapi\<close>, which it leaves as it is.\<close>

type_synonym orig_packet = snull_packet
type_synonym orig_priv = snull_priv

text \<open>Its parameters are those of \<open>snull.c\<close>.\<close>

type_synonym orig_env = snull_env

text \<open>The functions with the same bodies.\<close>

definition orig_setup_pool :: "snull_env \<Rightarrow> devp \<Rightarrow> snull_state \<Rightarrow> snull_state res" where
  "orig_setup_pool = snull_setup_pool"
definition orig_teardown_pool :: "nat \<Rightarrow> devp \<Rightarrow> snull_state \<Rightarrow> snull_state res" where
  "orig_teardown_pool = snull_teardown_pool"
definition orig_get_tx_buffer :: "snull_env \<Rightarrow> devp \<Rightarrow> snull_state \<Rightarrow> (paddr \<times> snull_state) res" where
  "orig_get_tx_buffer = snull_get_tx_buffer"
definition orig_release_buffer :: "snull_env \<Rightarrow> paddr \<Rightarrow> snull_state \<Rightarrow> snull_state res" where
  "orig_release_buffer = snull_release_buffer"
definition orig_enqueue_buf :: "devp \<Rightarrow> paddr \<Rightarrow> snull_state \<Rightarrow> snull_state res" where
  "orig_enqueue_buf = snull_enqueue_buf"
definition orig_dequeue_buf :: "devp \<Rightarrow> snull_state \<Rightarrow> (paddr option \<times> snull_state) res" where
  "orig_dequeue_buf = snull_dequeue_buf"
definition orig_rx_ints :: "devp \<Rightarrow> int \<Rightarrow> snull_state \<Rightarrow> snull_state res" where
  "orig_rx_ints = snull_rx_ints"
definition orig_open :: "devp \<Rightarrow> snull_state \<Rightarrow> (int \<times> snull_state) res" where
  "orig_open = snull_open"
definition orig_release :: "devp \<Rightarrow> snull_state \<Rightarrow> (int \<times> snull_state) res" where
  "orig_release = snull_release"
definition orig_config :: "devp \<Rightarrow> ifmap \<Rightarrow> snull_state \<Rightarrow> (int \<times> snull_state) res" where
  "orig_config = snull_config"
definition orig_change_mtu :: "devp \<Rightarrow> int \<Rightarrow> snull_state \<Rightarrow> (int \<times> snull_state) res" where
  "orig_change_mtu = snull_change_mtu"
definition orig_ioctl :: "devp \<Rightarrow> int \<Rightarrow> snull_state \<Rightarrow> (int \<times> snull_state) res" where
  "orig_ioctl = snull_ioctl"
definition orig_stats :: "devp \<Rightarrow> snull_state \<Rightarrow> net_device_stats res" where
  "orig_stats = snull_stats"

lemmas orig_shared = orig_setup_pool_def orig_teardown_pool_def orig_get_tx_buffer_def orig_release_buffer_def
  orig_enqueue_buf_def orig_dequeue_buf_def orig_rx_ints_def orig_open_def orig_release_def

section \<open>Reception\<close>

definition orig_rx :: "snull_env \<Rightarrow> devp \<Rightarrow> paddr \<Rightarrow> snull_state \<Rightarrow> snull_state res" where
  "orig_rx E d p s =
     bind_res (get_pkt s (Some p)) (\<lambda>k.
       let ok = k_dev_alloc_skb E (ktrace s) (datalen k + 2);
           s1 = emit (DevAllocSkb (datalen k + 2) ok) s
       in if \<not> ok
          then upd_stats d (\<lambda>st. st\<lparr>rx_dropped := rx_dropped st + 1\<rparr>) s1
          else bind_res (build_skb E d k) (\<lambda>skb.
               bind_res (count_rx d (datalen k) s1) (\<lambda>s2. Inr (emit (NetifRx skb) s2))))"

text \<open>Polling: also the values left in \<open>*budget\<close> and \<open>dev->quota\<close>.\<close>

definition orig_poll :: "snull_env \<Rightarrow> nat \<Rightarrow> devp \<Rightarrow> int \<Rightarrow> snull_state \<Rightarrow> (int \<times> int \<times> snull_state) res" where
  "orig_poll E fuel d budget s =
     bind_res (get_dev s d) (\<lambda>nd.
     bind_res (poll_loop E d (min (dev_quota nd) budget) fuel 0 s) (\<lambda>(npackets, s1).
     bind_res (upd_dev d (\<lambda>nd. nd\<lparr>dev_quota := dev_quota nd - npackets\<rparr>) s1) (\<lambda>s2.
     bind_res (netdev_priv s2 d) (\<lambda>pr.
       if rx_queue pr = None
       then bind_res (orig_rx_ints d 1 (emit (NetifRxComplete d) s2)) (\<lambda>s3. Inr (0, budget - npackets, s3))
       else Inr (1, budget - npackets, s2)))))"

section \<open>Interrupts\<close>

definition orig_regular_interrupt :: "snull_env \<Rightarrow> devp option \<Rightarrow> snull_state \<Rightarrow> snull_state res" where
  "orig_regular_interrupt E dev_id s =
     (case dev_id of None \<Rightarrow> Inr s | Some d \<Rightarrow>
       bind_res (spin_lock d s) (\<lambda>s1.
       bind_res (netdev_priv s1 d) (\<lambda>pr.
         let statusword = status pr; pkt = rx_queue pr in
       bind_res (upd_priv d (\<lambda>pr. pr\<lparr>status := 0\<rparr>) s1) (\<lambda>s2.
       bind_res (if statusword AND SNULL_RX_INTR \<noteq> 0
                 then (case pkt of None \<Rightarrow> Inr s2 | Some p \<Rightarrow>
                        bind_res (get_pkt s2 (Some p)) (\<lambda>k.
                        bind_res (upd_priv d (\<lambda>pr. pr\<lparr>rx_queue := pkt_next k\<rparr>) s2) (\<lambda>s3.
                        orig_rx E d p s3)))
                 else Inr s2) (\<lambda>s4.
       bind_res (if statusword AND SNULL_TX_INTR \<noteq> 0 then tx_done d s4 else Inr s4) (\<lambda>s5.
       bind_res (spin_unlock d s5) (\<lambda>s6.
         if statusword AND SNULL_RX_INTR \<noteq> 0
         then (case pkt of None \<Rightarrow> Inr s6 | Some p \<Rightarrow> orig_release_buffer E p s6)
         else Inr s6)))))))"

definition orig_napi_interrupt :: "snull_env \<Rightarrow> devp option \<Rightarrow> snull_state \<Rightarrow> snull_state res" where
  "orig_napi_interrupt E dev_id s =
     (case dev_id of None \<Rightarrow> Inr s | Some d \<Rightarrow>
       bind_res (spin_lock d s) (\<lambda>s1.
       bind_res (netdev_priv s1 d) (\<lambda>pr.
         let statusword = status pr in
       bind_res (upd_priv d (\<lambda>pr. pr\<lparr>status := 0\<rparr>) s1) (\<lambda>s2.
       bind_res (if statusword AND SNULL_RX_INTR \<noteq> 0
                 then bind_res (orig_rx_ints d 0 s2) (\<lambda>s3. Inr (emit (NetifRxSchedule d) s3))
                 else Inr s2) (\<lambda>s3.
       bind_res (if statusword AND SNULL_TX_INTR \<noteq> 0 then tx_done d s3 else Inr s3) (\<lambda>s4.
       spin_unlock d s4))))))"

definition orig_raise_interrupt :: "snull_env \<Rightarrow> devp \<Rightarrow> snull_state \<Rightarrow> snull_state res" where
  "orig_raise_interrupt E d s =
     (case snull_interrupt s of
        None \<Rightarrow> Inl NullDeref
      | Some RegularInterrupt \<Rightarrow> orig_regular_interrupt E (Some d) s
      | Some NapiInterrupt \<Rightarrow> orig_napi_interrupt E (Some d) s)"

section \<open>Transmission\<close>

text \<open>The third octets of source and destination address.\<close>

definition orig_toggle :: "byte list \<Rightarrow> byte list res" where
  "orig_toggle buf =
     bind_res (mem_read buf (ETH_HLEN + 12 + 2)) (\<lambda>x.
     bind_res (mem_write buf (ETH_HLEN + 12 + 2) (x XOR 1)) (\<lambda>b1.
     bind_res (mem_read b1 (ETH_HLEN + 16 + 2)) (\<lambda>y.
     mem_write b1 (ETH_HLEN + 16 + 2) (y XOR 1))))"

definition orig_tx_complete :: "snull_env \<Rightarrow> bufp \<Rightarrow> int \<Rightarrow> devp \<Rightarrow> snull_state \<Rightarrow> snull_state res" where
  "orig_tx_complete E buf len d s =
     bind_res (upd_priv d (\<lambda>pr. pr\<lparr>tx_packetlen := len, tx_packetdata := Some buf,
                                   status := status pr OR SNULL_TX_INTR\<rparr>) s) (\<lambda>s1.
     bind_res (netdev_priv s1 d) (\<lambda>pr.
       if lockup E \<noteq> 0 \<and> uint (tx_packets (stats pr) + 1) mod c_ulong (lockup E) = 0
       then Inr (emit (StopQueue d) s1)
       else orig_raise_interrupt E d s1))"

definition orig_hw_tx :: "snull_env \<Rightarrow> bufp \<Rightarrow> int \<Rightarrow> devp \<Rightarrow> snull_state \<Rightarrow> snull_state res" where
  "orig_hw_tx E buf len d s =
     (if c_ulong len < int (ETH_HLEN + SIZEOF_IPHDR) then Inr s else
      bind_res (load_buf s buf) (\<lambda>b0.
      bind_res (orig_toggle b0) (\<lambda>b1.
      bind_res (hw_tx_csum E b1) (\<lambda>b2.
      bind_res (store_buf buf b2 s) (\<lambda>s1.
      (case snull_devs s1 (if snull_devs s1 0 = Some d then 1 else 0) of None \<Rightarrow> Inl NullDeref | Some dest \<Rightarrow>
        bind_res (orig_get_tx_buffer E d s1) (\<lambda>(p, s2).
        bind_res (upd_pkt p (\<lambda>k. k\<lparr>datalen := len\<rparr>) s2) (\<lambda>s3.
        bind_res (get_pkt s3 (Some p)) (\<lambda>k.
        bind_res (mem_copy b2 len) (\<lambda>bytes.
        bind_res (mem_store (pkt_data k) 0 bytes) (\<lambda>da.
        bind_res (upd_pkt p (\<lambda>k. k\<lparr>pkt_data := da\<rparr>) s3) (\<lambda>s4.
        bind_res (orig_enqueue_buf dest p s4) (\<lambda>s5.
        bind_res (netdev_priv s5 dest) (\<lambda>pr.
        bind_res (if rx_int_enabled pr \<noteq> 0
                  then bind_res (upd_priv dest (\<lambda>pr. pr\<lparr>status := status pr OR SNULL_RX_INTR\<rparr>) s5)
                         (orig_raise_interrupt E dest)
                  else Inr s5) (\<lambda>s6.
        orig_tx_complete E buf len d s6)))))))))))))))"

text \<open>Unlike its successor \<open>orig_tx\<close> remembers the skb without taking the lock.\<close>

definition orig_tx :: "snull_env \<Rightarrow> skbp \<Rightarrow> devp \<Rightarrow> snull_state \<Rightarrow> (int \<times> snull_state) res" where
  "orig_tx E q d s =
     bind_res (load_buf s (SkbData q)) (\<lambda>bytes.
       let len = c_int (int (length bytes)) in
     bind_res (if len < int ETH_ZLEN
               then bind_res (mem_store (replicate ETH_ZLEN 0) 0 bytes) (\<lambda>sp.
                    Inr (ShortPkt, int ETH_ZLEN, s\<lparr>shortpkt := sp\<rparr>))
               else Inr (SkbData q, len, s)) (\<lambda>(data, len', s1).
     bind_res (upd_dev d (\<lambda>nd. nd\<lparr>trans_start := k_jiffies E (ktrace s1)\<rparr>) s1) (\<lambda>s2.
     bind_res (upd_priv d (\<lambda>pr. pr\<lparr>priv_skb := Some q\<rparr>) s2) (\<lambda>s3.
     bind_res (orig_hw_tx E data len' d s3) (\<lambda>s4. Inr (0, s4))))))"

definition orig_tx_timeout :: "snull_env \<Rightarrow> devp \<Rightarrow> snull_state \<Rightarrow> snull_state res" where
  "orig_tx_timeout E d s =
     bind_res (upd_priv d (\<lambda>pr. pr\<lparr>status := SNULL_TX_INTR\<rparr>) s) (\<lambda>s1.
     bind_res (orig_raise_interrupt E d s1) (\<lambda>s2.
     bind_res (upd_stats d (\<lambda>st. st\<lparr>tx_errors := tx_errors st + 1\<rparr>) s2) (\<lambda>s3.
     Inr (emit (WakeQueue d) s3))))"

section \<open>Ethernet headers\<close>

text \<open>\<open>ether_setup\<close> sets the address length to \<open>ETH_ALEN\<close> and the header length to \<open>ETH_HLEN\<close>.\<close>

definition orig_rebuild_header :: "skbp \<Rightarrow> snull_state \<Rightarrow> (int \<times> snull_state) res" where
  "orig_rebuild_header q s =
     (case skbs s q of None \<Rightarrow> Inl BadPointer | Some skb \<Rightarrow>
       (case skb_dev skb of None \<Rightarrow> Inl NullDeref | Some d \<Rightarrow>
         bind_res (get_dev s d) (\<lambda>nd.
         bind_res (mem_store (skb_data skb) 6 (take ETH_ALEN (dev_addr nd))) (\<lambda>b1.
         bind_res (mem_store b1 0 (take ETH_ALEN (dev_addr nd))) (\<lambda>b2.
         bind_res (mem_read b2 (ETH_ALEN - 1)) (\<lambda>x.
         bind_res (mem_write b2 (ETH_ALEN - 1) (x XOR 0x01)) (\<lambda>b3.
         Inr (0, s\<lparr>skbs := (skbs s)(q \<mapsto> skb\<lparr>skb_data := b3\<rparr>)\<rparr>))))))))"

text \<open>\<open>skb_push\<close> is a BUG without enough headroom; \<open>saddr\<close> and \<open>daddr\<close> may be NULL.\<close>

definition orig_header :: "nat \<Rightarrow> skbp \<Rightarrow> devp \<Rightarrow> 16 word \<Rightarrow> byte list option \<Rightarrow> byte list option \<Rightarrow>
    snull_state \<Rightarrow> (int \<times> snull_state) res" where
  "orig_header headroom q d ty daddr saddr s =
     (if headroom < ETH_HLEN then Inl KernelBug else
      case skbs s q of None \<Rightarrow> Inl BadPointer | Some skb \<Rightarrow>
        bind_res (get_dev s d) (\<lambda>nd.
        let b0 = replicate ETH_HLEN 0 @ skb_data skb;
            src = (case saddr of None \<Rightarrow> dev_addr nd | Some a \<Rightarrow> a);
            dst = (case daddr of None \<Rightarrow> dev_addr nd | Some a \<Rightarrow> a) in
        bind_res (mem_store b0 12 [ucast (drop_bit 8 ty), ucast ty]) (\<lambda>b1.
        bind_res (mem_store b1 6 (take ETH_ALEN src)) (\<lambda>b2.
        bind_res (mem_store b2 0 (take ETH_ALEN dst)) (\<lambda>b3.
        bind_res (mem_read b3 (ETH_ALEN - 1)) (\<lambda>x.
        bind_res (mem_write b3 (ETH_ALEN - 1) (x XOR 0x01)) (\<lambda>b4.
        Inr (int ETH_HLEN, s\<lparr>skbs := (skbs s)(q \<mapsto> skb\<lparr>skb_data := b4\<rparr>)\<rparr>))))))))"

section \<open>Loading and unloading\<close>

definition NETIF_F_NO_CSUM :: "32 word" where "NETIF_F_NO_CSUM = 4"

definition orig_init :: "snull_env \<Rightarrow> devp \<Rightarrow> snull_state \<Rightarrow> snull_state res" where
  "orig_init E d s =
     bind_res (upd_dev d (k_ether_setup E) s) (\<lambda>s1.
     bind_res (upd_dev d (\<lambda>nd. nd\<lparr>netdev_ops_set := True, watchdog_timeo := timeout E\<rparr>) s1) (\<lambda>s2.
     bind_res (if use_napi E \<noteq> 0 then upd_dev d (\<lambda>nd. nd\<lparr>poll_set := True, dev_weight := 2\<rparr>) s2 else Inr s2) (\<lambda>s3.
     bind_res (upd_dev d (\<lambda>nd. nd\<lparr>dev_flags := dev_flags nd OR IFF_NOARP,
                 dev_features := dev_features nd OR NETIF_F_NO_CSUM\<rparr>) s3) (\<lambda>s4.
     bind_res (upd_priv d (\<lambda>_. zero_priv) s4) (\<lambda>s5.
     bind_res (orig_rx_ints d 1 s5) (orig_setup_pool E d))))))"

definition orig_alloc_netdev :: "snull_env \<Rightarrow> snull_state \<Rightarrow> (devp option \<times> snull_state) res" where
  "orig_alloc_netdev E s =
     (case k_alloc_netdev E (ktrace s) of
        None \<Rightarrow> Inr (None, emit (AllocNetdev None) s)
      | Some (d, blank) \<Rightarrow>
          bind_res (orig_init E d ((emit (AllocNetdev (Some d)) s)
                      \<lparr>netdevs := (netdevs s)(d \<mapsto> blank)\<rparr>)) (\<lambda>s1. Inr (Some d, s1)))"

definition orig_cleanup :: "nat \<Rightarrow> snull_state \<Rightarrow> snull_state res" where
  "orig_cleanup = snull_cleanup"

definition orig_init_module :: "snull_env \<Rightarrow> nat \<Rightarrow> snull_state \<Rightarrow> (int \<times> snull_state) res" where
  "orig_init_module E fuel s =
     (let s0 = s\<lparr>snull_interrupt := Some (if use_napi E \<noteq> 0 then NapiInterrupt else RegularInterrupt)\<rparr> in
      bind_res (orig_alloc_netdev E s0) (\<lambda>(d0, s1).
        let s2 = s1\<lparr>snull_devs := (snull_devs s1)(0 := d0)\<rparr> in
      bind_res (orig_alloc_netdev E s2) (\<lambda>(d1, s3).
        let s4 = s3\<lparr>snull_devs := (snull_devs s3)(1 := d1)\<rparr> in
      bind_res (if snull_devs s4 0 = None \<or> snull_devs s4 1 = None then Inr (- ENOMEM, s4)
                else bind_res (register_dev E 0 (- ENODEV, s4)) (register_dev E 1)) (\<lambda>(ret, s5).
      if ret \<noteq> 0 then bind_res (orig_cleanup fuel s5) (\<lambda>s6. Inr (ret, s6))
      else Inr (ret, s5)))))"

end
