(* ===== verification/Snull_Orig_Claims.thy ===== *)
theory Snull_Orig_Claims
  imports Snull_Orig Snull_Publics
begin

text \<open>
  What the original driver does, mostly by comparison with \<open>snull.c\<close>: transmission, polling,
  Ethernet headers, loading.
\<close>

section \<open>Toggled addresses\<close>

definition toggle_frame :: "byte list \<Rightarrow> byte list" where
  "toggle_frame b = b[28 := b ! 28 XOR 1, 32 := b ! 32 XOR 1]"

lemma length_toggle_frame [simp]: "length (toggle_frame b) = length b"
  by (simp add: toggle_frame_def)

lemma nth_toggle_frame: "i \<noteq> 28 \<Longrightarrow> i \<noteq> 32 \<Longrightarrow> toggle_frame b ! i = b ! i"
  by (simp add: toggle_frame_def)

lemma orig_toggle_eq: "33 \<le> length b \<Longrightarrow> orig_toggle b = Inr (toggle_frame b)"
  by (simp add: orig_toggle_def toggle_frame_def frame_consts)

lemma frame_kind_toggle: "frame_kind (toggle_frame b) = frame_kind b"
  by (simp add: frame_kind_def nth_toggle_frame)

section \<open>The two interrupt handlers\<close>

text \<open>A packet whose payload is no echo request is received alike by both drivers.\<close>

definition plain_body :: "snull_env \<Rightarrow> devp \<Rightarrow> snull_packet \<Rightarrow> bool" where
  "plain_body E d k \<longleftrightarrow> (\<forall>skb. build_skb E d k = Inr skb \<longrightarrow> icmp_fixup (skb_data skb) = Inr (skb_data skb))"

lemma orig_rx_eq:
  assumes "pkts s p = Some k" and "plain_body E d k"
  shows "orig_rx E d p s = snull_rx E d p s"
  using assms by (cases "build_skb E d k")
    (auto simp: orig_rx_def snull_rx_def plain_body_def get_pkt_eq Let_def intro!: arg_cong2 [where f = bind_res])

lemma orig_interrupt_eq:
  assumes "priv_of s e = Some pr"
    and "\<And>p k. status pr AND SNULL_RX_INTR \<noteq> 0 \<Longrightarrow> rx_queue pr = Some p \<Longrightarrow> pkts s p = Some k \<Longrightarrow> plain_body E e k"
  shows "orig_regular_interrupt E (Some e) s = snull_regular_interrupt E (Some e) s"
proof (cases "lock pr \<or> status pr AND SNULL_RX_INTR = 0 \<or> rx_queue pr = None")
  case True
  then consider "lock pr" | "\<not> lock pr" "status pr AND SNULL_RX_INTR = 0"
    | "\<not> lock pr" "rx_queue pr = None" by argo
  then show ?thesis
    by cases (use assms(1) in \<open>simp_all add: Let_def spin_lock_def orig_regular_interrupt_def snull_regular_interrupt_def snull_ops snull_state\<close>)
next
  case False
  then obtain p where *: "\<not> lock pr" "status pr AND SNULL_RX_INTR \<noteq> 0" "rx_queue pr = Some p" by blast
  show ?thesis
  proof (cases "pkts s p")
    case None
    then show ?thesis
      using assms(1) *
      by (simp add: orig_regular_interrupt_def snull_regular_interrupt_def get_pkt_def snull_ops snull_state)
  next
    case (Some k)
    have "orig_rx E e p (set_priv e f s) = snull_rx E e p (set_priv e f s)" for f
      using Some assms(2) [OF *(2,3) Some] by (intro orig_rx_eq [where k = k]) (simp_all add: snull_state)
    then show ?thesis
      using assms(1) * Some
      by (simp add: orig_regular_interrupt_def snull_regular_interrupt_def orig_shared snull_ops snull_state)
  qed
qed

section \<open>Transmission\<close>

lemma orig_raise_eq:
  assumes "snull_interrupt s = Some RegularInterrupt" and "priv_of s e = Some pr"
    and "\<And>p k. status pr AND SNULL_RX_INTR \<noteq> 0 \<Longrightarrow> rx_queue pr = Some p \<Longrightarrow> pkts s p = Some k \<Longrightarrow> plain_body E e k"
  shows "orig_raise_interrupt E e s = raise_interrupt E e s"
  using assms(1) orig_interrupt_eq [OF assms(2,3)]
  by (simp add: orig_raise_interrupt_def raise_interrupt_def)

text \<open>A frame that is no ping, once sent, is no echo request for the receiver.\<close>

lemma plain_body_frame:
  assumes "eth_type_trans_law E" and "60 \<le> length b" and "\<not> is_ping (frame_kind b)"
    and "datalen k = int (length b)" and "take (length b) (pkt_data k) = tx_frame E b" and "length b \<le> length (pkt_data k)"
  shows "plain_body E e k"
  unfolding plain_body_def
proof (intro allI impI)
  fix skb assume "build_skb E e k = Inr skb"
  then have skb: "skb_data skb = drop 14 (tx_frame E b)"
    using assms(1,4-6) by (auto simp: build_skb_def eth_type_trans_law_def frame_consts split_beta)
  have "\<not> (b ! 34 = ICMP_ECHO \<and> b ! 35 = 0)"
    using assms(3) frame_kind_echo [of b] by (auto simp: is_ping_def)
  then have "icmp_reply (skb_data skb) = skb_data skb"
    using skb tx_frame_type [of b E] assms(2) by (auto simp: icmp_reply_def length_tx_frame)
  then show "icmp_fixup (skb_data skb) = Inr (skb_data skb)"
    using skb assms(2) by (simp add: icmp_fixup_eq length_tx_frame)
qed

lemma orig_tx_complete_eq:
  assumes "snull_interrupt s = Some RegularInterrupt" and "priv_of s d = Some pr" and "status pr = 0"
  shows "orig_tx_complete E buf n d s = hw_tx_complete E buf n d s"
proof -
  let ?f = "\<lambda>pr. pr\<lparr>tx_packetlen := n, tx_packetdata := Some buf, status := status pr OR SNULL_TX_INTR\<rparr>"
  have "orig_raise_interrupt E d (set_priv d ?f s) = raise_interrupt E d (set_priv d ?f s)"
    using assms by (intro orig_raise_eq [where pr = "?f pr"])
      (simp_all add: snull_state SNULL_RX_INTR_def SNULL_TX_INTR_def)
  then show ?thesis
    using upd_priv_eq [OF assms(2)] by (simp add: orig_tx_complete_def hw_tx_complete_def cong: if_cong)
qed

text \<open>The frame the receiver finds: addresses toggled, checksum computed anew.\<close>

definition toggled_frame :: "snull_env \<Rightarrow> byte list \<Rightarrow> byte list" where
  "toggled_frame E b = set_check (toggle_frame b) (ip_check E (toggle_frame b))"

lemma length_toggled_frame: "39 \<le> length b \<Longrightarrow> length (toggled_frame E b) = length b"
  by (simp add: toggled_frame_def)

lemma orig_hw_tx_frame:
  assumes "load_buf s buf = Inr b" and "60 \<le> length b" and "length b \<le> ETH_DATA_LEN"
    and "store_buf buf (toggled_frame E b) s = Inr s1"
    and "snull_devs s1 (if snull_devs s1 0 = Some d then 1 else 0) = Some e"
  shows "orig_hw_tx E buf (int (length b)) d s = hw_rest E (orig_raise_interrupt E)
     (orig_tx_complete E buf (int (length b)) d) (int (length b)) d (toggled_frame E b) e s1"
proof -
  have "orig_toggle b = Inr (toggle_frame b)" "hw_tx_csum E (toggle_frame b) = Inr (toggled_frame E b)"
    using assms(2) by (simp_all add: orig_toggle_eq hw_tx_csum_eq toggled_frame_def)
  moreover have "\<not> c_ulong (int (length b)) < int (ETH_HLEN + SIZEOF_IPHDR)"
    using assms(2,3) by (simp add: c_ulong_id frame_consts)
  ultimately show ?thesis
    using assms by (simp add: orig_hw_tx_def hw_rest_def orig_shared)
qed

lemma orig_hw_tx_rest:
  assumes "load_buf s buf = Inr b0" and "b = toggle_frame b0" and "60 \<le> length b" and "length b \<le> ETH_DATA_LEN"
    and "\<not> is_ping (frame_kind b)"
    and "store_buf buf (tx_frame E b) s = Inr s1" and "hw_tx_dest s1 (frame_kind b) d = Some e"
  shows "orig_hw_tx E buf (int (length b)) d s = hw_rest E (orig_raise_interrupt E)
     (orig_tx_complete E buf (int (length b)) d) (int (length b)) d (tx_frame E b) e s1"
proof -
  have f: "toggled_frame E b0 = tx_frame E b" and l: "length b = length b0"
    using assms(2,5) by (simp_all add: toggled_frame_def tx_frame_def Let_def)
  show ?thesis
    using orig_hw_tx_frame [of s buf b0 E s1 d e] assms(1,3-7) unfolding f l by (simp add: hw_tx_dest_def)
qed

lemma orig_tx_pad:
  assumes "skbs s q = Some kq" and "b = skb_data kq" and "length b < 2 ^ 31" and "priv_of s d = Some pr"
  shows "orig_tx E q d s = bind_res (orig_hw_tx E (tx_buf q b) (int (length (pad_frame b))) d (tx_entry E q d b s))
     (\<lambda>s'. Inr (0, s'))"
proof -
  have sp: "s\<lparr>shortpkt := x\<rparr> = set_short x s" for x by (simp add: set_short_def)
  show ?thesis
  proof (cases "length b < ETH_ZLEN")
    case True
    then have "length b < 60" "length (pad_frame b) = ETH_ZLEN"
      by (simp_all add: length_pad_frame frame_consts)
    with True assms show ?thesis
      by (simp add: orig_tx_def Let_def tx_entry_def tx_buf_def snull_ops snull_state shortpkt_pad sp
          del: mem_store_ok)
  next
    case False
    then have "pad_frame b = b" by (simp add: pad_frame_def)
    with False assms show ?thesis
      by (simp add: orig_tx_def Let_def tx_entry_def tx_buf_def snull_ops snull_state)
  qed
qed

lemma orig_tx_eq:
  assumes "skbs s q = Some kq" and "b = skb_data kq" and "60 \<le> length b" and "length b < 2 ^ 31"
    and "priv_of s d = Some pr"
  shows "orig_tx E q d s = bind_res (orig_hw_tx E (SkbData q) (int (length b)) d (tx_entry E q d b s)) (\<lambda>s'. Inr (0, s'))"
  using orig_tx_pad [OF assms(1,2,4,5)] assms(3) by (simp add: tx_buf_def pad_frame_def frame_consts)

lemma set_skb_twice: "set_skb q x (set_skb q y s) = set_skb q x s"
  by (simp add: set_skb_def)

lemma tx_entry_toggled:
  "60 \<le> length b \<Longrightarrow> tx_entry E q d (toggle_frame b) (set_skb q x s) = set_skb q x (tx_entry E q d b s)"
  by (simp add: tx_entry_def frame_consts snull_state set_skb_def set_dev_def set_priv_def fun_eq_iff)

text \<open>The hardware part of a transmission, on a frame and on the frame with toggled addresses.\<close>

lemma orig_hw_tx_equiv:
  assumes "tx_ready E s d0 d1 P d q b" and "60 \<le> length b" and "\<not> is_ping (frame_kind b)" and "skbs s q = Some kq"
  shows "orig_hw_tx E (SkbData q) (int (length b)) d (tx_entry E q d b s)
     = snull_hw_tx E (SkbData q) (int (length b)) d (set_skb q (Some (kq\<lparr>skb_data := toggle_frame b\<rparr>)) (tx_entry E q d b s))"
proof -
  let ?b = "toggle_frame b" and ?n = "int (length b)" and ?t = "tx_entry E q d b s"
  let ?t' = "set_skb q (Some (kq\<lparr>skb_data := toggle_frame b\<rparr>)) ?t"
  from assms(1,4) have a: "snull_quiet s d0 d1 P" "d = d0 \<or> d = d1" "eth_type_trans_law E"
      "b = skb_data kq" "length b \<le> ETH_DATA_LEN" by (auto simp: tx_ready_def)
  from a(1,2) obtain pr where pr: "priv_of s d = Some pr" "quiet_priv pr"
    by (auto simp: snull_quiet_def dev_quiet_def)
  from a(1,2) obtain p ps k where pool: "P d = p # ps" "pkts s p = Some k"
    by (auto simp: snull_quiet_def dev_quiet_def pool_holds_def neq_Nil_conv)
  have len: "60 \<le> length ?b" "length ?b \<le> ETH_DATA_LEN"
    using assms(2) a(5) by (simp_all add: frame_consts)
  have quiet: "snull_quiet ?t' d0 d1 P"
    using snull_quiet_entry [OF a(1)] by (simp add: snull_quiet_def dev_quiet_def pool_holds_def full_data_def snull_state)
  have load: "load_buf ?t' (SkbData q) = Inr ?b" by (simp add: snull_ops snull_state)
  have kind: "\<not> is_ping (frame_kind ?b)" using assms(3) by (simp add: frame_kind_toggle)
  obtain s1 s5 s6 kx prx where h: "store_buf (SkbData q) (tx_frame E ?b) ?t' = Inr s1"
    "hw_tx_dest s1 (frame_kind ?b) d = Some (rx_dev d0 d1 d ?b)"
    "\<And>intr fin. hw_rest E intr fin (int (length ?b)) d (tx_frame E ?b) (rx_dev d0 d1 d ?b) s1 = bind_res (intr (rx_dev d0 d1 d ?b) s5) fin"
    "raise_interrupt E (rx_dev d0 d1 d ?b) s5 = Inr s6" "snull_interrupt s5 = Some RegularInterrupt"
    "priv_of s5 (rx_dev d0 d1 d ?b) = Some prx" "rx_queue prx = Some p" "pkts s5 p = Some kx"
    "datalen kx = int (length ?b)" "take (length ?b) (pkt_data kx) = tx_frame E ?b" "length ?b \<le> length (pkt_data kx)"
    "priv_of s6 = mid_privs E d (rx_dev d0 d1 d ?b) (P d) ?b (ktrace ?t') (priv_of ?t')"
    "snull_interrupt s6 = Some RegularInterrupt"
    by (rule hw_rest_mid [OF quiet a(2,3) load len(1,2) _ refl pool(1)]) (use pool(2) in \<open>auto simp: snull_state\<close>)
  obtain pr6 where pr6: "priv_of s6 d = Some pr6" "status pr6 = 0"
    using pr by (cases "d = rx_dev d0 d1 d ?b") (auto simp: h(12) mid_privs_def snull_state quiet_priv_def)
  have intr: "orig_raise_interrupt E (rx_dev d0 d1 d ?b) s5 = Inr s6"
    unfolding h(4) [symmetric] using plain_body_frame [OF a(3) len(1) kind h(9-11)] h(7,8)
    by (intro orig_raise_eq [OF h(5,6)]) simp
  have fin: "orig_tx_complete E buf n d s6 = hw_tx_complete E buf n d s6" for buf n
    by (rule orig_tx_complete_eq [OF h(13) pr6])
  have store: "store_buf (SkbData q) (tx_frame E ?b) ?t = Inr s1"
    using h(1) assms(2,4) by (simp add: set_skb_twice snull_ops snull_state)
  show ?thesis
    using orig_hw_tx_rest [OF _ refl len(1,2) kind store h(2)] snull_hw_tx_rest [OF load len(1,2) h(1,2)]
      tx_buf_entry [OF assms(4) a(4)] assms(2) h(3,4) intr fin
    by (simp add: tx_buf_def frame_consts pad_frame_def)
qed



section \<open>Polling\<close>

definition quotas :: "snull_state \<Rightarrow> devp \<Rightarrow> int option" where
  "quotas s d = map_option dev_quota (netdevs s d)"

lemma same_bufs_set_dev: "(\<And>nd. dev_priv (f nd) = dev_priv nd) \<Longrightarrow> same_bufs s (set_dev d f s)"
  by (simp add: same_bufs_def snull_state)

lemma quotas_poll_loop: "poll_loop E d n fuel m s = Inr (r, s') \<Longrightarrow> quotas s' = quotas s"
  by (simp add: quotas_def fun_eq_iff publics_map [OF publics_poll_loop])

text \<open>What the loop's result becomes: an emptied queue is reported and receive interrupts are enabled.\<close>

lemma orig_poll_run:
  assumes loop: "poll_loop E d (min quota budget) fuel 0 s = Inr (n, s1)" and quota: "quotas s d = Some quota"
    and ok: "bufs_ok s1 d rs P"
  obtains s' where "orig_poll E fuel d budget s = Inr (if rs = [] then 0 else 1, budget - n, s')"
    "quotas s' d = Some (quota - n)" "pkts s' = pkts s1" "same_bufs s1 s'"
    "ktrace s' = (if rs = [] then [NetifRxComplete d] else []) @ ktrace s1"
    "priv_of s' = (if rs = [] then (priv_of s1)(d := map_option (\<lambda>pr. pr\<lparr>rx_int_enabled := 1\<rparr>) (priv_of s1 d)) else priv_of s1)"
    "snull_devs s' = snull_devs s1" "snull_interrupt s' = snull_interrupt s1" "skbs s' = skbs s1"
proof -
  let ?s2 = "set_dev d (\<lambda>nd. nd\<lparr>dev_quota := dev_quota nd - n\<rparr>) s1"
  have "quotas s1 d = Some quota" using quota quotas_poll_loop [OF loop] by simp
  then have q2: "quotas ?s2 d = Some (quota - n)" by (auto simp: quotas_def snull_state)
  from ok obtain pr where pr: "priv_of s1 d = Some pr" and q: "rx_queue pr = None \<longleftrightarrow> rs = []"
    by (auto simp: bufs_ok_def rx_holds_def dest: chain_head)
  have v2: "priv_of ?s2 = priv_of s1" by (simp add: snull_state)
  have s2: "upd_dev d (\<lambda>nd. nd\<lparr>dev_quota := dev_quota nd - n\<rparr>) s1 = Inr ?s2" "netdev_priv ?s2 d = Inr pr"
    using pr by (simp_all add: snull_ops snull_state)
  from quota obtain nd where "get_dev s d = Inr nd" "dev_quota nd = quota"
    by (auto simp: quotas_def get_dev_def)
  then have run: "orig_poll E fuel d budget s =
      (if rs = [] then bind_res (orig_rx_ints d 1 (emit (NetifRxComplete d) ?s2)) (\<lambda>s3. Inr (0, budget - n, s3))
       else Inr (1, budget - n, ?s2))"
    using loop s2 q by (simp add: orig_poll_def)
  have same: "same_bufs s1 ?s2" by (rule same_bufs_set_dev) simp
  show thesis
  proof (cases "rs = []")
    case False
    then show thesis using run q2 same v2 by (intro that [of ?s2]) (simp_all add: snull_state)
  next
    case True
    let ?s3 = "set_priv d (\<lambda>pr. pr\<lparr>rx_int_enabled := 1\<rparr>) (emit (NetifRxComplete d) ?s2)"
    have ints: "orig_rx_ints d 1 (emit (NetifRxComplete d) ?s2) = Inr ?s3"
      using pr by (simp add: orig_shared snull_rx_ints_def snull_ops snull_state)
    have v3: "priv_of ?s3 = (priv_of s1)(d := map_option (\<lambda>pr. pr\<lparr>rx_int_enabled := 1\<rparr>) (priv_of s1 d))"
      by (simp add: snull_state fun_eq_iff)
    have "same_bufs s1 ?s3" using same v3 by (auto simp: same_bufs_def snull_state option.map_comp comp_def)
    moreover have "quotas ?s3 d = Some (quota - n)"
      using q2 by (auto simp: quotas_def snull_state set_priv_def emit_def)
    ultimately show thesis using True run ints v3 by (intro that [of ?s3]) (simp_all add: snull_state)
  qed
qed



section \<open>Ethernet headers\<close>

text \<open>
  On a device that has been opened, \<open>snull_header\<close> puts 14 bytes before the data: the address of
  the twin, the own address and the protocol in network order; \<open>snull_rebuild_header\<close> on the result
  changes nothing.  Without headroom \<open>skb_push\<close> stops the kernel.
\<close>

theorem orig_header_twin:
  assumes "netdevs s d = Some nd" and "dev_addr nd = snul x" and "skbs s q = Some skb" and "skb_dev skb = Some d"
  shows "if room < 14 then orig_header room q d ty None None s = Inl KernelBug
    else \<exists>s'. orig_header room q d ty None None s = Inr (14, s')
     \<and> skbs s' = (skbs s)(q \<mapsto> skb\<lparr>skb_data := snul (x XOR 1) @ snul x @ [ucast (drop_bit 8 ty), ucast ty] @ skb_data skb\<rparr>)
     \<and> orig_rebuild_header q s' = Inr (0, s') \<and> netdevs s' = netdevs s"
proof -
  have rep: "replicate 14 (0 :: byte) = [0,0,0,0,0,0,0,0,0,0,0,0,0,0]" by (simp add: numeral_eq_Suc)
  let ?h = "snul (x XOR 1) @ snul x @ [ucast (drop_bit 8 ty), ucast ty] @ skb_data skb"
  have "orig_header room q d ty None None s = Inr (14, s\<lparr>skbs := (skbs s)(q \<mapsto> skb\<lparr>skb_data := ?h\<rparr>)\<rparr>)" if "\<not> room < 14"
    using assms that by (simp add: orig_header_def get_dev_def rep snul_def frame_consts)
  moreover have "orig_rebuild_header q (s\<lparr>skbs := (skbs s)(q \<mapsto> skb\<lparr>skb_data := ?h\<rparr>)\<rparr>)
      = Inr (0, s\<lparr>skbs := (skbs s)(q \<mapsto> skb\<lparr>skb_data := ?h\<rparr>)\<rparr>)"
    using assms by (simp add: orig_rebuild_header_def get_dev_def snul_def frame_consts)
  ultimately show ?thesis by (simp add: orig_header_def frame_consts)
qed

lemma orig_header_twin_witness:
  "\<exists>s0 s1 s'. orig_open 101 demo_state = Inr (0, s0) \<and> orig_open 102 s0 = Inr (0, s1)
     \<and> orig_header 16 7 102 0x0800 None None (set_skb 7 (Some \<lparr>skb_data = [1, 2], skb_dev = Some 102,
          skb_protocol = 0, skb_csum_unnecessary = False\<rparr>) s1) = Inr (14, s')
     \<and> map_option skb_data (skbs s' 7) = Some (snul 0x30 @ snul 0x31 @ [8, 0] @ [1, 2])"
proof -
  let ?k = "\<lparr>skb_data = [1, 2], skb_dev = Some 102, skb_protocol = 0, skb_csum_unnecessary = False\<rparr>"
  obtain s0 s1 where o: "orig_open 101 demo_state = Inr (0, s0)" "orig_open 102 s0 = Inr (0, s1)"
      "map_option dev_addr (netdevs s1 102) = Some (snul 0x31)"
    by (auto simp: orig_shared snull_open_def upd_dev_def get_dev_def emit_def snul_def frame_consts demo_state_def)
  then obtain nd where "netdevs (set_skb 7 (Some ?k) s1) 102 = Some nd" "dev_addr nd = snul 0x31"
    by (auto simp: snull_state)
  from orig_header_twin [OF this, of 7 ?k 16 "0x0800"] o(1,2) show ?thesis by (auto simp: snull_state)
qed

section \<open>Initialisation\<close>

text \<open>The setup function of the original meets the contract of \<open>netdev_loader\<close> with and without NAPI.\<close>

lemma orig_init_sets_up:
  assumes "kmalloc_law E" and "heap_ok s" and "priv_of s d = Some pr0"
  shows "\<exists>s' ps. orig_init E d s = Inr s' \<and> sets_up E d s s' ps
     \<and> (use_napi E \<noteq> 0 \<longrightarrow> map_option (\<lambda>nd. (poll_set nd, dev_weight nd)) (netdevs s' d) = Some (True, 2))"
proof -
  let ?u = "set_dev d (\<lambda>nd. nd\<lparr>netdev_ops_set := True, watchdog_timeo := timeout E\<rparr>) (set_dev d (k_ether_setup E) s)"
  let ?v = "(if use_napi E \<noteq> 0 then set_dev d (\<lambda>nd. nd\<lparr>poll_set := True, dev_weight := 2\<rparr>) ?u else ?u)"
  let ?w = "set_dev d (\<lambda>nd. nd\<lparr>dev_flags := dev_flags nd OR IFF_NOARP, dev_features := dev_features nd OR NETIF_F_NO_CSUM\<rparr>) ?v"
  let ?t = "set_priv d (\<lambda>pr. pr\<lparr>rx_int_enabled := 1\<rparr>) (set_priv d (\<lambda>_. zero_priv) ?w)"
  have some: "\<exists>pr. priv_of (set_dev d f x) d = Some pr" if "\<exists>pr. priv_of x d = Some pr" for f x
    using that by (auto simp: priv_of_def set_dev_def)
  have upd: "upd_dev d f x = Inr (set_dev d f x)" if "\<exists>pr. priv_of x d = Some pr" for f x
    using that by (auto simp: upd_dev_eq)
  have s0: "\<exists>pr. priv_of s d = Some pr" using assms(3) by blast
  note s1 = some [OF s0] note s2 = some [OF s1]
  have v: "\<exists>pr. priv_of ?v d = Some pr" using s2 some [OF s2] by simp
  have w: "\<exists>pr. priv_of ?w d = Some pr" by (rule some [OF v])
  have t: "priv_of ?t = (priv_of s)(d \<mapsto> zero_priv\<lparr>rx_int_enabled := 1\<rparr>)"
    using assms(3) by (auto simp: priv_of_def set_priv_def set_dev_def fun_eq_iff)
  have napi: "(if use_napi E \<noteq> 0 then upd_dev d (\<lambda>nd. nd\<lparr>poll_set := True, dev_weight := 2\<rparr>) ?u else Inr ?u) = Inr ?v"
    using upd [OF s2] by simp
  obtain prw where prw: "priv_of ?w d = Some prw" using w by blast
  have init: "orig_init E d s = snull_setup_pool E d ?t"
    unfolding orig_init_def upd [OF s0] bind_res.simps upd [OF s1] napi upd [OF v] upd_priv_eq [OF prw]
    using prw by (simp add: orig_shared snull_rx_ints_def snull_ops snull_state)
  have "heap_ok ?t" using assms(2) by (simp add: heap_ok_def snull_state)
  moreover have "same_frame s ?t" "pkts ?t = pkts s" "ktrace ?t = ktrace s" by (simp_all add: same_frame_def snull_state)
  ultimately obtain s' ps where s': "snull_setup_pool E d ?t = Inr s'" "sets_up E d s s' ps"
    using setup_pool_sets_up [OF _ assms(1) t] by blast
  have "map_option (\<lambda>nd. (poll_set nd, dev_weight nd)) (netdevs s' d)
      = map_option (\<lambda>nd. (poll_set nd, dev_weight nd)) (netdevs ?t d)"
    by (rule publics_map [OF publics_setup_pool [OF s'(1)]]) simp
  moreover have "netdevs s d \<noteq> None" using assms(3) by (auto simp: priv_of_def)
  ultimately have "use_napi E \<noteq> 0 \<longrightarrow> map_option (\<lambda>nd. (poll_set nd, dev_weight nd)) (netdevs s' d) = Some (True, 2)"
    by (auto simp: set_priv_def set_dev_def)
  with s' init show ?thesis by metis
qed

interpretation orig_loading: netdev_loader orig_init orig_alloc_netdev orig_init_module "\<lambda>_. True"
proof
  fix E s d pr
  assume "kmalloc_law E" "heap_ok s" "priv_of s d = Some pr"
  then show "\<exists>s' ps. orig_init E d s = Inr s' \<and> sets_up E d s s' ps" using orig_init_sets_up by blast
qed (simp_all only: orig_alloc_netdev_def orig_init_module_def orig_cleanup_def intr_of_def)

text \<open>
  With or without NAPI the original initialises a device without a fault (its successor
  crashes with NAPI): private area cleared but for interrupts enabled and the pool, which holds new packets
  owned by the device, \<open>pool_size\<close> of them if memory suffices; with NAPI the poll function is set
  with weight 2.
\<close>

theorem orig_init_ready:
  assumes "heap_ok s" and "kmalloc_law E" and "priv_of s d = Some pr0"
  shows "\<exists>s' ps. orig_init E d s = Inr s' \<and> pool_holds d ps s' \<and> full_data ps s' \<and> heap_ok s'
     \<and> (kmalloc_total E \<longrightarrow> length ps = nat (pool_size E)) \<and> (\<forall>p \<in> set ps. pkts s p = None)
     \<and> priv_of s' = (priv_of s)(d \<mapsto> fresh_priv ps) \<and> quiet_priv (fresh_priv ps)
     \<and> (use_napi E \<noteq> 0 \<longrightarrow> map_option (\<lambda>nd. (poll_set nd, dev_weight nd)) (netdevs s' d) = Some (True, 2))"
  using orig_init_sets_up [OF assms(2,1,3)]
  by (auto simp: sets_up_def fresh_priv_def quiet_priv_def zero_priv_def)

lemma orig_init_ready_witness:
  "\<exists>s' ps. orig_init (demo_env\<lparr>use_napi := 1\<rparr>) 101 (snull_boot\<lparr>netdevs := [101 \<mapsto> demo_dev 5]\<rparr>) = Inr s'
     \<and> pool_holds 101 ps s' \<and> length ps = 8"
proof -
  let ?s = "snull_boot\<lparr>netdevs := [101 \<mapsto> demo_dev 5]\<rparr>" and ?E = "demo_env\<lparr>use_napi := 1\<rparr>"
  have "heap_ok ?s" by (simp add: heap_ok_def snull_boot_def)
  moreover have "priv_of ?s 101 = Some (dev_priv (demo_dev 5))" by (simp add: priv_of_def)
  moreover have "kmalloc_law ?E" "kmalloc_total ?E" "pool_size ?E = 8"
    using demo_laws(1,2,10) by (simp_all add: kmalloc_law_def kmalloc_total_def)
  ultimately show ?thesis using orig_init_ready [of ?s ?E 101 "dev_priv (demo_dev 5)"] by auto
qed

end
