(* ===== verification/Snull_Napi.thy ===== *)
theory Snull_Napi
  imports Snull_Orig_Claims
begin

text \<open>
  The polled mode of the original driver, call by call: a transmission puts the frame into the
  receive queue of the other interface, asks the kernel to poll that interface if nothing
  waited there, and frees the skb; the kernel's later call of \<open>snull_poll\<close> hands the frames up, last frame
  first, returns the buffers and switches receive interrupts on again once the queue is empty.
\<close>

section \<open>Two devices in polled mode\<close>

definition peer_of :: "snull_state \<Rightarrow> devp \<Rightarrow> devp option" where
  "peer_of s d = snull_devs s (if snull_devs s 0 = Some d then 1 else 0)"

text \<open>Buffer \<open>p\<close> of \<open>d\<close> holds the frame \<open>b\<close>, with the addresses the transmission gave it.\<close>

definition frame_in :: "snull_env \<Rightarrow> snull_state \<Rightarrow> devp \<Rightarrow> paddr \<Rightarrow> byte list \<Rightarrow> bool" where
  "frame_in E s d p b \<longleftrightarrow> (\<exists>k. pkts s p = Some k \<and> pkt_dev k = d \<and> datalen k = int (length b)
     \<and> length (pkt_data k) = ETH_DATA_LEN \<and> take (length b) (pkt_data k) = toggled_frame E b)"

lemma frame_in_same: "frame_in E s d p b \<Longrightarrow> pkts t p = pkts s p \<Longrightarrow> frame_in E t d p b"
  by (simp add: frame_in_def)

lemma frame_in_bodies: "frame_in E s d p b \<Longrightarrow> bodies t = bodies s \<Longrightarrow> frame_in E t d p b"
  by (drule fun_cong [of _ _ p]) (cases "pkts t p"; auto simp: frame_in_def bodies_def)

text \<open>
  Frames \<open>rs\<close> of \<open>d\<close>, each in its buffer, wait at \<open>e\<close>: exactly while some wait the receive
  interrupt of \<open>e\<close> is off and \<open>e\<close> has asked to be polled.
\<close>

definition napi_half :: "snull_env \<Rightarrow> snull_state \<Rightarrow> devp \<Rightarrow> devp \<Rightarrow> (devp \<Rightarrow> paddr list) \<Rightarrow> (paddr \<times> byte list) list \<Rightarrow> bool" where
  "napi_half E s d e P rs \<longleftrightarrow> bufs_ok s e (map fst rs) P \<and> full_data (P d) s
     \<and> (\<exists>pr. priv_of s e = Some pr \<and> status pr = 0 \<and> rx_int_enabled pr = (if rs = [] then 1 else 0))
     \<and> (on_list e (ktrace s) \<longleftrightarrow> rs \<noteq> [])
     \<and> (\<forall>(p, b) \<in> set rs. frame_in E s d p b)"

text \<open>Both directions: \<open>rs\<close> from \<open>d\<close> wait at \<open>e\<close>, and \<open>qs\<close> from \<open>e\<close> wait at \<open>d\<close>.\<close>

definition napi_pair :: "snull_env \<Rightarrow> snull_state \<Rightarrow> devp \<Rightarrow> devp \<Rightarrow> (devp \<Rightarrow> paddr list) \<Rightarrow>
    (paddr \<times> byte list) list \<Rightarrow> (paddr \<times> byte list) list \<Rightarrow> bool" where
  "napi_pair E s d e P rs qs \<longleftrightarrow> d \<noteq> e \<and> peer_of s d = Some e \<and> peer_of s e = Some d
     \<and> snull_interrupt s = Some NapiInterrupt \<and> napi_half E s d e P rs \<and> napi_half E s e d P qs"

lemma napi_pair_sym: "napi_pair E s d e P rs qs \<Longrightarrow> napi_pair E s e d P qs rs"
  by (auto simp: napi_pair_def)

lemma quotas_simps [snull_state]:
  "quotas (set_priv x f s) = quotas s" "quotas (set_pkt p g s) = quotas s" "quotas (emit c s) = quotas s"
  "quotas (set_skb q v s) = quotas s"
  by (auto simp: quotas_def set_priv_def set_dev_def set_pkt_def emit_def set_skb_def fun_eq_iff option.map_comp comp_def)

lemma quotas_set_dev [snull_state]: "(\<And>nd. dev_quota (f nd) = dev_quota nd) \<Longrightarrow> quotas (set_dev x f s) = quotas s"
  by (auto simp: quotas_def set_dev_def fun_eq_iff option.map_comp comp_def)

section \<open>The polled interrupt handler\<close>

text \<open>Reception only asks to be polled; it is switched off until that has happened.\<close>

lemma napi_rx_interrupt:
  assumes "snull_interrupt s = Some NapiInterrupt" and "priv_of s e = Some pr" and "\<not> lock pr" and "status pr = SNULL_RX_INTR"
  shows "\<exists>s'. orig_raise_interrupt E e s = Inr s' \<and> pkts s' = pkts s \<and> skbs s' = skbs s
     \<and> snull_devs s' = snull_devs s \<and> snull_interrupt s' = snull_interrupt s \<and> quotas s' = quotas s
     \<and> priv_of s' = (priv_of s)(e \<mapsto> pr\<lparr>status := 0, rx_int_enabled := 0\<rparr>)
     \<and> ktrace s' = NetifRxSchedule e # ktrace s"
  using assms
  by (auto simp: orig_raise_interrupt_def orig_napi_interrupt_def orig_shared snull_rx_ints_def snull_ops snull_state
      SNULL_RX_INTR_def SNULL_TX_INTR_def fun_eq_iff)

text \<open>A packet just queued: with the interrupt on, nothing waited, and the device asks to be polled.\<close>

lemma napi_rx_step:
  assumes "snull_interrupt s = Some NapiInterrupt" and "priv_of s e = Some pr" and "\<not> lock pr" and "status pr = 0"
    and "rx_int_enabled pr = (if b then 1 else 0)"
  shows "\<exists>s'. (if rx_int_enabled pr \<noteq> 0 then orig_raise_interrupt E e (set_priv e (\<lambda>pr. pr\<lparr>status := status pr OR SNULL_RX_INTR\<rparr>) s) else Inr s) = Inr s'
     \<and> pkts s' = pkts s \<and> skbs s' = skbs s \<and> snull_devs s' = snull_devs s \<and> snull_interrupt s' = snull_interrupt s
     \<and> priv_of s' = (priv_of s)(e \<mapsto> pr\<lparr>rx_int_enabled := 0\<rparr>) \<and> ktrace s' = (if b then [NetifRxSchedule e] else []) @ ktrace s"
proof (cases b)
  case False
  then have "pr\<lparr>rx_int_enabled := 0\<rparr> = pr" using assms(5) by (cases pr) simp
  then have "priv_of s = (priv_of s)(e \<mapsto> pr\<lparr>rx_int_enabled := 0\<rparr>)" using assms(2) by auto
  then show ?thesis using False assms(5) by simp
next
  case True
  let ?u = "set_priv e (\<lambda>pr. pr\<lparr>status := status pr OR SNULL_RX_INTR\<rparr>) s" and ?pr = "pr\<lparr>status := SNULL_RX_INTR\<rparr>"
  have "\<exists>s'. orig_raise_interrupt E e ?u = Inr s' \<and> pkts s' = pkts ?u \<and> skbs s' = skbs ?u
     \<and> snull_devs s' = snull_devs ?u \<and> snull_interrupt s' = snull_interrupt ?u \<and> quotas s' = quotas ?u
     \<and> priv_of s' = (priv_of ?u)(e \<mapsto> ?pr\<lparr>status := 0, rx_int_enabled := 0\<rparr>) \<and> ktrace s' = NetifRxSchedule e # ktrace ?u"
    using assms by (intro napi_rx_interrupt) (simp_all add: snull_state)
  moreover have "(priv_of ?u)(e \<mapsto> ?pr\<lparr>status := 0, rx_int_enabled := 0\<rparr>) = (priv_of s)(e \<mapsto> pr\<lparr>rx_int_enabled := 0\<rparr>)"
    using assms(4) by (cases pr) (auto simp: snull_state fun_eq_iff)
  ultimately show ?thesis using True assms(5) by (auto simp: snull_state)
qed

text \<open>The end of a transmission: the interrupt handler frees the skb.\<close>

lemma napi_tx_complete:
  assumes "snull_interrupt s = Some NapiInterrupt" and "priv_of s d = Some pr" and "\<not> lock pr" and "status pr = 0"
    and "priv_skb pr = Some q" and "skbs s q = Some k" and "lockup E = 0"
  shows "\<exists>s'. orig_tx_complete E buf n d s = Inr s' \<and> pkts s' = pkts s \<and> skbs s' = (skbs s)(q := None)
     \<and> snull_devs s' = snull_devs s \<and> snull_interrupt s' = snull_interrupt s \<and> quotas s' = quotas s
     \<and> priv_of s' = (priv_of s)(d \<mapsto> pr\<lparr>tx_packetlen := n, tx_packetdata := Some buf, stats := tx_stats n (stats pr)\<rparr>)
     \<and> ktrace s' = DevKfreeSkb (Some q) # ktrace s"
proof -
  let ?f = "\<lambda>pr. pr\<lparr>tx_packetlen := n, tx_packetdata := Some buf, status := status pr OR SNULL_TX_INTR\<rparr>"
  have f: "upd_priv d ?f s = Inr (set_priv d ?f s)" "netdev_priv (set_priv d ?f s) d = Inr (?f pr)"
    using assms(2) by (simp_all add: snull_ops snull_state)
  have "\<exists>s'. orig_raise_interrupt E d (set_priv d ?f s) = Inr s' \<and> pkts s' = pkts s \<and> skbs s' = (skbs s)(q := None)
     \<and> snull_devs s' = snull_devs s \<and> snull_interrupt s' = snull_interrupt s \<and> quotas s' = quotas s
     \<and> priv_of s' = (priv_of s)(d \<mapsto> pr\<lparr>tx_packetlen := n, tx_packetdata := Some buf, stats := tx_stats n (stats pr)\<rparr>)
     \<and> ktrace s' = DevKfreeSkb (Some q) # ktrace s"
    using assms
    by (cases pr) (auto simp: orig_raise_interrupt_def orig_napi_interrupt_def tx_done_def snull_ops snull_state
        SNULL_RX_INTR_def SNULL_TX_INTR_def tx_stats_def fun_eq_iff)
  then show ?thesis using f assms(7) by (simp add: orig_tx_complete_def)
qed

section \<open>One transmission\<close>

text \<open>A packet moves from the pool of \<open>d\<close> to the front of the queue of \<open>e\<close>.\<close>

lemma bufs_ok_move:
  assumes ok: "bufs_ok s e rs P" and pool: "P d = p # ps" and de: "d \<noteq> e"
    and pre: "priv_of s e = Some pre" and k: "pkts s p = Some k"
    and pk: "pkts t = (pkts s)(p \<mapsto> k\<lparr>pkt_next := rx_queue pre, datalen := int n, pkt_data := xs\<rparr>)" and n: "n \<le> length xs"
    and td: "priv_of t d = Some prd'" "\<not> lock prd'" "ppool prd' = pkt_next k"
    and te: "priv_of t e = Some pre'" "\<not> lock pre'" "rx_queue pre' = Some p" "ppool pre' = ppool pre"
    and other: "\<And>x. x \<noteq> d \<Longrightarrow> x \<noteq> e \<Longrightarrow> priv_of t x = priv_of s x"
    and src: "priv_of s d \<noteq> None"
  shows "bufs_ok t e (p # rs) (P(d := ps))"
proof -
  have nx: "nexts t = (nexts s)(p := Some (rx_queue pre))" by (simp add: nexts_def pk fun_eq_iff)
  from ok src pool have hd: "pool_holds d (p # ps) s" and p: "p \<notin> set rs"
    unfolding bufs_ok_def by (metis, metis list.set_intros(1))
  then obtain x where "chain (nexts s) x (p # ps)" unfolding pool_holds_def by blast
  from chain_distinct [OF this] have pps: "p \<notin> set ps" by simp
  from hd k have own: "pkt_dev k = d" and ch: "chain (nexts s) (pkt_next k) ps"
    by (auto simp: pool_holds_def nexts_def)
  have dom: "priv_of t x = None \<longleftrightarrow> priv_of s x = None" for x
    using td(1) te(1) pre src other [of x] by (cases "x = d"; cases "x = e") auto
  have pools: "pool_holds x ((P(d := ps)) x) t" if "priv_of t x \<noteq> None" for x
  proof (cases "x = d")
    case True
    then show ?thesis using hd td ch pps by (auto simp: pool_holds_def nx pk)
  next
    case False
    from that dom [of x] ok have hx: "pool_holds x (P x) s" by (auto simp: bufs_ok_def)
    then have px: "p \<notin> set (P x)" using False own k by (auto simp: pool_holds_def)
    have "\<exists>pr. priv_of t x = Some pr \<and> \<not> lock pr \<and> chain (nexts s) (ppool pr) (P x)"
      using hx False other [of x] te pre by (cases "x = e") (auto simp: pool_holds_def)
    then show ?thesis using hx px False by (auto simp: pool_holds_def nx pk)
  qed
  have rx: "rx_holds e (p # rs) t"
    using ok pre te p by (auto simp: bufs_ok_def rx_holds_def nx)
  have pkr: "\<exists>k n. pkts t r = Some k \<and> datalen k = int n \<and> n \<le> length (pkt_data k) \<and> priv_of t (pkt_dev k) \<noteq> None"
    if "r \<in> set (p # rs)" for r
  proof (cases "r = p")
    case True
    then show ?thesis using own td(1) n by (simp add: pk)
  next
    case False
    then show ?thesis using that ok dom by (auto simp: bufs_ok_def pk)
  qed
  have apart: "r \<notin> set ((P(d := ps)) x)" if "r \<in> set (p # rs)" "priv_of t x \<noteq> None" for r x
  proof (cases "r = p")
    case True
    from that(2) dom [of x] ok have "pool_holds x (P x) s" by (auto simp: bufs_ok_def)
    then show ?thesis using True own k pps by (auto simp: pool_holds_def)
  next
    case False
    with that ok dom [of x] have "r \<notin> set (P x)" by (auto simp: bufs_ok_def)
    then show ?thesis using pool by (cases "x = d") simp_all
  qed
  show ?thesis unfolding bufs_ok_def using rx pkr pools apart by blast
qed


lemma full_data_tl: "full_data (p # ps) s \<Longrightarrow> p \<notin> set ps \<Longrightarrow> pkts t = (pkts s)(p \<mapsto> x) \<Longrightarrow> full_data ps t"
  by (auto simp: full_data_def)

text \<open>The queue of the other device, when its packets and its queue pointer are what they were.\<close>

lemma bufs_ok_other:
  assumes ok: "bufs_ok t e R P'" and old: "bufs_ok s d Q P"
    and same: "\<And>p. p \<in> set Q \<Longrightarrow> pkts t p = pkts s p"
    and rx: "map_option rx_queue (priv_of t d) = map_option rx_queue (priv_of s d)"
    and dom: "\<And>x. priv_of t x = None \<longleftrightarrow> priv_of s x = None"
    and apart: "\<And>p x. p \<in> set Q \<Longrightarrow> priv_of s x \<noteq> None \<Longrightarrow> p \<notin> set (P' x)"
  shows "bufs_ok t d Q P'"
proof -
  from old obtain pr where pr: "priv_of s d = Some pr" "chain (nexts s) (rx_queue pr) Q"
    by (auto simp: bufs_ok_def rx_holds_def)
  with rx obtain pr' where pr': "priv_of t d = Some pr'" "rx_queue pr' = rx_queue pr" by auto
  then have "pool_holds d (P' d) t" using ok by (auto simp: bufs_ok_def)
  then have "\<not> lock pr'" using pr'(1) by (auto simp: pool_holds_def)
  moreover have "chain (nexts t) (rx_queue pr) Q"
    by (rule chain_cong [OF pr(2)]) (simp add: nexts_def same)
  ultimately have "rx_holds d Q t" using pr' by (simp add: rx_holds_def)
  moreover have "\<forall>p \<in> set Q. \<exists>k n. pkts t p = Some k \<and> datalen k = int n \<and> n \<le> length (pkt_data k) \<and> priv_of t (pkt_dev k) \<noteq> None"
    using old dom same by (fastforce simp: bufs_ok_def)
  ultimately show ?thesis using ok apart dom by (auto simp: bufs_ok_def)
qed

lemma full_data_other: "full_data ps s \<Longrightarrow> (\<And>p. p \<in> set ps \<Longrightarrow> pkts t p = pkts s p) \<Longrightarrow> full_data ps t"
  by (simp add: full_data_def)

text \<open>What a transmission finds: the first packet of the pool, and both devices unlocked.\<close>

lemma napi_parts:
  assumes Q: "napi_pair E s d e P rs qs" and pool: "P d = p # ps"
  obtains prd pre k where "priv_of s d = Some prd" "status prd = 0" "rx_int_enabled prd = (if qs = [] then 1 else 0)"
    "\<not> lock prd" "ppool prd = Some p" "priv_of s e = Some pre" "status pre = 0" "rx_int_enabled pre = (if rs = [] then 1 else 0)"
    "\<not> lock pre" "pkts s p = Some k" "pkt_dev k = d" "length (pkt_data k) = ETH_DATA_LEN" "pkt_next k = None \<longleftrightarrow> ps = []"
    "p \<notin> set ps" "p \<notin> set (P e)" "p \<notin> fst ` set rs" "p \<notin> fst ` set qs"
proof -
  from Q have de: "d \<noteq> e" and he: "napi_half E s d e P rs" and hd: "napi_half E s e d P qs" by (simp_all add: napi_pair_def)
  from he hd have ok: "bufs_ok s e (map fst rs) P" "bufs_ok s d (map fst qs) P" and full: "full_data (P d) s"
    by (simp_all add: napi_half_def)
  from hd obtain prd where prd: "priv_of s d = Some prd" "status prd = 0" "rx_int_enabled prd = (if qs = [] then 1 else 0)"
    by (auto simp: napi_half_def)
  from he obtain pre where pre: "priv_of s e = Some pre" "status pre = 0" "rx_int_enabled pre = (if rs = [] then 1 else 0)"
    by (auto simp: napi_half_def)
  from ok(1) prd(1) pre(1) have pools: "pool_holds d (P d) s" "pool_holds e (P e) s" by (auto simp: bufs_ok_def)
  with prd(1) pool obtain k where prd2: "\<not> lock prd" "ppool prd = Some p" and k: "pkts s p = Some k" "pkt_dev k = d"
    and ch: "chain (nexts s) (Some p) (p # ps)" by (auto simp: pool_holds_def)
  show thesis
  proof (rule that [OF prd prd2 pre _ k])
    show "pkt_next k = None \<longleftrightarrow> ps = []" using ch k by (auto simp: nexts_def dest: chain_head)
    show "length (pkt_data k) = ETH_DATA_LEN" using full pool k by (simp add: full_data_def)
    show "p \<notin> set ps" using chain_distinct [OF ch] by simp
    show "p \<notin> set (P e)" using pools(2) k de by (auto simp: pool_holds_def)
    show "\<not> lock pre" using ok(1) pre(1) by (auto simp: bufs_ok_def rx_holds_def)
    show "p \<notin> fst ` set rs" "p \<notin> fst ` set qs" using ok prd(1) pool by (force simp: bufs_ok_def)+
  qed
qed

text \<open>
  The function up to the queue of the peer: the skb is padded to 60 bytes and rewritten, the packet is
  filled and put first in the queue, and the own queue stopped if the pool is now empty.
\<close>

lemma napi_tx_push:
  assumes de: "d \<noteq> e" "peer_of s d = Some e"
    and prd: "priv_of s d = Some prd" "\<not> lock prd" "ppool prd = Some p"
    and pre: "priv_of s e = Some pre" "\<not> lock pre"
    and k: "pkts s p = Some k" "length (pkt_data k) = ETH_DATA_LEN"
    and q: "skbs s q = Some kq" "b = skb_data kq" and len: "length b \<le> ETH_DATA_LEN"
    and f: "f = toggled_frame E (pad_frame b)"
  obtains u k1 where "length f = length (pad_frame b)" "length f \<le> ETH_DATA_LEN" "skbs u q = Some k1" "\<forall>r. r \<noteq> q \<longrightarrow> skbs u r = skbs s r"
    "pkts u = (pkts s)(p \<mapsto> k\<lparr>pkt_next := rx_queue pre, datalen := int (length f), pkt_data := f @ drop (length f) (pkt_data k)\<rparr>)"
    "snull_devs u = snull_devs s" "snull_interrupt u = snull_interrupt s"
    "priv_of u = (priv_of s)(d \<mapsto> prd\<lparr>priv_skb := Some q, ppool := pkt_next k\<rparr>, e \<mapsto> pre\<lparr>rx_queue := Some p\<rparr>)"
    "ktrace u = (if pkt_next k = None then [StopQueue d] else []) @ ktrace s"
    "orig_hw_tx E (tx_buf q b) (int (length (pad_frame b))) d (tx_entry E q d b s) = bind_res (if rx_int_enabled pre \<noteq> 0
       then orig_raise_interrupt E e (set_priv e (\<lambda>pr. pr\<lparr>status := status pr OR SNULL_RX_INTR\<rparr>) u) else Inr u)
     (orig_tx_complete E (tx_buf q b) (int (length f)) d)"
proof -
  let ?b = "pad_frame b" and ?buf = "tx_buf q b" and ?t = "tx_entry E q d b s" and ?n = "length f"
  have bl: "60 \<le> length ?b" "length ?b \<le> ETH_DATA_LEN" using len by (simp_all add: length_pad_frame frame_consts)
  have lf: "length f = length ?b" using bl(1) by (simp add: length_toggled_frame f)
  have load: "load_buf ?t ?buf = Inr ?b" by (rule tx_buf_entry [OF q])
  have tq: "skbs ?t q = Some kq" using q by (simp add: snull_state)
  obtain s1 where s1: "store_buf ?buf f ?t = Inr s1" "pkts s1 = pkts ?t" "priv_of s1 = priv_of ?t"
      "ktrace s1 = ktrace ?t" "snull_devs s1 = snull_devs ?t" "snull_interrupt s1 = snull_interrupt ?t"
      "\<exists>kq. skbs s1 q = Some kq" "\<forall>r. (\<forall>r'. ?buf = SkbData r' \<longrightarrow> r \<noteq> r') \<longrightarrow> skbs s1 r = skbs ?t r"
    by (rule store_frame [OF load tq])
  then obtain k1 where k1: "skbs s1 q = Some k1" by blast
  have skb1: "skbs s1 r = skbs s r" if "r \<noteq> q" for r using that s1(8) by (auto simp: tx_buf_def snull_state)
  let ?prd1 = "prd\<lparr>priv_skb := Some q\<rparr>" and ?s2 = "take_buf d k s1"
  have v1: "priv_of s1 = (priv_of s)(d \<mapsto> ?prd1)" using prd(1) s1(3) by (auto simp: snull_state fun_eq_iff)
  have r2: "priv_of ?s2 e = Some pre" using pre de v1 by (simp add: take_buf_def snull_state)
  define u where "u = push_buf e p (rx_queue pre) (fill_buf p (int ?n) (f @ drop ?n (pkt_data k)) ?s2)"
  have u: "pkts u = (pkts s)(p \<mapsto> k\<lparr>pkt_next := rx_queue pre, datalen := int ?n, pkt_data := f @ drop ?n (pkt_data k)\<rparr>)"
    "skbs u = skbs s1" "snull_devs u = snull_devs s" "snull_interrupt u = snull_interrupt s"
    "priv_of u = (priv_of s)(d \<mapsto> ?prd1\<lparr>ppool := pkt_next k\<rparr>, e \<mapsto> pre\<lparr>rx_queue := Some p\<rparr>)"
    "ktrace u = (if pkt_next k = None then [StopQueue d] else []) @ ktrace s"
    using k s1 v1 de prd pre
    by (auto simp: u_def push_buf_def fill_buf_def take_buf_def snull_state fun_eq_iff)
  have p1: "snull_devs s1 (if snull_devs s1 0 = Some d then 1 else 0) = Some e"
    using de(2) s1(5) by (simp add: peer_of_def snull_state)
  have src: "priv_of s1 d = Some ?prd1" "\<not> lock ?prd1" "ppool ?prd1 = Some p" "pkts s1 p = Some k"
    using v1 prd k(1) s1(2) by (simp_all add: snull_state)
  show thesis
  proof (rule that [of u k1])
    show "orig_hw_tx E ?buf (int (length ?b)) d ?t = bind_res (if rx_int_enabled pre \<noteq> 0
       then orig_raise_interrupt E e (set_priv e (\<lambda>pr. pr\<lparr>status := status pr OR SNULL_RX_INTR\<rparr>) u) else Inr u)
     (orig_tx_complete E ?buf (int ?n) d)"
      using orig_hw_tx_frame [OF load bl s1(1) [unfolded f] p1] hw_rest_push [OF refl _ src k(2) r2 pre(2), of f] bl(2) lf
      by (simp add: u_def Let_def f)
  qed (use u k1 skb1 lf bl(2) in simp_all)
qed

text \<open>The whole function: the poll asked for if the queue was empty, and the skb freed.\<close>

lemma napi_tx_run:
  assumes de: "d \<noteq> e" "peer_of s d = Some e" and intr: "snull_interrupt s = Some NapiInterrupt"
    and prd: "priv_of s d = Some prd" "status prd = 0" "\<not> lock prd" "ppool prd = Some p"
    and pre: "priv_of s e = Some pre" "status pre = 0" "rx_int_enabled pre = (if em then 1 else 0)" "\<not> lock pre"
    and k: "pkts s p = Some k" "length (pkt_data k) = ETH_DATA_LEN"
    and q: "skbs s q = Some kq" "b = skb_data kq" and len: "length b \<le> ETH_DATA_LEN" and env: "lockup E = 0"
    and f: "f = toggled_frame E (pad_frame b)"
  obtains s' prd' where "orig_tx E q d s = Inr (0, s')" "snull_devs s' = snull_devs s" "snull_interrupt s' = snull_interrupt s"
    "skbs s' = (skbs s)(q := None)" "length f = length (pad_frame b)" "length f \<le> ETH_DATA_LEN"
    "pkts s' = (pkts s)(p \<mapsto> k\<lparr>pkt_next := rx_queue pre, datalen := int (length f), pkt_data := f @ drop (length f) (pkt_data k)\<rparr>)"
    "priv_of s' = (priv_of s)(d \<mapsto> prd', e \<mapsto> pre\<lparr>rx_queue := Some p, rx_int_enabled := 0\<rparr>)"
    "ppool prd' = pkt_next k" "rx_queue prd' = rx_queue prd" "status prd' = 0" "rx_int_enabled prd' = rx_int_enabled prd" "\<not> lock prd'"
    "ktrace s' = DevKfreeSkb (Some q) # (if em then [NetifRxSchedule e] else []) @ (if pkt_next k = None then [StopQueue d] else []) @ ktrace s"
proof -
  let ?buf = "tx_buf q b" and ?n = "length f" and ?pre = "pre\<lparr>rx_queue := Some p\<rparr>" and ?prd = "prd\<lparr>priv_skb := Some q, ppool := pkt_next k\<rparr>"
  obtain u k1 where len': "length f = length (pad_frame b)" "length f \<le> ETH_DATA_LEN" and uq: "skbs u q = Some k1" "\<forall>r. r \<noteq> q \<longrightarrow> skbs u r = skbs s r"
    and u: "pkts u = (pkts s)(p \<mapsto> k\<lparr>pkt_next := rx_queue pre, datalen := int ?n, pkt_data := f @ drop ?n (pkt_data k)\<rparr>)"
      "snull_devs u = snull_devs s" "snull_interrupt u = snull_interrupt s" "priv_of u = (priv_of s)(d \<mapsto> ?prd, e \<mapsto> ?pre)"
      "ktrace u = (if pkt_next k = None then [StopQueue d] else []) @ ktrace s"
    and rest: "orig_hw_tx E ?buf (int (length (pad_frame b))) d (tx_entry E q d b s) = bind_res (if rx_int_enabled pre \<noteq> 0
       then orig_raise_interrupt E e (set_priv e (\<lambda>pr. pr\<lparr>status := status pr OR SNULL_RX_INTR\<rparr>) u) else Inr u)
     (orig_tx_complete E ?buf (int ?n) d)"
    by (rule napi_tx_push [OF de prd(1,3,4) pre(1,4) k q len f])
  have "\<exists>v. (if rx_int_enabled ?pre \<noteq> 0 then orig_raise_interrupt E e (set_priv e (\<lambda>pr. pr\<lparr>status := status pr OR SNULL_RX_INTR\<rparr>) u) else Inr u) = Inr v
     \<and> pkts v = pkts u \<and> skbs v = skbs u \<and> snull_devs v = snull_devs u \<and> snull_interrupt v = snull_interrupt u
     \<and> priv_of v = (priv_of u)(e \<mapsto> ?pre\<lparr>rx_int_enabled := 0\<rparr>) \<and> ktrace v = (if em then [NetifRxSchedule e] else []) @ ktrace u"
    using u intr pre by (intro napi_rx_step) simp_all
  then obtain v where v: "(if rx_int_enabled pre \<noteq> 0 then orig_raise_interrupt E e (set_priv e (\<lambda>pr. pr\<lparr>status := status pr OR SNULL_RX_INTR\<rparr>) u) else Inr u) = Inr v"
    "pkts v = pkts u" "skbs v = skbs u" "snull_devs v = snull_devs u" "snull_interrupt v = snull_interrupt u"
    "priv_of v = (priv_of u)(e \<mapsto> ?pre\<lparr>rx_int_enabled := 0\<rparr>)" "ktrace v = (if em then [NetifRxSchedule e] else []) @ ktrace u"
    by auto
  let ?prd' = "?prd\<lparr>tx_packetlen := int ?n, tx_packetdata := Some ?buf, stats := tx_stats (int ?n) (stats ?prd)\<rparr>"
  have "\<exists>w. orig_tx_complete E ?buf (int ?n) d v = Inr w \<and> pkts w = pkts v \<and> skbs w = (skbs v)(q := None)
     \<and> snull_devs w = snull_devs v \<and> snull_interrupt w = snull_interrupt v \<and> quotas w = quotas v
     \<and> priv_of w = (priv_of v)(d \<mapsto> ?prd') \<and> ktrace w = DevKfreeSkb (Some q) # ktrace v"
    using v(2-6) u(2-4) uq(1) de intr prd env by (intro napi_tx_complete [where k = k1]) simp_all
  then obtain w where w: "orig_tx_complete E ?buf (int ?n) d v = Inr w" "pkts w = pkts v" "skbs w = (skbs v)(q := None)"
     "snull_devs w = snull_devs v" "snull_interrupt w = snull_interrupt v"
     "priv_of w = (priv_of v)(d \<mapsto> ?prd')" "ktrace w = DevKfreeSkb (Some q) # ktrace v" by (elim exE conjE) (rule that)
  have small: "length b < 2 ^ 31" using len by (simp add: frame_consts)
  show thesis
  proof (rule that [of w ?prd'])
    show "orig_tx E q d s = Inr (0, w)" using orig_tx_pad [OF q small prd(1)] rest v(1) w(1) len' by simp
    show "skbs w = (skbs s)(q := None)" using w(3) v(3) uq(2) by (auto simp: fun_eq_iff)
    show "priv_of w = (priv_of s)(d \<mapsto> ?prd', e \<mapsto> pre\<lparr>rx_queue := Some p, rx_int_enabled := 0\<rparr>)"
      using w(6) v(6) u(4) de by (simp add: fun_upd_twist)
    show "ktrace w = DevKfreeSkb (Some q) # (if em then [NetifRxSchedule e] else []) @ (if pkt_next k = None then [StopQueue d] else []) @ ktrace s"
      using w(7) v(7) u(5) by simp
  qed (use w v u len' prd in simp_all)
qed

text \<open>The devices after a transmission: the packet, with its frame, has joined the queue of the peer.\<close>

lemma napi_pair_sent:
  assumes Q: "napi_pair E s d e P rs qs" and pool: "P d = p # ps"
    and prd: "priv_of s d = Some prd" "rx_int_enabled prd = (if qs = [] then 1 else 0)"
    and pre: "priv_of s e = Some pre" "status pre = 0" "\<not> lock pre"
    and k: "pkts s p = Some k" "pkt_dev k = d"
    and fresh: "p \<notin> set ps" "p \<notin> set (P e)" "p \<notin> fst ` set rs" "p \<notin> fst ` set qs"
    and f: "length f \<le> ETH_DATA_LEN" "length f = length c" "f = toggled_frame E c" "length (pkt_data k) = ETH_DATA_LEN"
    and pk: "pkts t = (pkts s)(p \<mapsto> k\<lparr>pkt_next := rx_queue pre, datalen := int (length f), pkt_data := f @ drop (length f) (pkt_data k)\<rparr>)"
    and v: "priv_of t = (priv_of s)(d \<mapsto> prd', e \<mapsto> pre\<lparr>rx_queue := Some p, rx_int_enabled := 0\<rparr>)"
    and prd': "ppool prd' = pkt_next k" "rx_queue prd' = rx_queue prd" "status prd' = 0" "rx_int_enabled prd' = rx_int_enabled prd" "\<not> lock prd'"
    and devs: "snull_devs t = snull_devs s" "snull_interrupt t = snull_interrupt s"
    and lists: "\<And>x. on_list x (ktrace t) \<longleftrightarrow> x = e \<or> on_list x (ktrace s)"
  shows "napi_pair E t d e (P(d := ps)) ((p, c) # rs) qs"
proof -
  from Q have de: "d \<noteq> e" and intr: "snull_interrupt s = Some NapiInterrupt" and peer: "peer_of s d = Some e" "peer_of s e = Some d"
    and he: "napi_half E s d e P rs" and hd: "napi_half E s e d P qs" by (simp_all add: napi_pair_def)
  from he hd have ok: "bufs_ok s e (map fst rs) P" "bufs_ok s d (map fst qs) P" and full: "full_data (P d) s" "full_data (P e) s"
    and frames: "\<forall>(p, b) \<in> set rs. frame_in E s d p b" "\<forall>(p, b) \<in> set qs. frame_in E s e p b"
    by (simp_all add: napi_half_def)
  have dom: "priv_of t x = None \<longleftrightarrow> priv_of s x = None" for x using v prd(1) pre(1) by simp
  have bufs: "bufs_ok t e (p # map fst rs) (P(d := ps))"
    by (rule bufs_ok_move [OF ok(1) pool de pre(1) k(1) pk, where prd' = prd' and pre' = "pre\<lparr>rx_queue := Some p, rx_int_enabled := 0\<rparr>"])
      (use v de f prd prd' pre in simp_all)
  have bufd: "bufs_ok t d (map fst qs) (P(d := ps))"
  proof (rule bufs_ok_other [OF bufs ok(2) _ _ dom])
    show "pkts t r = pkts s r" if "r \<in> set (map fst qs)" for r using that fresh(4) pk by auto
    show "map_option rx_queue (priv_of t d) = map_option rx_queue (priv_of s d)" using v de prd(1) prd'(2) by simp
    show "r \<notin> set ((P(d := ps)) x)" if "r \<in> set (map fst qs)" "priv_of s x \<noteq> None" for r x
      using that ok(2) pool by (cases "x = d") (fastforce simp: bufs_ok_def)+
  qed
  have "frame_in E t y r c'" if "frame_in E s y r c'" "r \<noteq> p" for y r c'
    using that pk by (auto intro: frame_in_same)
  then have "\<forall>(r, c) \<in> set rs. frame_in E t d r c" "\<forall>(r, c) \<in> set qs. frame_in E t e r c"
    using frames fresh(3,4) by (fastforce simp: image_iff)+
  moreover have "frame_in E t d p c" using pk k f by (simp add: frame_in_def frame_consts)
  moreover have "full_data ((P(d := ps)) d) t" "full_data ((P(d := ps)) e) t"
    using full pool fresh(1,2) pk de by (auto simp: full_data_def)
  moreover have "on_list d (ktrace s) \<longleftrightarrow> qs \<noteq> []" using hd by (simp add: napi_half_def)
  ultimately have "napi_half E t d e (P(d := ps)) ((p, c) # rs)" "napi_half E t e d (P(d := ps)) qs"
    unfolding napi_half_def using bufs bufd v pre(2) prd'(3,4) prd(2) de lists by simp_all
  then show ?thesis using de intr peer devs by (simp add: napi_pair_def peer_of_def)
qed

text \<open>A frame of at most 1500 bytes, padded to 60, joins the queue of the peer; the skb is freed.\<close>

lemma napi_tx_step:
  assumes Q: "napi_pair E s d e P rs qs" and pool: "P d = p # ps" and q: "skbs s q = Some kq" "b = skb_data kq"
    and len: "length b \<le> ETH_DATA_LEN" and env: "lockup E = 0"
  obtains s' where "orig_tx E q d s = Inr (0, s')" "napi_pair E s' d e (P(d := ps)) ((p, pad_frame b) # rs) qs"
    "skbs s' = (skbs s)(q := None)" "delivered (ktrace s') = delivered (ktrace s)"
    "\<And>x. queue_off (ktrace s') x \<longleftrightarrow> queue_off (ktrace s) x \<or> x = d \<and> ps = []"
    "dom (pkts s') = dom (pkts s)" "dom (priv_of s') = dom (priv_of s)" "p \<notin> fst ` set rs" "p \<notin> fst ` set qs"
proof -
  from Q have de: "d \<noteq> e" and intr: "snull_interrupt s = Some NapiInterrupt" and peer: "peer_of s d = Some e"
    and on: "on_list e (ktrace s) \<longleftrightarrow> rs \<noteq> []" by (simp_all add: napi_pair_def napi_half_def)
  obtain prd pre k where prd: "priv_of s d = Some prd" "status prd = 0" "rx_int_enabled prd = (if qs = [] then 1 else 0)"
    "\<not> lock prd" "ppool prd = Some p" and pre: "priv_of s e = Some pre" "status pre = 0" "rx_int_enabled pre = (if rs = [] then 1 else 0)"
    "\<not> lock pre" and k: "pkts s p = Some k" "pkt_dev k = d" "length (pkt_data k) = ETH_DATA_LEN" "pkt_next k = None \<longleftrightarrow> ps = []"
    and fresh: "p \<notin> set ps" "p \<notin> set (P e)" "p \<notin> fst ` set rs" "p \<notin> fst ` set qs"
    by (rule napi_parts [OF Q pool])
  define f where "f = toggled_frame E (pad_frame b)"
  obtain s' prd' where run: "orig_tx E q d s = Inr (0, s')" and devs: "snull_devs s' = snull_devs s" "snull_interrupt s' = snull_interrupt s"
    and skbs: "skbs s' = (skbs s)(q := None)" and f: "length f = length (pad_frame b)" "length f \<le> ETH_DATA_LEN"
    and pk: "pkts s' = (pkts s)(p \<mapsto> k\<lparr>pkt_next := rx_queue pre, datalen := int (length f), pkt_data := f @ drop (length f) (pkt_data k)\<rparr>)"
    and v: "priv_of s' = (priv_of s)(d \<mapsto> prd', e \<mapsto> pre\<lparr>rx_queue := Some p, rx_int_enabled := 0\<rparr>)"
    and prd': "ppool prd' = pkt_next k" "rx_queue prd' = rx_queue prd" "status prd' = 0" "rx_int_enabled prd' = rx_int_enabled prd" "\<not> lock prd'"
    and tr: "ktrace s' = DevKfreeSkb (Some q) # (if rs = [] then [NetifRxSchedule e] else []) @ (if pkt_next k = None then [StopQueue d] else []) @ ktrace s"
    by (rule napi_tx_run [OF de peer intr prd(1,2,4,5) pre k(1,3) q len env f_def])
  have "on_list x (ktrace s') \<longleftrightarrow> x = e \<or> on_list x (ktrace s)" for x using tr on by auto
  then have pair: "napi_pair E s' d e (P(d := ps)) ((p, pad_frame b) # rs) qs"
    by (rule napi_pair_sent [OF Q pool prd(1,3) pre(1,2,4) k(1,2) fresh f(2,1) f_def k(3) pk v prd' devs])
  show thesis
  proof (rule that [OF run pair skbs])
    show "delivered (ktrace s') = delivered (ktrace s)" "queue_off (ktrace s') x \<longleftrightarrow> queue_off (ktrace s) x \<or> x = d \<and> ps = []" for x
      using tr k(4) by auto
    show "dom (pkts s') = dom (pkts s)" using pk k(1) by auto
    show "dom (priv_of s') = dom (priv_of s)" using v prd(1) pre(1) by auto
  qed (rule fresh)+
qed

section \<open>One poll\<close>

text \<open>What polling leaves alone.\<close>

definition links :: "snull_state \<Rightarrow> (nat \<Rightarrow> devp option) \<times> intr_fn option \<times> (skbp \<rightharpoonup> sk_buff) \<times> (devp \<Rightarrow> (32 word \<times> int) option)" where
  "links s = (snull_devs s, snull_interrupt s, skbs s, \<lambda>x. map_option (\<lambda>pr. (status pr, rx_int_enabled pr)) (priv_of s x))"

lemma links_emit [simp]: "links (emit k s) = links s"
  by (simp add: links_def snull_state)

lemma links_upd_priv: "upd_priv d f s = Inr s' \<Longrightarrow> (\<And>pr. status (f pr) = status pr \<and> rx_int_enabled (f pr) = rx_int_enabled pr) \<Longrightarrow> links s' = links s"
  by (auto simp: upd_priv_def upd_dev_def get_dev_def links_def priv_of_def fun_eq_iff split: option.splits)

lemma links_upd_pkt: "upd_pkt p f s = Inr s' \<Longrightarrow> links s' = links s"
  by (auto simp: upd_pkt_def links_def priv_of_def bind_res_eq_Inr fun_eq_iff)

lemma links_lock: "spin_lock d s = Inr s' \<Longrightarrow> links s' = links s" "spin_unlock d s = Inr s' \<Longrightarrow> links s' = links s"
  by (auto simp: spin_lock_def spin_unlock_def bind_res_eq_Inr split: if_splits dest: links_upd_priv)

lemma links_dequeue: "snull_dequeue_buf d s = Inr (q, s') \<Longrightarrow> links s' = links s"
  by (auto simp: snull_dequeue_buf_def bind_res_eq_Inr split: option.splits dest!: links_lock links_upd_priv)

lemma links_release: "snull_release_buffer E p s = Inr s' \<Longrightarrow> links s' = links s"
  by (auto simp: snull_release_buffer_def bind_res_eq_Inr dest!: links_lock links_upd_priv links_upd_pkt)

lemma links_poll_loop: "poll_loop E d quota fuel n s = Inr (n', s') \<Longrightarrow> links s' = links s"
proof (induction fuel arbitrary: n s)
  case 0
  then show ?case by (subst (asm) poll_loop.simps) (auto simp: bind_res_eq_Inr split: if_splits)
next
  case (Suc fuel)
  from Suc.prems show ?case
    by (subst (asm) poll_loop.simps)
      (auto simp: bind_res_eq_Inr Let_def upd_stats_def count_rx_def split: if_splits
        dest!: Suc.IH links_release links_upd_priv links_dequeue)
qed

text \<open>The skb a waiting frame becomes.\<close>

definition napi_skb :: "snull_env \<Rightarrow> devp \<Rightarrow> byte list \<Rightarrow> sk_buff" where
  "napi_skb E e b = \<lparr>skb_data = snd (k_eth_type_trans E e (toggled_frame E b)), skb_dev = Some e,
     skb_protocol = fst (k_eth_type_trans E e (toggled_frame E b)), skb_csum_unnecessary = True\<rparr>"

lemma give_all_own: "\<forall>p \<in> set ps. own p = d \<Longrightarrow> give_all own ps P = P(d := rev ps @ P d)"
  by (induction ps arbitrary: P) (simp_all add: fun_eq_iff)

lemma napi_half_frame: "napi_half E s d e P rs \<Longrightarrow> (p, b) \<in> set rs \<Longrightarrow> frame_in E s d p b"
  by (auto simp: napi_half_def)

lemma napi_half_builds:
  assumes "napi_half E s d e P rs"
  shows "builds E e s (map fst rs) (map (\<lambda>(p, b). napi_skb E e b) rs)"
proof -
  have "build_skb E e k = Inr (napi_skb E e b)" if "(p, b) \<in> set rs" "pkts s p = Some k" for p b k
  proof -
    from napi_half_frame [OF assms that(1)] that(2) have k: "datalen k = int (length b)" "take (length b) (pkt_data k) = toggled_frame E b"
      by (auto simp: frame_in_def)
    moreover have "bufs_ok s e (map fst rs) P" using assms by (simp add: napi_half_def)
    then have "length b \<le> length (pkt_data k)" using that k(1) by (fastforce simp: bufs_ok_def)
    ultimately show ?thesis by (simp add: build_skb_def napi_skb_def split_beta)
  qed
  then show ?thesis by (auto simp: builds_def list_all2_map1 list_all2_map2 list_all2_same)
qed

lemma bodies_pkt: "bodies u = bodies s \<Longrightarrow> pkts u p = Some k \<Longrightarrow>
    \<exists>k'. pkts s p = Some k' \<and> pkt_dev k' = pkt_dev k \<and> datalen k' = datalen k \<and> pkt_data k' = pkt_data k"
  by (drule fun_cong [of _ _ p]) (cases "pkts s p"; auto simp: bodies_def)

lemma bodies_full: "bodies u = bodies s \<Longrightarrow> full_data ps s \<Longrightarrow> full_data ps u"
  unfolding full_data_def by (metis bodies_pkt)

lemma bodies_dom: "bodies u = bodies s \<Longrightarrow> dom (pkts u) = dom (pkts s)"
proof -
  assume "bodies u = bodies s"
  then have "bodies u p = None \<longleftrightarrow> bodies s p = None" for p by simp
  then have "pkts u p = None \<longleftrightarrow> pkts s p = None" for p by (simp add: bodies_def)
  then show "dom (pkts u) = dom (pkts s)" by (auto simp: dom_def)
qed

lemma napi_half_pkt:
  assumes "napi_half E s d e P rs" and "p \<in> fst ` set rs"
  shows "\<exists>k. pkts s p = Some k \<and> pkt_dev k = d \<and> length (pkt_data k) = ETH_DATA_LEN"
  using assms by (force simp: napi_half_def frame_in_def)

text \<open>
  The loop takes as many frames as queue, quota and budget allow, last sent first, and hands all
  of them up, memory permitting; the buffers go back to the pool of their owner.
\<close>

lemma napi_poll_run:
  assumes Q: "napi_pair E s d e P rs qs" and fuel: "length rs \<le> fuel"
    and quota: "quotas s e = Some quota" and budget: "0 \<le> min quota budget" and mem: "\<forall>tr n. k_dev_alloc_skb E tr n"
    and m: "m = min (length rs) (nat (min quota budget))" and P': "P' = P(d := rev (map fst (take m rs)) @ P d)"
  obtains s1 where "poll_loop E e (min quota budget) fuel 0 s = Inr (int m, s1)" "bufs_ok s1 e (map fst (drop m rs)) P'"
    "poll_kept e (fst ` set (take m rs)) s s1"
    "delivered (ktrace s1) = rev (map (\<lambda>(p, b). napi_skb E e b) (take m rs)) @ delivered (ktrace s)"
    "\<forall>x. on_list x (ktrace s1) = on_list x (ktrace s)" "k_queue_stopped E = queue_off \<longrightarrow> flow_ok s P \<longrightarrow> flow_ok s1 P'"
proof -
  from Q have he: "napi_half E s d e P rs" by (simp add: napi_pair_def)
  then have ok: "bufs_ok s e (map fst rs) P" by (simp add: napi_half_def)
  have own: "\<forall>p \<in> set (map fst (take j rs)). owner s p = d" for j
    using napi_half_pkt [OF he] by (force simp: owner_def dest: in_set_takeD)
  have fl: "length (map fst rs) \<le> fuel" using fuel by simp
  from poll_loop_moves [OF ok fl budget napi_half_builds [OF he]] obtain n' s1 j ups where
    s1: "poll_loop E e (min quota budget) fuel 0 s = Inr (n', s1)" "j \<le> length (map fst rs)"
      "bufs_ok s1 e (drop j (map fst rs)) (give_all (owner s) (take j (map fst rs)) P)" "poll_kept e (set (take j (map fst rs))) s s1"
      "n' \<le> min quota budget" "n' < min quota budget \<longrightarrow> j = length (map fst rs)"
      "(\<forall>tr j. k_dev_alloc_skb E tr j) \<longrightarrow> n' - 0 = int j"
      "delivered (ktrace s1) = rev ups @ delivered (ktrace s)" "int (length ups) = n' - 0"
      "subseq ups (take j (map (\<lambda>(p, b). napi_skb E e b) rs))" "\<forall>x. on_list x (ktrace s1) = on_list x (ktrace s)"
      "k_queue_stopped E = queue_off \<longrightarrow> flow_ok s P \<longrightarrow> flow_ok s1 (give_all (owner s) (take j (map fst rs)) P)"
    by (elim exE conjE) (rule that)
  have n': "n' = int j" using s1(7) mem by simp
  have j: "j = m" using s1(2,5,6) n' m by (auto simp: min_def)
  have gives: "give_all (owner s) (take m (map fst rs)) P = P'"
    unfolding take_map give_all_own [OF own] P' by simp
  have ups: "ups = map (\<lambda>(p, b). napi_skb E e b) (take m rs)"
    using subseq_same_length [OF s1(10)] s1(2,9) n' j by (simp add: take_map)
  show thesis
    by (rule that [of s1]) (use s1(1,3,4,8,11,12) gives n' j ups in \<open>simp_all add: drop_map take_map\<close>)
qed

text \<open>The devices after a poll: the first \<open>m\<close> packets are back in the pool of their owner.\<close>

lemma napi_pair_polled:
  assumes Q: "napi_pair E s d e P rs qs" and P': "P' = P(d := rev (map fst (take m rs)) @ P d)"
    and bufs: "bufs_ok t e (map fst (drop m rs)) P'" and same: "bodies t = bodies s"
    and other: "\<And>p. p \<notin> fst ` set (take m rs) \<Longrightarrow> pkts t p = pkts s p"
    and queue: "map_option rx_queue (priv_of t d) = map_option rx_queue (priv_of s d)"
    and dom: "\<And>x. priv_of t x = None \<longleftrightarrow> priv_of s x = None"
    and ints: "\<And>x rs'. x = e \<and> rs' = drop m rs \<or> x = d \<and> rs' = qs \<Longrightarrow>
      \<exists>pr. priv_of t x = Some pr \<and> status pr = 0 \<and> rx_int_enabled pr = (if rs' = [] then 1 else 0)"
    and lists: "\<And>x. on_list x (ktrace t) \<longleftrightarrow> (if x = e then drop m rs \<noteq> [] else on_list x (ktrace s))"
    and devs: "snull_devs t = snull_devs s" "snull_interrupt t = snull_interrupt s"
  shows "napi_pair E t d e P' (drop m rs) qs"
proof -
  from Q have he: "napi_half E s d e P rs" and hd: "napi_half E s e d P qs" and de: "d \<noteq> e" by (simp_all add: napi_pair_def)
  then have ok: "bufs_ok s d (map fst qs) P" and full: "full_data (P d) s" "full_data (P e) s" by (simp_all add: napi_half_def)
  have apart: "p \<notin> fst ` set (take m rs)" if "p \<in> set (map fst qs)" for p
    using that napi_half_pkt [OF he, of p] napi_half_pkt [OF hd, of p] de by (force dest: in_set_takeD)
  have bufd: "bufs_ok t d (map fst qs) P'"
  proof (rule bufs_ok_other [OF bufs ok _ queue dom])
    show "pkts t p = pkts s p" if "p \<in> set (map fst qs)" for p by (rule other [OF apart [OF that]])
    show "p \<notin> set (P' x)" if "p \<in> set (map fst qs)" "priv_of s x \<noteq> None" for p x
      using that ok apart [OF that(1)] by (auto simp: P' bufs_ok_def)
  qed
  have took: "full_data (map fst (take m rs)) s"
    using napi_half_pkt [OF he] by (force simp: full_data_def dest: in_set_takeD)
  have fulls: "full_data (P' d) t" "full_data (P' e) t"
    using bodies_full [OF same full(1)] bodies_full [OF same full(2)] bodies_full [OF same took] de
    by (auto simp: P' full_data_def)
  have frames: "\<forall>(p, b) \<in> set (drop m rs). frame_in E t d p b" "\<forall>(p, b) \<in> set qs. frame_in E t e p b"
    by (clarify, erule frame_in_bodies [OF napi_half_frame [OF he in_set_dropD] same],
      clarify, erule frame_in_bodies [OF napi_half_frame [OF hd] same])
  have "napi_half E t d e P' (drop m rs)" "napi_half E t e d P' qs"
    unfolding napi_half_def using bufs bufd fulls frames lists ints [of e "drop m rs"] ints [of d qs] de hd
    by (simp_all add: napi_half_def)
  then show ?thesis using Q devs by (simp add: napi_pair_def peer_of_def)
qed

lemma napi_poll_step:
  assumes Q: "napi_pair E s d e P rs qs" and fuel: "length rs \<le> fuel"
    and quota: "quotas s e = Some quota" and budget: "0 \<le> min quota budget" and mem: "\<forall>tr n. k_dev_alloc_skb E tr n"
    and m: "m = min (length rs) (nat (min quota budget))" and P': "P' = P(d := rev (map fst (take m rs)) @ P d)"
  obtains s' where "orig_poll E fuel e budget s = Inr (if m = length rs then 0 else 1, budget - int m, s')"
    "napi_pair E s' d e P' (drop m rs) qs" "skbs s' = skbs s"
    "delivered (ktrace s') = rev (map (\<lambda>(p, b). napi_skb E e b) (take m rs)) @ delivered (ktrace s)"
    "k_queue_stopped E = queue_off \<Longrightarrow> flow_ok s P \<Longrightarrow> flow_ok s' P'"
    "dom (pkts s') = dom (pkts s)" "dom (priv_of s') = dom (priv_of s)"
proof -
  from Q have he: "napi_half E s d e P rs" and hd: "napi_half E s e d P qs" and de: "d \<noteq> e" by (simp_all add: napi_pair_def)
  obtain s1 where s1: "poll_loop E e (min quota budget) fuel 0 s = Inr (int m, s1)" "bufs_ok s1 e (map fst (drop m rs)) P'"
    "poll_kept e (fst ` set (take m rs)) s s1"
    "delivered (ktrace s1) = rev (map (\<lambda>(p, b). napi_skb E e b) (take m rs)) @ delivered (ktrace s)"
    "\<forall>x. on_list x (ktrace s1) = on_list x (ktrace s)" "k_queue_stopped E = queue_off \<longrightarrow> flow_ok s P \<longrightarrow> flow_ok s1 P'"
    by (rule napi_poll_run [OF Q fuel quota budget mem m P'])
  have em: "map fst (drop m rs) = [] \<longleftrightarrow> m = length rs" using m by auto
  obtain s' where s': "orig_poll E fuel e budget s = Inr (if map fst (drop m rs) = [] then 0 else 1, budget - int m, s')"
    "quotas s' e = Some (quota - int m)" "pkts s' = pkts s1" "same_bufs s1 s'"
    "ktrace s' = (if map fst (drop m rs) = [] then [NetifRxComplete e] else []) @ ktrace s1"
    "priv_of s' = (if map fst (drop m rs) = [] then (priv_of s1)(e := map_option (\<lambda>pr. pr\<lparr>rx_int_enabled := 1\<rparr>) (priv_of s1 e)) else priv_of s1)"
    "snull_devs s' = snull_devs s1" "snull_interrupt s' = snull_interrupt s1" "skbs s' = skbs s1"
    by (rule orig_poll_run [OF s1(1) quota s1(2)])
  have same: "bodies s' = bodies s" and other: "\<And>p. p \<notin> fst ` set (take m rs) \<Longrightarrow> pkts s' p = pkts s p"
    and queue: "\<And>x. x \<noteq> e \<Longrightarrow> map_option rx_queue (priv_of s1 x) = map_option rx_queue (priv_of s x)"
    using s1(3) s'(3) by (simp_all add: poll_kept_def bodies_def fun_eq_iff)
  have links: "links s1 = links s" by (rule links_poll_loop [OF s1(1)])
  then have ints: "map_option (\<lambda>pr. (status pr, rx_int_enabled pr)) (priv_of s1 x) = map_option (\<lambda>pr. (status pr, rx_int_enabled pr)) (priv_of s x)" for x
    by (simp add: links_def fun_eq_iff)
  have dom: "priv_of s' x = None \<longleftrightarrow> priv_of s x = None" for x
    using same_bufs_none [OF s'(4), of x] ints [of x] by (cases "priv_of s1 x"; cases "priv_of s x") simp_all
  have pair: "napi_pair E s' d e P' (drop m rs) qs"
  proof (rule napi_pair_polled [OF Q P' bufs_ok_same [OF s1(2) s'(4)] same other _ dom])
    show "map_option rx_queue (priv_of s' d) = map_option rx_queue (priv_of s d)" using queue [OF de] s'(6) de by simp
    show "\<exists>pr. priv_of s' x = Some pr \<and> status pr = 0 \<and> rx_int_enabled pr = (if rs' = [] then 1 else 0)"
      if "x = e \<and> rs' = drop m rs \<or> x = d \<and> rs' = qs" for x rs'
      using that ints [of x] s'(6) em he hd de by (auto simp: napi_half_def)
    show "on_list x (ktrace s') \<longleftrightarrow> (if x = e then drop m rs \<noteq> [] else on_list x (ktrace s))" for x
      using s'(5) s1(5) he by (auto simp: m napi_half_def)
  qed (use s'(7,8) links in \<open>simp_all add: links_def\<close>)
  show thesis
  proof (rule that [OF _ pair])
    show "orig_poll E fuel e budget s = Inr (if m = length rs then 0 else 1, budget - int m, s')"
      using s'(1) em by simp
    show "skbs s' = skbs s" using s'(9) links by (simp add: links_def)
    show "delivered (ktrace s') = rev (map (\<lambda>(p, b). napi_skb E e b) (take m rs)) @ delivered (ktrace s)"
      using s'(5) s1(4) by simp
    show "flow_ok s' P'" if "k_queue_stopped E = queue_off" "flow_ok s P"
      using s1(6) that s'(5) same_bufs_none [OF s'(4)] by (simp add: flow_ok_def del: not_None_eq)
    show "dom (pkts s') = dom (pkts s)" by (rule bodies_dom [OF same])
    show "dom (priv_of s') = dom (priv_of s)" using dom by (auto simp: dom_def)
  qed
qed

end
