(* ===== verification/Snull_Mailbox.thy ===== *)
theory Snull_Mailbox
  imports Snull_Napi Refinement "HOL-Library.Multiset"
begin

text \<open>
  What the original driver promises in polled mode: two mailboxes.  A transmission puts a frame
  into the mailbox of the other end and takes a buffer, a poll takes frames out, last in first out,
  and gives the buffers back.  The driver implements it call by call (the second interpretation of
  \<open>call_refinement\<close>); what the specification conserves, the driver does not lose.
\<close>

section \<open>The specification\<close>

record mailbox =
  m_wait :: "devp \<Rightarrow> byte list list"   \<comment> \<open>frames waiting at an end, last sent first\<close>
  m_free :: "devp \<Rightarrow> nat"              \<comment> \<open>free buffers of an end\<close>
  m_up :: "sk_buff list"              \<comment> \<open>frames handed up, last first\<close>

datatype napi_event =
    NXmit skbp sk_buff devp
  | NPoll devp int int

datatype napi_answer = Sent int | Polled int int

definition other_end :: "devp \<Rightarrow> devp \<Rightarrow> devp \<Rightarrow> devp" where
  "other_end d0 d1 d = (if d = d0 then d1 else d0)"

text \<open>A frame sent by \<open>d\<close> to \<open>e\<close> takes a buffer; \<open>m\<close> frames that end their wait at \<open>e\<close> give theirs back.\<close>

definition mail_put :: "devp \<Rightarrow> devp \<Rightarrow> byte list \<Rightarrow> mailbox \<Rightarrow> mailbox" where
  "mail_put d e b w = w\<lparr>m_wait := (m_wait w)(e := pad_frame b # m_wait w e), m_free := (m_free w)(d := m_free w d - 1)\<rparr>"

definition mail_take :: "snull_env \<Rightarrow> devp \<Rightarrow> devp \<Rightarrow> nat \<Rightarrow> mailbox \<Rightarrow> mailbox" where
  "mail_take E d e m w = w\<lparr>m_wait := (m_wait w)(e := drop m (m_wait w e)), m_free := (m_free w)(d := m_free w d + m),
     m_up := rev (map (napi_skb E e) (take m (m_wait w e))) @ m_up w\<rparr>"

text \<open>
  The kernel transmits while the end has buffers, frames of at most 1500 bytes; it polls an end
  that has frames waiting, with the quota of the device and a budget.
\<close>

fun mail_step :: "snull_env \<Rightarrow> devp \<Rightarrow> devp \<Rightarrow> napi_event \<Rightarrow> mailbox \<Rightarrow> (napi_answer \<times> mailbox) option" where
  "mail_step E d0 d1 (NXmit q k d) w =
     (if (d = d0 \<or> d = d1) \<and> 0 < m_free w d \<and> length (skb_data k) \<le> ETH_DATA_LEN then
        Some (Sent 0, mail_put d (other_end d0 d1 d) (skb_data k) w)
      else None)"
| "mail_step E d0 d1 (NPoll e quota budget) w =
     (if (e = d0 \<or> e = d1) \<and> m_wait w e \<noteq> [] \<and> 0 \<le> quota \<and> 0 \<le> budget then
        let m = min (length (m_wait w e)) (nat (min quota budget)) in
        Some (Polled (if m = length (m_wait w e) then 0 else 1) (budget - int m), mail_take E (other_end d0 d1 e) e m w)
      else None)"

text \<open>
  The driver's answers to the same calls: the kernel owns the skb it hands over, and sets the quota
  of the device before it polls.
\<close>

fun napi_call :: "snull_env \<Rightarrow> nat \<Rightarrow> napi_event \<Rightarrow> snull_state \<Rightarrow> (napi_answer \<times> snull_state) res" where
  "napi_call E F (NXmit q k d) s = bind_res (orig_tx E q d (set_skb q (Some k) s)) (\<lambda>(r, s'). Inr (Sent r, s'))"
| "napi_call E F (NPoll e quota budget) s = bind_res (upd_dev e (\<lambda>nd. nd\<lparr>dev_quota := quota\<rparr>) s) (\<lambda>s1.
     bind_res (orig_poll E F e budget s1) (\<lambda>(r, b, s2). Inr (Polled r b, s2)))"

section \<open>The relation\<close>

text \<open>The device never hangs, the kernel has memory for skbs and knows which queues are stopped.\<close>

definition napi_env :: "snull_env \<Rightarrow> bool" where
  "napi_env E \<longleftrightarrow> lockup E = 0 \<and> (\<forall>tr n. k_dev_alloc_skb E tr n) \<and> k_queue_stopped E = queue_off"

text \<open>
  Every packet in memory (\<open>H\<close>) is in a pool or waits; a queue is stopped exactly while its pool is empty.
  \<open>F\<close>, the fuel of the poll loop, is at least the number of packets.
\<close>

definition mail_rel :: "snull_env \<Rightarrow> nat \<Rightarrow> paddr set \<Rightarrow> devp \<Rightarrow> devp \<Rightarrow> snull_state \<Rightarrow> mailbox \<Rightarrow> bool" where
  "mail_rel E F H d0 d1 s w \<longleftrightarrow> (\<exists>P r0 r1. napi_pair E s d0 d1 P r1 r0
     \<and> map snd r0 = m_wait w d0 \<and> map snd r1 = m_wait w d1
     \<and> length (P d0) = m_free w d0 \<and> length (P d1) = m_free w d1 \<and> flow_ok s P
     \<and> H = set (P d0) \<union> set (P d1) \<union> fst ` set r0 \<union> fst ` set r1)
   \<and> dom (pkts s) = H \<and> dom (priv_of s) = {d0, d1} \<and> skbs s = Map.empty \<and> delivered (ktrace s) = m_up w
   \<and> card H \<le> F \<and> napi_env E"

lemma napi_half_cong:
  assumes "pkts t = pkts s" and "priv_of t = priv_of s" and "ktrace t = ktrace s" and "napi_half E s d e P rs"
  shows "napi_half E t d e P rs"
proof -
  have "same_bufs s t" using assms by (simp add: same_bufs_def)
  then show ?thesis using assms bufs_ok_same by (simp add: napi_half_def full_data_def frame_in_def) blast
qed

lemma napi_pair_cong:
  assumes "pkts t = pkts s" and "priv_of t = priv_of s" and "ktrace t = ktrace s"
    and "snull_devs t = snull_devs s" and "snull_interrupt t = snull_interrupt s" and "napi_pair E s d e P rs qs"
  shows "napi_pair E t d e P rs qs"
  using assms napi_half_cong [OF assms(1-3)] by (simp add: napi_pair_def peer_of_def)

lemma mail_rel_swap: "mail_rel E F H d0 d1 s w \<Longrightarrow> mail_rel E F H d1 d0 s w"
  unfolding mail_rel_def
proof (elim conjE exE, intro conjI)
  fix P r0 r1
  assume "napi_pair E s d0 d1 P r1 r0" "map snd r0 = m_wait w d0" "map snd r1 = m_wait w d1"
    "length (P d0) = m_free w d0" "length (P d1) = m_free w d1" "flow_ok s P"
    "H = set (P d0) \<union> set (P d1) \<union> fst ` set r0 \<union> fst ` set r1"
  then show "\<exists>P r0 r1. napi_pair E s d1 d0 P r1 r0 \<and> map snd r0 = m_wait w d1 \<and> map snd r1 = m_wait w d0
     \<and> length (P d1) = m_free w d1 \<and> length (P d0) = m_free w d0 \<and> flow_ok s P
     \<and> H = set (P d1) \<union> set (P d0) \<union> fst ` set r0 \<union> fst ` set r1"
    by (intro exI [of _ P] exI [of _ r1] exI [of _ r0]) (simp add: napi_pair_sym Un_ac)
qed auto

lemma napi_poll_fuel:
  assumes "napi_pair E s d e P rs qs" and "fst ` set rs \<subseteq> dom (pkts s)" and "finite (dom (pkts s))" and "card (dom (pkts s)) \<le> F"
  shows "length rs \<le> F"
proof -
  have "distinct (map fst rs)" using assms(1) by (auto simp: napi_pair_def napi_half_def intro: bufs_ok_distinct)
  then have "length rs = card (fst ` set rs)" by (metis distinct_card length_map list.set_map)
  also have "\<dots> \<le> card (dom (pkts s))" by (rule card_mono [OF assms(3,2)])
  finally show ?thesis using assms(4) by simp
qed

text \<open>One call, for a transmission from \<open>d\<close> to \<open>e\<close> and for a poll of \<open>e\<close>.\<close>

lemma mail_xmit:
  assumes rel: "mail_rel E F H d e s w" and free: "0 < m_free w d" and len: "length (skb_data k) \<le> ETH_DATA_LEN"
  shows "\<exists>s'. napi_call E F (NXmit q k d) s = Inr (Sent 0, s') \<and>
    mail_rel E F H d e s' (mail_put d e (skb_data k) w)"
proof -
  from rel obtain P r0 r1 where p: "napi_pair E s d e P r1 r0" "map snd r0 = m_wait w d" "map snd r1 = m_wait w e"
    "length (P d) = m_free w d" "length (P e) = m_free w e" "flow_ok s P"
    "H = set (P d) \<union> set (P e) \<union> fst ` set r0 \<union> fst ` set r1"
    unfolding mail_rel_def by (elim conjE exE) (rule that)
  from rel have r: "dom (pkts s) = H" "dom (priv_of s) = {d, e}" "skbs s = Map.empty" "delivered (ktrace s) = m_up w" "card H \<le> F" "napi_env E"
    by (simp_all add: mail_rel_def)
  let ?s = "set_skb q (Some k) s"
  from free p(4) obtain x ps where pool: "P d = x # ps" by (cases "P d") auto
  have pair: "napi_pair E ?s d e P r1 r0" by (rule napi_pair_cong [OF _ _ _ _ _ p(1)]) (simp_all add: snull_state)
  have q: "skbs ?s q = Some k" by (simp add: snull_state)
  have lk: "lockup E = 0" using r(6) by (simp add: napi_env_def)
  obtain s' where s': "orig_tx E q d ?s = Inr (0, s')" "napi_pair E s' d e (P(d := ps)) ((x, pad_frame (skb_data k)) # r1) r0"
    "skbs s' = (skbs ?s)(q := None)" "delivered (ktrace s') = delivered (ktrace ?s)"
    "\<And>y. queue_off (ktrace s') y \<longleftrightarrow> queue_off (ktrace ?s) y \<or> y = d \<and> ps = []"
    "dom (pkts s') = dom (pkts ?s)" "dom (priv_of s') = dom (priv_of ?s)" "x \<notin> fst ` set r1" "x \<notin> fst ` set r0"
    by (rule napi_tx_step [OF pair pool q refl len lk]) (rule that, assumption+)
  from p(1) have de: "d \<noteq> e" by (simp add: napi_pair_def)
  have flow: "flow_ok s' (P(d := ps))"
    unfolding flow_ok_def
  proof (intro allI impI)
    fix y assume "priv_of s' y \<noteq> None"
    then have "y \<in> dom (priv_of s)" using s'(7) by (auto simp: snull_state dom_def)
    then have "queue_off (ktrace s) y \<longleftrightarrow> P y = []" using p(6) by (auto simp: flow_ok_def)
    then show "queue_off (ktrace s') y \<longleftrightarrow> (P(d := ps)) y = []" using s'(5) [of y] pool by (auto simp: snull_state)
  qed
  let ?w = "mail_put d e (skb_data k) w"
  have "mail_rel E F H d e s' ?w"
    unfolding mail_rel_def
  proof (intro conjI)
    show "\<exists>P r0 r1. napi_pair E s' d e P r1 r0 \<and> map snd r0 = m_wait ?w d \<and> map snd r1 = m_wait ?w e \<and>
       length (P d) = m_free ?w d \<and> length (P e) = m_free ?w e \<and>
       flow_ok s' P \<and> H = set (P d) \<union> set (P e) \<union> fst ` set r0 \<union> fst ` set r1"
      using s'(2) flow p de pool
      by (intro exI [of _ "P(d := ps)"] exI [of _ r0] exI [of _ "(x, pad_frame (skb_data k)) # r1"])
        (auto simp: snull_state mail_put_def)
  qed (use s' r in \<open>auto simp: snull_state mail_put_def\<close>)
  with s'(1) show ?thesis by auto
qed

lemma mail_poll:
  assumes rel: "mail_rel E F H d e s w" and nn: "0 \<le> quota" "0 \<le> budget" and m: "m = min (length (m_wait w e)) (nat (min quota budget))"
  shows "\<exists>s'. napi_call E F (NPoll e quota budget) s = Inr (Polled (if m = length (m_wait w e) then 0 else 1) (budget - int m), s') \<and>
    mail_rel E F H d e s' (mail_take E d e m w)"
proof -
  from rel obtain P r0 r1 where p: "napi_pair E s d e P r1 r0" "map snd r0 = m_wait w d" "map snd r1 = m_wait w e"
    "length (P d) = m_free w d" "length (P e) = m_free w e" "flow_ok s P"
    "H = set (P d) \<union> set (P e) \<union> fst ` set r0 \<union> fst ` set r1"
    unfolding mail_rel_def by (elim conjE exE) (rule that)
  from rel have r: "dom (pkts s) = H" "dom (priv_of s) = {d, e}" "skbs s = Map.empty" "delivered (ktrace s) = m_up w" "card H \<le> F" "napi_env E"
    by (simp_all add: mail_rel_def)
  from p(1) have de: "d \<noteq> e" by (simp add: napi_pair_def)
  let ?s = "set_dev e (\<lambda>nd. nd\<lparr>dev_quota := quota\<rparr>) s"
  have pv: "priv_of ?s = priv_of s" by (simp add: snull_state)
  have pair: "napi_pair E ?s d e P r1 r0" by (rule napi_pair_cong [OF _ pv _ _ _ p(1)]) (simp_all add: snull_state)
  have "priv_of s e \<noteq> None" using r(2) by auto
  then obtain nd where nd: "netdevs s e = Some nd" by (auto simp: priv_of_def)
  then have upd: "upd_dev e (\<lambda>nd. nd\<lparr>dev_quota := quota\<rparr>) s = Inr ?s" and quota: "quotas ?s e = Some quota"
    by (simp_all add: upd_dev_eq priv_of_def set_dev_def quotas_def)
  have len: "length r1 = length (m_wait w e)" using p(3) by (metis length_map)
  have fuel: "length r1 \<le> F" by (rule napi_poll_fuel [OF p(1)]) (use p(7) r(1,5) in auto)
  have mem: "\<forall>tr n. k_dev_alloc_skb E tr n" and st: "k_queue_stopped E = queue_off" using r(6) by (simp_all add: napi_env_def)
  have nn': "0 \<le> min quota budget" using nn by simp
  let ?P = "P(d := rev (map fst (take m r1)) @ P d)"
  obtain s' where s': "orig_poll E F e budget ?s = Inr (if m = length r1 then 0 else 1, budget - int m, s')"
    "napi_pair E s' d e ?P (drop m r1) r0" "skbs s' = skbs ?s"
    "delivered (ktrace s') = rev (map (\<lambda>(p, b). napi_skb E e b) (take m r1)) @ delivered (ktrace ?s)"
    "k_queue_stopped E = queue_off \<Longrightarrow> flow_ok ?s P \<Longrightarrow> flow_ok s' ?P"
    "dom (pkts s') = dom (pkts ?s)" "dom (priv_of s') = dom (priv_of ?s)"
    by (rule napi_poll_step [OF pair fuel quota nn' mem, of m ?P]) (use m len in simp_all)
  have flow: "flow_ok s' ?P" by (rule s'(5) [OF st]) (use p(6) pv in \<open>simp add: flow_ok_def snull_state\<close>)
  have up: "map (\<lambda>(p, b). napi_skb E e b) (take m r1) = map (napi_skb E e) (take m (m_wait w e))"
    by (simp add: p(3) [symmetric] take_map case_prod_beta')
  have heap: "fst ` set (take m r1) \<union> fst ` set (drop m r1) = fst ` set r1"
    by (metis append_take_drop_id image_Un set_append)
  have heapd: "H = set (?P d) \<union> set (?P e) \<union> fst ` set r0 \<union> fst ` set (drop m r1)"
    using p(7) de heap [symmetric] by (simp add: snull_state Un_ac)
  let ?w = "mail_take E d e m w"
  have "mail_rel E F H d e s' ?w"
    unfolding mail_rel_def
  proof (intro conjI)
    show "\<exists>P r0 r1. napi_pair E s' d e P r1 r0 \<and> map snd r0 = m_wait ?w d \<and> map snd r1 = m_wait ?w e \<and>
       length (P d) = m_free ?w d \<and> length (P e) = m_free ?w e \<and>
       flow_ok s' P \<and> H = set (P d) \<union> set (P e) \<union> fst ` set r0 \<union> fst ` set r1"
      using s'(2) flow p(2-5) de m len heapd
      by (intro exI [of _ ?P] exI [of _ r0] exI [of _ "drop m r1"]) (simp add: drop_map [symmetric] mail_take_def)
  qed (use s' r up pv in \<open>auto simp: snull_state mail_take_def\<close>)
  with s'(1) upd len show ?thesis by auto
qed

interpretation mail: call_refinement "napi_call E F" "mail_step E d0 d1" "mail_rel E F H d0 d1" for E F H d0 d1
proof
  fix s w ev a w'
  assume rel: "mail_rel E F H d0 d1 s w" and step: "mail_step E d0 d1 ev w = Some (a, w')"
  have de: "d0 \<noteq> d1" using rel by (auto simp: mail_rel_def napi_pair_def)
  note swap = mail_rel_swap [OF rel]
  show "\<exists>s'. napi_call E F ev s = Inr (a, s') \<and> mail_rel E F H d0 d1 s' w'"
  proof (cases ev)
    case (NXmit q k d)
    with step have s: "d = d0 \<or> d = d1" "0 < m_free w d" "length (skb_data k) \<le> ETH_DATA_LEN" "a = Sent 0"
      and w': "w' = mail_put d (other_end d0 d1 d) (skb_data k) w" by (auto simp: Let_def split: if_splits)
    show ?thesis
    proof (cases "d = d0")
      case True
      then show ?thesis using mail_xmit [OF rel] s w' NXmit de by (simp add: other_end_def)
    next
      case False
      then have d: "d = d1" using s(1) by simp
      from mail_xmit [OF swap, of k q] s(2,3) obtain s' where "napi_call E F (NXmit q k d1) s = Inr (Sent 0, s')"
        "mail_rel E F H d1 d0 s' w'" using d w' de by (auto simp: other_end_def)
      then show ?thesis using NXmit d s(4) mail_rel_swap by blast
    qed
  next
    case (NPoll e quota budget)
    define m where "m = min (length (m_wait w e)) (nat (min quota budget))"
    from NPoll step have s: "e = d0 \<or> e = d1" "0 \<le> quota" "0 \<le> budget"
      and a: "a = Polled (if m = length (m_wait w e) then 0 else 1) (budget - int m)"
      and w': "w' = mail_take E (other_end d0 d1 e) e m w"
      by (auto simp: Let_def m_def split: if_splits)
    show ?thesis
    proof (cases "e = d1")
      case True
      then show ?thesis using mail_poll [OF rel s(2,3) m_def [unfolded True]] w' a NPoll de by (simp add: other_end_def)
    next
      case False
      then have e: "e = d0" using s(1) by simp
      from mail_poll [OF swap s(2,3) m_def [unfolded e]] obtain s' where "napi_call E F ev s = Inr (a, s')" "mail_rel E F H d1 d0 s' w'"
        using NPoll e w' a de by (auto simp: other_end_def)
      then show ?thesis using mail_rel_swap by blast
    qed
  qed
qed

text \<open>What the kernel sees of a related state.\<close>

lemma mail_rel_view:
  assumes "mail_rel E F H d0 d1 s w"
  shows "\<forall>x \<in> {d0, d1}. (queue_off (ktrace s) x \<longleftrightarrow> m_free w x = 0) \<and> (on_list x (ktrace s) \<longleftrightarrow> m_wait w x \<noteq> [])"
proof -
  from assms obtain P r0 r1 where p: "napi_pair E s d0 d1 P r1 r0" "map snd r0 = m_wait w d0" "map snd r1 = m_wait w d1"
    "length (P d0) = m_free w d0" "length (P d1) = m_free w d1" "flow_ok s P"
    unfolding mail_rel_def by (elim conjE exE) (rule that)
  have "priv_of s d0 \<noteq> None" "priv_of s d1 \<noteq> None" using assms by (auto simp: mail_rel_def)
  then have "queue_off (ktrace s) d0 \<longleftrightarrow> P d0 = []" "queue_off (ktrace s) d1 \<longleftrightarrow> P d1 = []"
    using p(6) by (auto simp: flow_ok_def)
  moreover have "on_list d1 (ktrace s) \<longleftrightarrow> r1 \<noteq> []" "on_list d0 (ktrace s) \<longleftrightarrow> r0 \<noteq> []"
    using p(1) by (simp_all add: napi_pair_def napi_half_def)
  ultimately show ?thesis using p(2-5) by auto
qed

section \<open>Nothing is lost\<close>

text \<open>The frames sent to \<open>x\<close>, in order, and the skbs handed up by it.\<close>

fun mail_sent :: "devp \<Rightarrow> devp \<Rightarrow> devp \<Rightarrow> napi_event list \<Rightarrow> byte list list" where
  "mail_sent d0 d1 x [] = []"
| "mail_sent d0 d1 x (NXmit q k d # evs) = (if other_end d0 d1 d = x then pad_frame (skb_data k) # mail_sent d0 d1 x evs else mail_sent d0 d1 x evs)"
| "mail_sent d0 d1 x (NPoll e quota budget # evs) = mail_sent d0 d1 x evs"

definition up_at :: "devp \<Rightarrow> sk_buff list \<Rightarrow> sk_buff list" where
  "up_at x ks = filter (\<lambda>k. skb_dev k = Some x) ks"

lemma up_at_napi: "up_at x (rev (map (napi_skb E e) bs) @ ks) = (if x = e then rev (map (napi_skb E e) bs) else []) @ up_at x ks"
  by (simp add: up_at_def filter_map comp_def napi_skb_def flip: rev_map)

lemma mail_step_conserves:
  assumes "mail_step E d0 d1 ev w = Some (a, w')" and "d0 \<noteq> d1" and "x = d0 \<or> x = d1"
  shows "m_free w' (other_end d0 d1 x) + length (m_wait w' x) = m_free w (other_end d0 d1 x) + length (m_wait w x)"
    and "mset (up_at x (m_up w')) + mset (map (napi_skb E x) (m_wait w' x))
      = mset (up_at x (m_up w)) + mset (map (napi_skb E x) (m_wait w x @ mail_sent d0 d1 x [ev]))"
proof -
  have split: "mset (map f (take m xs)) + mset (map f (drop m xs)) = mset (map f xs)" for f :: "byte list \<Rightarrow> sk_buff" and m xs
    by (metis append_take_drop_id map_append mset_append)
  show "m_free w' (other_end d0 d1 x) + length (m_wait w' x) = m_free w (other_end d0 d1 x) + length (m_wait w x)"
    using assms by (cases ev) (auto simp: mail_put_def mail_take_def other_end_def Let_def split: if_splits)
  show "mset (up_at x (m_up w')) + mset (map (napi_skb E x) (m_wait w' x))
      = mset (up_at x (m_up w)) + mset (map (napi_skb E x) (m_wait w x @ mail_sent d0 d1 x [ev]))"
  proof (cases ev)
    case (NXmit q k d)
    then show ?thesis using assms by (auto simp: mail_put_def other_end_def split: if_splits)
  next
    case (NPoll e quota budget)
    then obtain m where w': "w' = mail_take E (other_end d0 d1 e) e m w" using assms(1) by (auto simp: Let_def split: if_splits)
    then show ?thesis using NPoll split [of "napi_skb E e" m "m_wait w e"]
      by (simp add: mail_take_def up_at_napi ac_simps)
  qed
qed

lemma mail_run_conserves:
  assumes "spec_run (mail_step E d0 d1) evs w = Some (as, w')" and "d0 \<noteq> d1" and "x = d0 \<or> x = d1"
  shows "m_free w' (other_end d0 d1 x) + length (m_wait w' x) = m_free w (other_end d0 d1 x) + length (m_wait w x)
     \<and> mset (up_at x (m_up w')) + mset (map (napi_skb E x) (m_wait w' x))
      = mset (up_at x (m_up w)) + mset (map (napi_skb E x) (m_wait w x @ mail_sent d0 d1 x evs))"
  using assms(1)
proof (induction evs arbitrary: w as)
  case (Cons ev evs)
  from Cons.prems obtain a w1 bs where w1: "mail_step E d0 d1 ev w = Some (a, w1)" "spec_run (mail_step E d0 d1) evs w1 = Some (bs, w')"
    by (auto simp: bind_eq_Some_conv)
  have "mail_sent d0 d1 x (ev # evs) = mail_sent d0 d1 x [ev] @ mail_sent d0 d1 x evs" by (cases ev) simp_all
  then show ?case using mail_step_conserves [OF w1(1) assms(2,3)] Cons.IH [OF w1(2)] by (simp add: ac_simps)
qed simp

section \<open>Unloading\<close>

lemma mail_unload:
  assumes rel: "mail_rel E F H d0 d1 s w" and first: "snull_devs s 0 = Some d0"
  shows "\<exists>s'. orig_cleanup F s = Inr s' \<and> priv_of s' = Map.empty \<and> skbs s' = Map.empty
     \<and> card (dom (pkts s')) = length (m_wait w d0) + length (m_wait w d1)"
proof -
  from rel obtain P r0 r1 where p: "napi_pair E s d0 d1 P r1 r0" "map snd r0 = m_wait w d0" "map snd r1 = m_wait w d1"
    "H = set (P d0) \<union> set (P d1) \<union> fst ` set r0 \<union> fst ` set r1"
    unfolding mail_rel_def by (elim conjE exE) (rule that)
  from rel have r: "dom (pkts s) = H" "dom (priv_of s) = {d0, d1}" "skbs s = Map.empty" "card H \<le> F"
    by (simp_all add: mail_rel_def)
  from p(1) first have de: "d0 \<noteq> d1" and second: "snull_devs s 1 = Some d1"
    and h1: "napi_half E s d0 d1 P r1" and h0: "napi_half E s d1 d0 P r0" by (simp_all add: napi_pair_def peer_of_def)
  from h0 h1 have ok: "bufs_ok s d1 (map fst r1) P" "bufs_ok s d0 (map fst r0) P" by (simp_all add: napi_half_def)
  have alive: "priv_of s d0 \<noteq> None" "priv_of s d1 \<noteq> None" using r(2) by auto
  then have pools: "pool_holds d0 (P d0) s" "pool_holds d1 (P d1) s" using ok(1) by (simp_all add: bufs_ok_def)
  have fin: "finite H" using p(4) by simp
  have "length (P d) \<le> F" if "d = d0 \<or> d = d1" for d
  proof -
    have "distinct (P d)" using that pools by (auto simp: pool_holds_def dest: chain_distinct)
    then have "length (P d) = card (set (P d))" by (simp add: distinct_card)
    also have "\<dots> \<le> card H" using that p(4) by (intro card_mono [OF fin]) auto
    finally show ?thesis using r(4) by simp
  qed
  then have fuel: "length (P d0) \<le> F" "length (P d1) \<le> F" by blast+
  obtain s' where s': "snull_cleanup F s = Inr s'" "pkts s' = (\<lambda>p. if p \<in> set (P d0) \<union> set (P d1) then None else pkts s p)"
    "priv_of s' = (priv_of s)(d0 := None, d1 := None)" "same_frame s s'"
    by (rule snull_cleanup_frees [OF first second de pools fuel])
  have apart: "fst ` set r0 \<inter> fst ` set r1 = {}"
    using napi_half_pkt [OF h0] napi_half_pkt [OF h1] de by force
  have "p \<notin> set (P x)" if "p \<in> set (map fst r0) \<or> p \<in> set (map fst r1)" "x = d0 \<or> x = d1" for p x
    using that ok alive unfolding bufs_ok_def by blast
  then have "(fst ` set r0 \<union> fst ` set r1) \<inter> (set (P d0) \<union> set (P d1)) = {}" by auto
  then have "dom (pkts s') = fst ` set r0 \<union> fst ` set r1"
    using s'(2) r(1) p(4) by (auto simp: dom_def)
  moreover have "card (fst ` set r0) = length r0" "card (fst ` set r1) = length r1"
    using bufs_ok_distinct [OF ok(1)] bufs_ok_distinct [OF ok(2)] by (metis distinct_card length_map list.set_map)+
  moreover have "length r0 = length (m_wait w d0)" "length r1 = length (m_wait w d1)" using p(2,3) by (metis length_map)+
  ultimately have "card (dom (pkts s')) = length (m_wait w d0) + length (m_wait w d1)"
    using apart by (simp add: card_Un_disjoint)
  moreover have "priv_of s' = Map.empty" using s'(3) r(2) by (auto simp: dom_def fun_eq_iff)
  ultimately show ?thesis using s'(1,4) r(3) by (auto simp: orig_cleanup_def same_frame_def)
qed

lemma mail_unloads:
  assumes "mail_rel E F H d0 d1 s w"
  shows "\<exists>s'. orig_cleanup F s = Inr s' \<and> priv_of s' = Map.empty \<and> skbs s' = Map.empty
     \<and> card (dom (pkts s')) = length (m_wait w d0) + length (m_wait w d1)"
proof -
  from assms have "snull_devs s 0 = Some d0 \<or> snull_devs s 0 = Some d1"
    by (auto simp: mail_rel_def napi_pair_def peer_of_def split: if_splits)
  then show ?thesis
  proof
    assume "snull_devs s 0 = Some d1"
    from mail_unload [OF mail_rel_swap [OF assms] this] show ?thesis by (simp add: add.commute)
  qed (rule mail_unload [OF assms])
qed

end
