(* ===== verification/Snull_Mail_Claims.thy ===== *)
theory Snull_Mail_Claims
  imports Snull_Mailbox
begin

text \<open>
  The properties of the original driver in polled mode: it is a pair of mailboxes, nothing is lost,
  a poll drains them, and from loading to unloading it keeps exactly the frames that wait.
\<close>

section \<open>Two interfaces in polled mode\<close>

text \<open>The devices of the demonstration, with two buffers and one, in polled mode.\<close>

definition napi_demo :: snull_state where
  "napi_demo = demo_state\<lparr>snull_interrupt := Some NapiInterrupt\<rparr>"

definition mail_demo :: mailbox where
  "mail_demo = \<lparr>m_wait = \<lambda>_. [], m_free = (\<lambda>x. if x = 101 then 2 else 1), m_up = []\<rparr>"

text \<open>Two frames to 102, which takes the last first; one back meanwhile.\<close>

definition demo_skb :: "byte list \<Rightarrow> sk_buff" where
  "demo_skb b = \<lparr>skb_data = b, skb_dev = None, skb_protocol = 0, skb_csum_unnecessary = False\<rparr>"

definition mail_calls :: "napi_event list" where
  "mail_calls = [NXmit 7 (demo_skb echo_frame) 101, NXmit 8 (demo_skb short_frame) 101, NPoll 102 64 1,
     NXmit 9 (demo_skb echo_frame) 102]"

lemma napi_demo_rel: "mail_rel demo_env 3 {11, 12, 21} 101 102 napi_demo mail_demo"
proof -
  have f: "pkts napi_demo = pkts demo_state" "snull_devs napi_demo = snull_devs demo_state"
    "snull_interrupt napi_demo = Some NapiInterrupt" "priv_of napi_demo = priv_of demo_state" "ktrace napi_demo = []"
    "skbs napi_demo = Map.empty"
    by (simp_all add: napi_demo_def demo_state_def priv_of_def fun_eq_iff)
  have dom: "priv_of demo_state x \<noteq> None \<longleftrightarrow> x = 101 \<or> x = 102" for x by (auto simp: priv_of_def demo_state_def)
  have pools: "pool_holds 101 [11, 12] napi_demo" "pool_holds 102 [21] napi_demo"
    by (auto simp: pool_holds_def demo_privs nexts_def f demo_fields demo_pkt_def zero_priv_def)
  have bufs: "bufs_ok napi_demo x [] demo_pools" if "x = 101 \<or> x = 102" for x
    using that dom pools unfolding bufs_ok_def by (auto simp: demo_pools_def rx_holds_def f demo_privs zero_priv_def)
  have full: "full_data (demo_pools x) napi_demo" for x
    by (auto simp: full_data_def demo_pools_def f demo_fields demo_pkt_def)
  have half: "napi_half demo_env napi_demo d e demo_pools []" if "e = 101 \<or> e = 102" for d e
    using that bufs full by (auto simp: napi_half_def f demo_privs zero_priv_def)
  have pair: "napi_pair demo_env napi_demo 101 102 demo_pools [] []"
    using half by (simp add: napi_pair_def peer_of_def f demo_fields [unfolded One_nat_def])
  have flow: "flow_ok napi_demo demo_pools" using dom by (auto simp: flow_ok_def f demo_pools_def)
  have "dom (priv_of demo_state) = {101, 102}" using dom by auto
  moreover have "dom (pkts demo_state) = {11, 12, 21}" by (auto simp: demo_state_def)
  moreover have "napi_env demo_env" using demo_laws by (simp add: napi_env_def)
  ultimately show ?thesis unfolding mail_rel_def using pair flow
    by (intro conjI exI [of _ demo_pools] exI [of _ "[]"]) (auto simp: f mail_demo_def demo_pools_def)
qed

lemma mail_demo_run:
  "\<exists>w. spec_run (mail_step demo_env 101 102) mail_calls mail_demo = Some ([Sent 0, Sent 0, Polled 1 0, Sent 0], w)
     \<and> m_wait w 102 = [echo_frame] \<and> m_wait w 101 = [echo_frame] \<and> m_free w 101 = 1 \<and> m_free w 102 = 0
     \<and> m_up w = [napi_skb demo_env 102 (pad_frame short_frame)]"
proof -
  have len: "length echo_frame = 60" "length short_frame = 42" by (simp_all add: echo_frame_def short_frame_def)
  then have pad: "pad_frame echo_frame = echo_frame" by (simp add: pad_frame_def frame_consts)
  show ?thesis
    by (simp add: mail_calls_def mail_demo_def demo_skb_def mail_put_def mail_take_def other_end_def Let_def len pad frame_consts)
qed

section \<open>The refinement\<close>

text \<open>
  C3. The original driver in polled mode is a pair of mailboxes: any sequence of transmissions and
  polls the kernel may make is answered as the specification answers it, faults nowhere, hands up the
  same frames, and frees every skb.  The kernel may transmit on a device exactly while its queue is not stopped, and polls it
  exactly while frames wait.
\<close>

theorem orig_is_mailbox:
  assumes "mail_rel E F H d0 d1 s w" and "spec_run (mail_step E d0 d1) evs w = Some (as, w')"
  shows "\<exists>s'. call_run (napi_call E F) evs s = Inr (as, s') \<and> mail_rel E F H d0 d1 s' w'
     \<and> delivered (ktrace s') = m_up w' \<and> skbs s' = Map.empty \<and> dom (pkts s') = dom (pkts s)
     \<and> (\<forall>x \<in> {d0, d1}. (queue_off (ktrace s') x \<longleftrightarrow> m_free w' x = 0) \<and> (on_list x (ktrace s') \<longleftrightarrow> m_wait w' x \<noteq> []))"
proof -
  obtain s' where s': "call_run (napi_call E F) evs s = Inr (as, s')" "mail_rel E F H d0 d1 s' w'"
    using mail.run_spec [OF assms] by blast
  with assms(1) mail_rel_view [OF s'(2)] show ?thesis by (auto simp: mail_rel_def)
qed

lemma orig_is_mailbox_witness:
  "\<exists>s'. call_run (napi_call demo_env 3) mail_calls napi_demo = Inr ([Sent 0, Sent 0, Polled 1 0, Sent 0], s')
     \<and> delivered (ktrace s') = [napi_skb demo_env 102 (pad_frame short_frame)]
     \<and> queue_off (ktrace s') 102 \<and> \<not> queue_off (ktrace s') 101 \<and> on_list 102 (ktrace s')"
proof -
  obtain w where w: "spec_run (mail_step demo_env 101 102) mail_calls mail_demo = Some ([Sent 0, Sent 0, Polled 1 0, Sent 0], w)"
     "m_wait w 102 = [echo_frame]" "m_free w 101 = 1" "m_free w 102 = 0" "m_up w = [napi_skb demo_env 102 (pad_frame short_frame)]"
    using mail_demo_run by blast
  from orig_is_mailbox [OF napi_demo_rel w(1)] w(2-5) show ?thesis by auto
qed



text \<open>
  C34. A poll with quota and budget for all frames that wait at \<open>x\<close> hands them all up, last sent first, takes the device
  off the poll list and lets the other end send again.
\<close>

theorem orig_poll_drains:
  assumes "mail_rel E F H d0 d1 s w" and "x = d0 \<or> x = d1" and "m_wait w x \<noteq> []"
    and "int (length (m_wait w x)) \<le> quota" and "int (length (m_wait w x)) \<le> budget"
  shows "\<exists>s'. napi_call E F (NPoll x quota budget) s = Inr (Polled 0 (budget - int (length (m_wait w x))), s')
     \<and> delivered (ktrace s') = rev (map (napi_skb E x) (m_wait w x)) @ delivered (ktrace s)
     \<and> \<not> on_list x (ktrace s') \<and> \<not> queue_off (ktrace s') (other_end d0 d1 x)"
proof -
  let ?n = "length (m_wait w x)"
  have m: "min ?n (nat (min quota budget)) = ?n" using assms(4,5) by simp
  have "mail_step E d0 d1 (NPoll x quota budget) w = Some (Polled 0 (budget - int ?n), mail_take E (other_end d0 d1 x) x ?n w)"
    using assms(2-5) m by (simp add: Let_def)
  from mail.call_spec [OF assms(1) this] obtain s' where s': "napi_call E F (NPoll x quota budget) s = Inr (Polled 0 (budget - int ?n), s')"
    "mail_rel E F H d0 d1 s' (mail_take E (other_end d0 d1 x) x ?n w)" by blast
  have "delivered (ktrace s') = rev (map (napi_skb E x) (m_wait w x)) @ m_up w" "delivered (ktrace s) = m_up w"
    using s'(2) assms(1) by (simp_all add: mail_rel_def mail_take_def)
  with s' mail_rel_view [OF s'(2)] assms(2,3) show ?thesis by (auto simp: mail_take_def other_end_def)
qed

lemma orig_poll_drains_witness:
  "\<exists>s s'. napi_call demo_env 3 (NPoll 102 64 5) s = Inr (Polled 0 4, s')
     \<and> delivered (ktrace s') = [napi_skb demo_env 102 echo_frame, napi_skb demo_env 102 (pad_frame short_frame)]
     \<and> \<not> on_list 102 (ktrace s')"
proof -
  obtain as w where w: "spec_run (mail_step demo_env 101 102) mail_calls mail_demo = Some (as, w)"
     "m_wait w 102 = [echo_frame]" "m_up w = [napi_skb demo_env 102 (pad_frame short_frame)]" using mail_demo_run by blast
  obtain s where s: "mail_rel demo_env 3 {11, 12, 21} 101 102 s w" using mail.run_spec [OF napi_demo_rel w(1)] by blast
  then have "delivered (ktrace s) = [napi_skb demo_env 102 (pad_frame short_frame)]" using w(3) by (simp add: mail_rel_def)
  with orig_poll_drains [OF s, of 102 64 5] w(2) show ?thesis by auto
qed

section \<open>From loading to unloading\<close>

text \<open>The mailboxes of a module just loaded: nothing waits, every buffer is free.\<close>

definition mail_start :: "snull_env \<Rightarrow> mailbox" where
  "mail_start E = \<lparr>m_wait = \<lambda>_. [], m_free = \<lambda>_. nat (pool_size E), m_up = []\<rparr>"

lemma load_calls_silent: "set tr \<subseteq> load_calls \<Longrightarrow> delivered tr = [] \<and> \<not> on_list x tr \<and> \<not> queue_off tr x"
  by (induction tr) (auto simp: load_calls_def)

lemma fresh_pair_mail:
  assumes f: "fresh_pair s d0 d1 ps qs" and len: "length ps = nat (pool_size E)" "length qs = nat (pool_size E)" "0 < pool_size E"
    and intr: "snull_interrupt s = Some NapiInterrupt" and tr: "set (ktrace s) \<subseteq> load_calls" and env: "napi_env E"
  shows "mail_rel E (2 * nat (pool_size E)) (set ps \<union> set qs) d0 d1 s (mail_start E)"
proof -
  let ?P = "(\<lambda>_. [])(d0 := ps, d1 := qs)"
  from f have d: "snull_devs s 0 = Some d0" "snull_devs s 1 = Some d1" "d0 \<noteq> d1" "pool_holds d0 ps s" "pool_holds d1 qs s"
    and full: "full_data ps s" "full_data qs s" and v: "priv_of s = [d0 \<mapsto> fresh_priv ps, d1 \<mapsto> fresh_priv qs]"
    and h: "dom (pkts s) = set ps \<union> set qs" "skbs s = Map.empty" by (simp_all add: fresh_pair_def)
  note silent = load_calls_silent [OF tr]
  have pr: "\<exists>zs. priv_of s x = Some (fresh_priv zs)" if "x = d0 \<or> x = d1" for x using that v by auto
  have bufs: "bufs_ok s x [] ?P" if "x = d0 \<or> x = d1" for x
    using pr [OF that] v d(3-5) unfolding bufs_ok_def
    by (auto simp: rx_holds_def fresh_priv_def zero_priv_def split: if_splits)
  have half: "napi_half E s x y ?P []" if "x = d0 \<or> x = d1" "y = d0 \<or> y = d1" for x y
    using that full d(3) bufs [OF that(2)] pr [OF that(2)] silent
    by (auto simp: napi_half_def fresh_priv_def zero_priv_def)
  have "napi_pair E s d0 d1 ?P [] []"
    using half d intr by (simp add: napi_pair_def peer_of_def)
  moreover have "flow_ok s ?P" using len silent v by (auto simp: flow_ok_def)
  moreover have "card (set ps \<union> set qs) \<le> 2 * nat (pool_size E)"
    using card_Un_le [of "set ps" "set qs"] card_length [of ps] card_length [of qs] len by simp
  moreover have "dom (priv_of s) = {d0, d1}" using v by auto
  ultimately show ?thesis unfolding mail_rel_def using d(3) h len silent env
    by (intro conjI exI [of _ ?P] exI [of _ "[]"]) (simp_all add: mail_start_def)
qed

text \<open>
  C4. With NAPI, the original from loading to unloading: when the kernel refuses nothing the load returns 0 with \<open>pool_size\<close>
  free buffers on each side; every sequence of transmissions and polls the kernel may then make is
  answered as by two mailboxes; unloading afterwards frees both devices and every packet
  but those of frames that still wait to be polled, which stay in memory for ever.
\<close>

theorem orig_napi_lifecycle:
  assumes "kmalloc_law E" and "alloc_netdev_law E" and "use_napi E \<noteq> 0" and "0 < pool_size E" and "kmalloc_total E"
    and "\<forall>tr. k_alloc_netdev E tr \<noteq> None" and "\<forall>tr d. k_register_netdev E tr d = 0" and "napi_env E"
  shows "\<exists>s d0 d1. orig_init_module E (nat (pool_size E)) snull_boot = Inr (0, s) \<and> snull_devs s 0 = Some d0 \<and> snull_devs s 1 = Some d1 \<and> d0 \<noteq> d1
     \<and> (\<forall>evs as w. spec_run (mail_step E d0 d1) evs (mail_start E) = Some (as, w) \<longrightarrow>
         (let F = 2 * nat (pool_size E) in \<exists>s1 s2. call_run (napi_call E F) evs s = Inr (as, s1) \<and> orig_cleanup F s1 = Inr s2
           \<and> netdevs s2 = Map.empty \<and> skbs s2 = Map.empty \<and> delivered (ktrace s1) = m_up w
           \<and> card (dom (pkts s2)) = length (m_wait w d0) + length (m_wait w d1)))"
proof -
  obtain s d0 d1 ps qs where s: "orig_init_module E (nat (pool_size E)) snull_boot = Inr (0, s)" "fresh_pair s d0 d1 ps qs"
    "length ps = nat (pool_size E)" "length qs = nat (pool_size E)" "snull_interrupt s = Some (intr_of E)" "set (ktrace s) \<subseteq> load_calls"
    using orig_loading.load_ready [OF assms(1,2) TrueI assms(5-7)] by blast
  have "snull_interrupt s = Some NapiInterrupt" using s(5) assms(3) by (simp add: intr_of_def)
  note rel = fresh_pair_mail [OF s(2-4) assms(4) this s(6) assms(8)]
  have "let F = 2 * nat (pool_size E) in \<exists>s1 s2. call_run (napi_call E F) evs s = Inr (as, s1) \<and> orig_cleanup F s1 = Inr s2
           \<and> netdevs s2 = Map.empty \<and> skbs s2 = Map.empty \<and> delivered (ktrace s1) = m_up w
           \<and> card (dom (pkts s2)) = length (m_wait w d0) + length (m_wait w d1)"
    if "spec_run (mail_step E d0 d1) evs (mail_start E) = Some (as, w)" for evs as w
  proof -
    from mail.run_spec [OF rel that] obtain s1 where s1: "call_run (napi_call E (2 * nat (pool_size E))) evs s = Inr (as, s1)"
      "mail_rel E (2 * nat (pool_size E)) (set ps \<union> set qs) d0 d1 s1 w" by blast
    from mail_unloads [OF s1(2)] s1 show ?thesis by (auto simp: Let_def netdevs_empty mail_rel_def)
  qed
  moreover have "snull_devs s 0 = Some d0 \<and> snull_devs s 1 = Some d1 \<and> d0 \<noteq> d1" using s(2) by (simp add: fresh_pair_def)
  ultimately show ?thesis using s(1) by blast
qed

lemma orig_napi_lifecycle_witness:
  "\<exists>s. orig_init_module (demo_env\<lparr>use_napi := 1\<rparr>) 8 snull_boot = Inr (0, s)
     \<and> (\<exists>d0 s1 s2. call_run (napi_call (demo_env\<lparr>use_napi := 1\<rparr>) 16) [NXmit 7 (demo_skb echo_frame) d0] s = Inr ([Sent 0], s1)
       \<and> orig_cleanup 16 s1 = Inr s2 \<and> card (dom (pkts s2)) = 1)"
proof -
  let ?E = "demo_env\<lparr>use_napi := 1\<rparr>"
  have laws: "kmalloc_law ?E" "alloc_netdev_law ?E" "use_napi ?E \<noteq> 0" "0 < pool_size ?E" "kmalloc_total ?E"
    "\<forall>tr. k_alloc_netdev ?E tr \<noteq> None" "\<forall>tr d. k_register_netdev ?E tr d = 0" "napi_env ?E" and n: "nat (pool_size ?E) = 8"
    using demo_laws by (simp_all add: kmalloc_law_def alloc_netdev_law_def kmalloc_total_def napi_env_def)
  from orig_napi_lifecycle [OF laws] obtain s d0 d1 where s: "orig_init_module ?E 8 snull_boot = Inr (0, s)" "d0 \<noteq> d1"
    and run: "\<forall>evs as w. spec_run (mail_step ?E d0 d1) evs (mail_start ?E) = Some (as, w) \<longrightarrow>
         (let F = 2 * 8 in \<exists>s1 s2. call_run (napi_call ?E F) evs s = Inr (as, s1) \<and> orig_cleanup F s1 = Inr s2
           \<and> netdevs s2 = Map.empty \<and> skbs s2 = Map.empty \<and> delivered (ktrace s1) = m_up w
           \<and> card (dom (pkts s2)) = length (m_wait w d0) + length (m_wait w d1))"
    unfolding n by (elim exE conjE) (rule that)
  let ?w = "mail_put d0 d1 echo_frame (mail_start ?E)"
  have "length echo_frame = 60" by (simp add: echo_frame_def)
  then have "spec_run (mail_step ?E d0 d1) [NXmit 7 (demo_skb echo_frame) d0] (mail_start ?E) = Some ([Sent 0], ?w)"
    using demo_laws(10) by (simp add: mail_start_def demo_skb_def other_end_def frame_consts)
  from run [rule_format, OF this] obtain s1 s2 where "call_run (napi_call ?E 16) [NXmit 7 (demo_skb echo_frame) d0] s = Inr ([Sent 0], s1)"
    "orig_cleanup 16 s1 = Inr s2" "card (dom (pkts s2)) = length (m_wait ?w d0) + length (m_wait ?w d1)"
    by (auto simp: Let_def)
  moreover have "length (m_wait ?w d0) + length (m_wait ?w d1) = 1" using s(2) by (simp add: mail_put_def mail_start_def)
  ultimately show ?thesis using s(1) by metis
qed

text \<open>
  However the kernel's allocations and registrations fail, with and without NAPI, loading the
  original does not fault; a load that fails reports -ENOMEM or -ENODEV and has freed everything.
\<close>

theorem orig_failed_load_frees_all:
  assumes "kmalloc_law E" and "alloc_netdev_law E" and "nat (pool_size E) \<le> fuel"
  shows "\<exists>r s. orig_init_module E fuel snull_boot = Inr (r, s)
     \<and> (r \<noteq> 0 \<longrightarrow> (r = - ENOMEM \<or> r = - ENODEV) \<and> pkts s = Map.empty \<and> netdevs s = Map.empty)"
  by (rule orig_loading.failed_load [OF assms(1,2) TrueI assms(3)])

lemma orig_failed_load_frees_all_witness:
  "\<exists>r s. orig_init_module (refusing_env\<lparr>use_napi := 1\<rparr>) 8 snull_boot = Inr (r, s)
     \<and> (r \<noteq> 0 \<longrightarrow> (r = - ENOMEM \<or> r = - ENODEV) \<and> pkts s = Map.empty \<and> netdevs s = Map.empty)"
proof (rule orig_failed_load_frees_all)
  show "kmalloc_law (refusing_env\<lparr>use_napi := 1\<rparr>)" "nat (pool_size (refusing_env\<lparr>use_napi := 1\<rparr>)) \<le> 8"
    using demo_laws by (simp_all add: refusing_env_def kmalloc_law_def)
  show "alloc_netdev_law (refusing_env\<lparr>use_napi := 1\<rparr>)"
    using demo_laws(3) by (simp add: refusing_env_def alloc_netdev_law_def)
qed

end
