(* ===== verification/Chardev.thy ===== *)
theory Chardev
  imports KM_Prelude "HOL-Library.Multiset"
begin

text \<open>
  What the character drivers share: the kernel resources a module acquires and releases, the
  contract of loading and unloading as a locale, and the copies between user and kernel space.

  Every request to the kernel goes into a history, latest first.  The kernel's answers are
  functions of that history in the environment \<open>kenv\<close>, so every pattern of failures is
  covered.
\<close>

section \<open>Kernel resources\<close>

datatype resource =
    ChrRegion int int nat      \<comment> \<open>device numbers: major, first minor, count\<close>
  | ChrMajor int               \<comment> \<open>a major number of register_chrdev\<close>
  | CdevObj                    \<comment> \<open>the structure of cdev_alloc\<close>
  | CdevReg int                \<comment> \<open>a device made known by cdev_add\<close>
  | PortRegion int nat
  | IrqLine int
  | IoMapping int int
  | DevClass
  | DevNode int
  | KmemBlock
  | ProcEntry
  | NetDevObj                  \<comment> \<open>a structure of alloc_netdev\<close>
  | NetDevReg                  \<comment> \<open>a network device made known by register_netdev\<close>
  | TimerPending               \<comment> \<open>a kernel timer that has not expired\<close>
  | KThread                    \<comment> \<open>a kernel thread\<close>
  | WorkPending                \<comment> \<open>a work item in the work queue\<close>

datatype kreq = Acquire resource bool | Release resource

text \<open>A pointer the kernel returns: NULL, an error pointer, or a valid pointer.\<close>

datatype ptrval = NullPtr | ErrPtr | ValidPtr

lemma ptrval_cases: "p \<noteq> NullPtr \<Longrightarrow> p \<noteq> ErrPtr \<Longrightarrow> p = ValidPtr"
  by (cases p) simp_all

record kenv =
  kr_int :: "kreq list \<Rightarrow> resource \<Rightarrow> int"
  kr_ptr :: "kreq list \<Rightarrow> resource \<Rightarrow> ptrval"
  kr_major :: "kreq list \<Rightarrow> int"
  kr_check :: "kreq list \<Rightarrow> resource \<Rightarrow> int"

record mod_state = ktr :: "kreq list"

text \<open>A call that returns a negative error code, and one that returns a pointer.\<close>

definition acq_int :: "kenv \<Rightarrow> resource \<Rightarrow> 'a mod_state_scheme \<Rightarrow> int \<times> 'a mod_state_scheme" where
  "acq_int E r s = (let c = kr_int E (ktr s) r in (c, s\<lparr>ktr := Acquire r (0 \<le> c) # ktr s\<rparr>))"

definition acq_ptr :: "kenv \<Rightarrow> resource \<Rightarrow> 'a mod_state_scheme \<Rightarrow> ptrval \<times> 'a mod_state_scheme" where
  "acq_ptr E r s = (let p = kr_ptr E (ktr s) r in (p, s\<lparr>ktr := Acquire r (p = ValidPtr) # ktr s\<rparr>))"

text \<open>A call that returns 0 for success and anything else for failure.\<close>

definition acq_zero :: "kenv \<Rightarrow> resource \<Rightarrow> 'a mod_state_scheme \<Rightarrow> int \<times> 'a mod_state_scheme" where
  "acq_zero E r s = (let c = kr_int E (ktr s) r in (c, s\<lparr>ktr := Acquire r (c = 0) # ktr s\<rparr>))"

definition rel :: "resource \<Rightarrow> 'a mod_state_scheme \<Rightarrow> 'a mod_state_scheme" where
  "rel r s = s\<lparr>ktr := Release r # ktr s\<rparr>"

lemma rel_simps [simp]: "ktr (rel r s) = Release r # ktr s"
  by (simp add: rel_def)

section \<open>What is held\<close>

fun held :: "kreq list \<Rightarrow> resource multiset" where
  "held [] = {#}"
| "held (Acquire r ok # tr) = (if ok then add_mset r (held tr) else held tr)"
| "held (Release r # tr) = held tr - {#r#}"

text \<open>How often something was released that was not held.\<close>

fun spurious :: "kreq list \<Rightarrow> nat" where
  "spurious [] = 0"
| "spurious (Acquire r ok # tr) = spurious tr"
| "spurious (Release r # tr) = (if r \<in># held tr then 0 else 1) + spurious tr"

section \<open>The contract of a module\<close>

locale driver_module =
  fixes load :: "kenv \<Rightarrow> 's \<Rightarrow> (int \<times> 's) res"
    and unload :: "'s \<Rightarrow> 's"
    and history :: "'s \<Rightarrow> kreq list"
    and owned :: "'s \<Rightarrow> resource multiset"
  assumes load_ok: "load E s = Inr (0, s') \<Longrightarrow>
      held (history s') = held (history s) + owned s' \<and> spurious (history s') = spurious (history s)"
    and unload_ok: "held (history s) = M + owned s \<Longrightarrow>
      held (history (unload s)) = M \<and> spurious (history (unload s)) = spurious (history s)"
begin

text \<open>Unloading gives back what loading took, and nothing that is not held is released.\<close>

lemma load_unload:
  assumes "load E s = Inr (0, s')"
  shows "held (history (unload s')) = held (history s) \<and> spurious (history (unload s')) = spurious (history s)"
  using load_ok [OF assms] unload_ok [of s' "held (history s)"] by simp

inductive cycles :: "kenv \<Rightarrow> nat \<Rightarrow> 's \<Rightarrow> 's \<Rightarrow> bool" for E where
  none: "cycles E 0 s s"
| again: "cycles E n s t \<Longrightarrow> load E t = Inr (0, u) \<Longrightarrow> cycles E (Suc n) s (unload u)"

lemma cycles_balanced:
  "cycles E n s t \<Longrightarrow> held (history t) = held (history s) \<and> spurious (history t) = spurious (history s)"
  by (induction rule: cycles.induct) (use load_unload in auto)

end

text \<open>A module whose failed load leaves nothing behind.\<close>

locale clean_module = driver_module +
  assumes load_fail: "load E s = Inr (r, s') \<Longrightarrow> r \<noteq> 0 \<Longrightarrow>
      held (history s') = held (history s) \<and> spurious (history s') = spurious (history s)"
begin

definition attempt :: "kenv \<Rightarrow> 'a \<Rightarrow> 'a res" where
  "attempt E s = bind_res (load E s) (\<lambda>(r, s'). Inr (if r = 0 then unload s' else s'))"

lemma attempt_balanced:
  "attempt E s = Inr t \<Longrightarrow> held (history t) = held (history s) \<and> spurious (history t) = spurious (history s)"
  by (auto simp: attempt_def bind_res_eq_Inr split: if_splits dest: load_unload load_fail)

end

section \<open>User space\<close>

text \<open>
  \<open>copy_to_user\<close> into a buffer of which \<open>room\<close> bytes can be written: what arrives, and the
  number of bytes that could not be copied.  \<open>copy_from_user\<close> from the readable bytes \<open>ubuf\<close>:
  what arrives in the kernel, padded with zeros, and the number of bytes not copied.
\<close>

definition copy_to_user :: "nat \<Rightarrow> byte list \<Rightarrow> byte list \<times> nat" where
  "copy_to_user room bs = (take room bs, length bs - room)"

definition copy_from_user :: "byte list \<Rightarrow> nat \<Rightarrow> byte list \<times> nat" where
  "copy_from_user ubuf n = (take n ubuf @ replicate (n - length ubuf) 0, n - length ubuf)"

lemma copy_from_user_ok [simp]: "n \<le> length ubuf \<Longrightarrow> copy_from_user ubuf n = (take n ubuf, 0)"
  by (simp add: copy_from_user_def)

lemma copy_to_user_ok [simp]: "length bs \<le> room \<Longrightarrow> copy_to_user room bs = (bs, 0)"
  by (simp add: copy_to_user_def)

lemma length_copy_from_user [simp]: "length (fst (copy_from_user ubuf n)) = n"
  by (simp add: copy_from_user_def)

section \<open>C strings and words in memory\<close>

text \<open>A 32-bit int in memory is little-endian on the machines the drivers are built for.\<close>

definition le32 :: "byte list \<Rightarrow> 32 word" where
  "le32 bs = ucast (bs ! 0) OR push_bit 8 (ucast (bs ! 1)) OR push_bit 16 (ucast (bs ! 2))
     OR push_bit 24 (ucast (bs ! 3))"

definition bytes32 :: "32 word \<Rightarrow> byte list" where
  "bytes32 w = [ucast w, ucast (drop_bit 8 w), ucast (drop_bit 16 w), ucast (drop_bit 24 w)]"

lemma length_bytes32 [simp]: "length (bytes32 w) = 4"
  by (simp add: bytes32_def)

lemma le32_bytes32 [simp]: "le32 (bytes32 w @ xs) = w"
proof (rule bit_word_eqI)
  fix n assume "n < LENGTH(32)"
  then have n: "n < 32" by simp
  consider "n < 8" | "8 \<le> n" "n < 16" | "16 \<le> n" "n < 24" | "24 \<le> n" using n by linarith
  then show "bit (le32 (bytes32 w @ xs)) n \<longleftrightarrow> bit w n"
    using n by cases (auto simp: le32_def bytes32_def bit_simps)
qed

lemma le32_take: "4 \<le> n \<Longrightarrow> n \<le> length bs \<Longrightarrow> le32 (take n bs) = le32 bs"
  by (simp add: le32_def)

section \<open>Buffers on the kernel stack\<close>

text \<open>\<open>printk\<close> with \<open>%s\<close> reads up to the first NUL: without one it leaves the buffer.\<close>

definition print_string :: "byte list \<Rightarrow> unit res" where
  "print_string kb = (if 0 \<in> set kb then Inr () else Inl Overrun)"

text \<open>
  The write method four of the drivers share: \<open>cnt\<close> user bytes go into a stack buffer with
  the contents \<open>stk\<close>, unchecked, and the buffer is printed.
\<close>

definition kbuf_write :: "byte list \<Rightarrow> byte list \<Rightarrow> nat \<Rightarrow> (int \<times> byte list) res" where
  "kbuf_write stk ubuf cnt =
     (case copy_from_user ubuf cnt of (bytes, left) \<Rightarrow>
       bind_res (mem_store stk 0 bytes) (\<lambda>kb.
         if left = 0 then bind_res (print_string kb) (\<lambda>_. Inr (int cnt, kb)) else Inr (- EFAULT, kb)))"

lemma kbuf_write_overrun:
  "length stk < cnt \<Longrightarrow> kbuf_write stk ubuf cnt = Inl Overrun"
  by (cases "copy_from_user ubuf cnt")
    (metis (no_types, lifting) add_0 bind_res.simps(1) case_prod_conv fst_conv kbuf_write_def length_copy_from_user mem_store_too_long)

lemma kbuf_write_fault:
  "cnt \<le> length stk \<Longrightarrow> length ubuf < cnt \<Longrightarrow>
     kbuf_write stk ubuf cnt = Inr (- EFAULT, ubuf @ replicate (cnt - length ubuf) 0 @ drop cnt stk)"
  by (simp add: kbuf_write_def copy_from_user_def)

lemma kbuf_write_ok:
  "cnt \<le> length stk \<Longrightarrow> cnt \<le> length ubuf \<Longrightarrow>
     kbuf_write stk ubuf cnt = (if 0 \<in> set (take cnt ubuf @ drop cnt stk)
        then Inr (int cnt, take cnt ubuf @ drop cnt stk) else Inl Overrun)"
  by (simp add: kbuf_write_def print_string_def)

text \<open>A C string literal with its terminator.\<close>

definition c_string :: "string \<Rightarrow> byte list" where
  "c_string s = map of_char s @ [0]"

lemma length_c_string [simp]: "length (c_string s) = Suc (length s)"
  by (simp add: c_string_def)

section \<open>Requests that several drivers make\<close>

text \<open>\<open>register_chrdev\<close> with major 0 answers with the major number it has chosen.\<close>

definition acq_major :: "kenv \<Rightarrow> 'a mod_state_scheme \<Rightarrow> int \<times> 'a mod_state_scheme" where
  "acq_major E s = (let c = kr_int E (ktr s) (ChrMajor 0)
     in (c, s\<lparr>ktr := Acquire (ChrMajor (max c 0)) (0 \<le> c) # ktr s\<rparr>))"

text \<open>
  \<open>cdev_alloc\<close>, the assignment to \<open>my_cdev->ops\<close>, and \<open>cdev_add\<close> for device numbers of
  \<open>major\<close>, as in every driver that builds its own cdev; -1 when \<open>cdev_add\<close> fails.
\<close>

definition add_my_cdev :: "kenv \<Rightarrow> int \<Rightarrow> 'a mod_state_scheme \<Rightarrow> (int \<times> 'a mod_state_scheme) res" where
  "add_my_cdev E major s =
     (case acq_ptr E CdevObj s of (p, s1) \<Rightarrow>
       if p = NullPtr then Inl NullDeref else if p = ErrPtr then Inl BadPointer
       else (case acq_int E (CdevReg major) s1 of (c, s2) \<Rightarrow> Inr (if c < 0 then -1 else 0, s2)))"

definition del_my_cdev :: "int \<Rightarrow> 'a mod_state_scheme \<Rightarrow> 'a mod_state_scheme" where
  "del_my_cdev major s = rel CdevObj (rel (CdevReg major) s)"

lemma add_my_cdev_cases:
  assumes "add_my_cdev E major s = Inr (r, s')"
  shows "(r = 0 \<and> ktr s' = [Acquire (CdevReg major) True, Acquire CdevObj True] @ ktr s)
     \<or> (r = -1 \<and> ktr s' = [Acquire (CdevReg major) False, Acquire CdevObj True] @ ktr s)"
  using assms by (cases "kr_ptr E (ktr s) CdevObj")
    (auto simp: add_my_cdev_def acq_ptr_def acq_int_def Let_def split: if_splits)

end
