(* ===== verification/Simple_Drivers.thy ===== *)
theory Simple_Drivers
  imports Chardev
begin

text \<open>
  The introductory character drivers: \<open>char_memory/memory.c\<close>, \<open>register_chrdev/CharDriver.c\<close>,
  \<open>dynamic_cdd/CharDriver.c\<close>, \<open>advanced_cdd/ioctl/ioctl.c\<close>, \<open>cdd_temp/char.c\<close> and
  \<open>devicefile_auto/devfile.c\<close>.
\<close>

section \<open>memory.c: one byte of kernel memory\<close>

record mem_state = mod_state +
  memory_buffer :: "byte option"

definition memory_exit :: "mem_state \<Rightarrow> mem_state" where
  "memory_exit s = (let s1 = rel (ChrMajor 61) s
     in if memory_buffer s = None then s1 else rel KmemBlock s1)"

definition memory_init :: "kenv \<Rightarrow> mem_state \<Rightarrow> (int \<times> mem_state) res" where
  "memory_init E s =
     (case acq_int E (ChrMajor 61) s of (result, s1) \<Rightarrow>
       if result < 0 then Inr (result, s1)
       else (case acq_ptr E KmemBlock s1 of (p, s2) \<Rightarrow>
         if p = NullPtr then Inr (- ENOMEM, memory_exit (s2\<lparr>memory_buffer := None\<rparr>))
         else if p = ErrPtr then Inl BadPointer
         else Inr (0, s2\<lparr>memory_buffer := Some 0\<rparr>)))"

definition memory_open :: "mem_state \<Rightarrow> int \<times> mem_state" where
  "memory_open s = (0, s)"

definition memory_release :: "mem_state \<Rightarrow> int \<times> mem_state" where
  "memory_release s = (0, s)"

text \<open>Reading gives the returned cnt and the bytes that reach the user.\<close>

definition memory_read :: "nat \<Rightarrow> nat \<Rightarrow> mem_state \<Rightarrow> (int \<times> byte list) res" where
  "memory_read room cnt s = (case memory_buffer s of None \<Rightarrow> Inl NullDeref
     | Some x \<Rightarrow> Inr (1, fst (copy_to_user room [x])))"

definition memory_write :: "byte list \<Rightarrow> nat \<Rightarrow> mem_state \<Rightarrow> (int \<times> mem_state) res" where
  "memory_write ubuf cnt s = (case memory_buffer s of None \<Rightarrow> Inl NullDeref
     | Some _ \<Rightarrow> Inr (1, s\<lparr>memory_buffer := Some (hd (fst (copy_from_user ubuf 1)))\<rparr>))"

section \<open>register_chrdev/CharDriver.c\<close>

definition reg_CharDevice_init :: "kenv \<Rightarrow> mod_state \<Rightarrow> (int \<times> mod_state) res" where
  "reg_CharDevice_init E s =
     (case acq_int E (ChrRegion 255 0 1) s of (result, s1) \<Rightarrow>
       if result < 0 then Inr (-1, s1) else add_my_cdev E 255 s1)"

definition reg_CharDevice_exit :: "mod_state \<Rightarrow> mod_state" where
  "reg_CharDevice_exit s = del_my_cdev 255 (rel (ChrRegion 255 0 1) s)"

definition reg_open :: "mod_state \<Rightarrow> int \<times> mod_state" where "reg_open s = (0, s)"
definition reg_release :: "mod_state \<Rightarrow> int \<times> mod_state" where "reg_release s = (0, s)"

definition reg_write :: "byte list \<Rightarrow> byte list \<Rightarrow> nat \<Rightarrow> (int \<times> byte list) res" where
  "reg_write Kbuff Ubuff cnt = kbuf_write Kbuff Ubuff cnt"

definition reg_message :: "byte list" where
  "reg_message = c_string ''THis is some date from the kernel to the user....User,ENJOY......''"

text \<open>The returned cnt, the bytes that reach the user, and the new offset.\<close>

definition reg_read :: "nat \<Rightarrow> nat \<Rightarrow> nat \<Rightarrow> int \<times> byte list \<times> nat" where
  "reg_read room cnt off =
     (let out = fst (copy_to_user room reg_message)
      in if 0 < off then (0, out, off) else (int (length reg_message), out, length reg_message))"

section \<open>dynamic_cdd/CharDriver.c\<close>

record dyn_state = mod_state +
  dyn_Mydev :: int

definition dyn_CharDevice_init :: "kenv \<Rightarrow> dyn_state \<Rightarrow> (int \<times> dyn_state) res" where
  "dyn_CharDevice_init E s =
     (let major = kr_major E (ktr s) in
      case acq_int E (ChrRegion major 0 1) s of (result, s1) \<Rightarrow>
        if result < 0 then Inr (-1, s1) else add_my_cdev E major (s1\<lparr>dyn_Mydev := major\<rparr>))"

definition dyn_CharDevice_exit :: "dyn_state \<Rightarrow> dyn_state" where
  "dyn_CharDevice_exit s = del_my_cdev (dyn_Mydev s) (rel (ChrRegion (dyn_Mydev s) 0 1) s)"

definition dyn_open :: "dyn_state \<Rightarrow> int \<times> dyn_state" where "dyn_open s = (0, s)"
definition dyn_release :: "dyn_state \<Rightarrow> int \<times> dyn_state" where "dyn_release s = (0, s)"

definition dyn_write :: "byte list \<Rightarrow> byte list \<Rightarrow> nat \<Rightarrow> (int \<times> byte list) res" where
  "dyn_write Kbuff Ubuff cnt = kbuf_write Kbuff Ubuff cnt"

definition dyn_message :: "byte list" where
  "dyn_message = c_string ''Iam sending from Kernel buffer''"

definition dyn_read :: "nat \<Rightarrow> nat \<Rightarrow> nat \<Rightarrow> int \<times> byte list \<times> nat" where
  "dyn_read room cnt off =
     (case copy_to_user room dyn_message of (out, left) \<Rightarrow>
        if left = 0 then (if off = 0 then (int (length dyn_message), out, length dyn_message) else (0, out, off))
        else (- EFAULT, out, off))"

section \<open>ioctl.c\<close>

definition ioctl_CharDevice_init :: "kenv \<Rightarrow> dyn_state \<Rightarrow> (int \<times> dyn_state) res" where
  "ioctl_CharDevice_init E s =
     (let major = kr_major E (ktr s) in
      case acq_int E (ChrRegion major 0 1) s of (result, s1) \<Rightarrow>
        if result < 0 then Inr (-1, s1) else add_my_cdev E major (s1\<lparr>dyn_Mydev := major\<rparr>))"

definition ioctl_CharDevice_exit :: "dyn_state \<Rightarrow> dyn_state" where
  "ioctl_CharDevice_exit s = del_my_cdev (dyn_Mydev s) (rel (ChrRegion (dyn_Mydev s) 0 1) s)"

definition ioctl_open :: "dyn_state \<Rightarrow> int \<times> dyn_state" where "ioctl_open s = (0, s)"
definition ioctl_release :: "dyn_state \<Rightarrow> int \<times> dyn_state" where "ioctl_release s = (0, s)"

definition ioctl_write :: "byte list \<Rightarrow> byte list \<Rightarrow> nat \<Rightarrow> (int \<times> byte list) res" where
  "ioctl_write Kbuff Ubuff cnt = kbuf_write Kbuff Ubuff cnt"

definition ioctl_read :: "nat \<Rightarrow> nat \<Rightarrow> int \<times> byte list" where
  "ioctl_read room cnt =
     (case copy_to_user room reg_message of (out, left) \<Rightarrow> (if left = 0 then int cnt else - EFAULT, out))"

text \<open>The kernel's encoding of an ioctl command: direction, argument size, type and number.\<close>

definition ioc :: "32 word \<Rightarrow> 32 word \<Rightarrow> 32 word \<Rightarrow> 32 word \<Rightarrow> 32 word" where
  "ioc dir ty nr sz = push_bit 30 dir OR push_bit 16 sz OR push_bit 8 ty OR nr"

definition MAGIC_NUMBER :: "32 word" where "MAGIC_NUMBER = 0x4F"
definition SET_BAUD_RATE :: "32 word" where "SET_BAUD_RATE = ioc 3 MAGIC_NUMBER 8 4"
definition SET_NO_STOP_BITS :: "32 word" where "SET_NO_STOP_BITS = ioc 3 MAGIC_NUMBER 9 4"
definition SET_DIRECTION_WRITE :: "32 word" where "SET_DIRECTION_WRITE = ioc 1 MAGIC_NUMBER 10 4"

definition NAME_ioctl :: "32 word \<Rightarrow> 64 word \<Rightarrow> int" where
  "NAME_ioctl cmd arg =
     (if cmd = SET_BAUD_RATE then 1 else if cmd = SET_DIRECTION_WRITE then 1
      else if cmd = SET_NO_STOP_BITS then 1 else - EINVAL)"

section \<open>cdd_temp/char.c\<close>

text \<open>\<open>temp\<close> is a global that nothing assigns, so \<open>MAJOR(temp)\<close> is 0.\<close>

definition char_init :: "kenv \<Rightarrow> mod_state \<Rightarrow> (int \<times> mod_state) res" where
  "char_init E s = (case acq_major E s of (result, s1) \<Rightarrow> Inr (if result < 0 then - EPERM else 0, s1))"

definition char_exit :: "mod_state \<Rightarrow> mod_state" where
  "char_exit s = rel (ChrMajor 0) s"

definition char_open :: "mod_state \<Rightarrow> int \<times> mod_state" where "char_open s = (0, s)"
definition char_close :: "mod_state \<Rightarrow> int \<times> mod_state" where "char_close s = (0, s)"
definition char_read :: "nat \<Rightarrow> int" where "char_read len = 0"
definition char_write :: "nat \<Rightarrow> int" where "char_write len = int len"

section \<open>devfile.c\<close>

record dvf_state = mod_state +
  dvf_first :: int

text \<open>The tests are those of the code: against NULL, and against -1.\<close>

definition devfile_init :: "kenv \<Rightarrow> dvf_state \<Rightarrow> (int \<times> dvf_state) res" where
  "devfile_init E s =
     (let major = kr_major E (ktr s) in
      case acq_int E (ChrRegion major 0 1) s of (c, s1) \<Rightarrow>
      if c < 0 then Inr (-1, s1) else
      (case acq_ptr E DevClass (s1\<lparr>dvf_first := major\<rparr>) of (cl, s2) \<Rightarrow>
       if cl = NullPtr then Inr (-1, rel (ChrRegion major 0 1) s2) else
       (case acq_ptr E (DevNode major) s2 of (dv, s3) \<Rightarrow>
        if dv = NullPtr then Inr (-1, rel (ChrRegion major 0 1) (rel DevClass s3)) else
        (case acq_int E (CdevReg major) s3 of (a, s4) \<Rightarrow>
         if a = -1 then Inr (-1, rel (ChrRegion major 0 1) (rel DevClass (rel (DevNode major) s4)))
         else Inr (0, s4)))))"

definition devfile_open :: "dvf_state \<Rightarrow> int \<times> dvf_state" where "devfile_open s = (0, s)"
definition devfile_close :: "dvf_state \<Rightarrow> int \<times> dvf_state" where "devfile_close s = (0, s)"
definition devfile_read :: "nat \<Rightarrow> int" where "devfile_read len = 0"
definition devfile_write :: "nat \<Rightarrow> int" where "devfile_write len = int len"

definition devfile_exit :: "dvf_state \<Rightarrow> dvf_state" where
  "devfile_exit s = rel (ChrRegion (dvf_first s) 0 1) (rel DevClass (rel (DevNode (dvf_first s))
     (rel (CdevReg (dvf_first s)) s)))"

section \<open>The modules as instances of the contract\<close>

definition mem_owned :: "mem_state \<Rightarrow> resource multiset" where
  "mem_owned s = (if memory_buffer s = None then {#ChrMajor 61#} else {#ChrMajor 61, KmemBlock#})"

definition reg_owned :: "mod_state \<Rightarrow> resource multiset" where
  "reg_owned s = {#ChrRegion 255 0 1, CdevObj, CdevReg 255#}"

definition dyn_owned :: "dyn_state \<Rightarrow> resource multiset" where
  "dyn_owned s = {#ChrRegion (dyn_Mydev s) 0 1, CdevObj, CdevReg (dyn_Mydev s)#}"

lemmas load_defs = acq_int_def acq_ptr_def acq_major_def rel_def Let_def

interpretation memory: clean_module memory_init memory_exit ktr mem_owned
proof
  show "held (ktr s') = held (ktr s) + mem_owned s' \<and> spurious (ktr s') = spurious (ktr s)"
    if "memory_init E s = Inr (0, s')" for E s s'
    using that by (auto simp: memory_init_def memory_exit_def mem_owned_def load_defs ptrval_cases split: if_splits)
  show "held (ktr (memory_exit s)) = M \<and> spurious (ktr (memory_exit s)) = spurious (ktr s)"
    if "held (ktr s) = M + mem_owned s" for s M
    using that by (auto simp: memory_exit_def mem_owned_def load_defs split: if_splits)
  show "held (ktr s') = held (ktr s) \<and> spurious (ktr s') = spurious (ktr s)"
    if "memory_init E s = Inr (r, s')" "r \<noteq> 0" for E s r s'
    using that by (auto simp: memory_init_def memory_exit_def load_defs split: if_splits)
qed

interpretation reg: driver_module reg_CharDevice_init reg_CharDevice_exit ktr reg_owned
proof
  show "held (ktr s') = held (ktr s) + reg_owned s' \<and> spurious (ktr s') = spurious (ktr s)"
    if "reg_CharDevice_init E s = Inr (0, s')" for E s s'
    using that by (auto simp: reg_CharDevice_init_def reg_owned_def load_defs split: if_splits dest!: add_my_cdev_cases)
  show "held (ktr (reg_CharDevice_exit s)) = M \<and> spurious (ktr (reg_CharDevice_exit s)) = spurious (ktr s)"
    if "held (ktr s) = M + reg_owned s" for s M
    using that by (simp add: reg_CharDevice_exit_def del_my_cdev_def reg_owned_def)
qed

text \<open>The dynamic drivers remember the device number they were given.\<close>

lemma add_my_cdev_dev: "add_my_cdev E major (s :: dyn_state) = Inr (r, s') \<Longrightarrow> dyn_Mydev s' = dyn_Mydev s"
  by (auto simp: add_my_cdev_def load_defs split: if_splits)

interpretation dyn: driver_module dyn_CharDevice_init dyn_CharDevice_exit ktr dyn_owned
proof
  show "held (ktr s') = held (ktr s) + dyn_owned s' \<and> spurious (ktr s') = spurious (ktr s)"
    if "dyn_CharDevice_init E s = Inr (0, s')" for E s s'
  proof -
    let ?m = "kr_major E (ktr s)"
    from that obtain s1 where s1: "add_my_cdev E ?m (s1\<lparr>dyn_Mydev := ?m\<rparr>) = Inr (0, s')"
      "ktr s1 = Acquire (ChrRegion ?m 0 1) True # ktr s"
      by (auto simp: dyn_CharDevice_init_def load_defs split: if_splits)
    from add_my_cdev_cases [OF s1(1)] add_my_cdev_dev [OF s1(1)] s1(2) show ?thesis
      by (auto simp: dyn_owned_def)
  qed
  show "held (ktr (dyn_CharDevice_exit s)) = M \<and> spurious (ktr (dyn_CharDevice_exit s)) = spurious (ktr s)"
    if "held (ktr s) = M + dyn_owned s" for s M
    using that by (simp add: dyn_CharDevice_exit_def del_my_cdev_def dyn_owned_def)
qed

interpretation ioctl: driver_module ioctl_CharDevice_init ioctl_CharDevice_exit ktr dyn_owned
proof -
  have "ioctl_CharDevice_init = dyn_CharDevice_init" "ioctl_CharDevice_exit = dyn_CharDevice_exit"
    by (simp_all add: fun_eq_iff ioctl_CharDevice_init_def dyn_CharDevice_init_def
        ioctl_CharDevice_exit_def dyn_CharDevice_exit_def)
  then show "driver_module ioctl_CharDevice_init ioctl_CharDevice_exit ktr dyn_owned"
    using dyn.driver_module_axioms by simp
qed

end
