(* ===== verification/Calculator.thy ===== *)
theory Calculator
  imports Simple_Drivers "HOL-Library.Signed_Division"
begin

text \<open>
  \<open>multiple_cdd/CalculatorDriver.c\<close>: four minor numbers, one for each arithmetic operation.
  The driver has a single \<open>file_operations\<close>, which \<open>NAME_open\<close> rewires to the operation of
  the minor that is opened, under a semaphore that is held while the file is open.  With it,
  the user programs \<open>Add.c\<close>, \<open>Sub.c\<close>, \<open>Mul.c\<close> and \<open>Div.c\<close>.
\<close>

section \<open>State\<close>

datatype calc_op = AddOp | SubOp | MulOp | DivOp

text \<open>\<open>f_op\<close> is the binding of \<open>fops.read\<close> and \<open>fops.write\<close>, none before the first open.\<close>

record calc_state = mod_state +
  Mydev :: int
  f_op :: "calc_op option"
  my_sem :: int
  add_result :: "32 word"
  sub_result :: "32 word"
  mul_result :: "32 word"
  div_result :: "32 word"

section \<open>Loading and unloading\<close>

definition calc_CharDevice_init :: "kenv \<Rightarrow> calc_state \<Rightarrow> (int \<times> calc_state) res" where
  "calc_CharDevice_init E s =
     (let major = kr_major E (ktr s) in
      case acq_int E (ChrRegion major 0 4) s of (result, s1) \<Rightarrow>
        if result < 0 then Inr (-1, s1)
        else bind_res (add_my_cdev E major (s1\<lparr>Mydev := major\<rparr>)) (\<lambda>(result, s2).
          Inr (if result < 0 then (-1, s2) else (0, s2\<lparr>my_sem := 1\<rparr>))))"

definition calc_CharDevice_exit :: "calc_state \<Rightarrow> calc_state" where
  "calc_CharDevice_exit s = del_my_cdev (Mydev s) (rel (ChrRegion (Mydev s) 0 4) s)"

section \<open>Open and close\<close>

definition op_of_minor :: "nat \<Rightarrow> calc_op option" where
  "op_of_minor m = (if m = 0 then Some AddOp else if m = 1 then Some SubOp else if m = 2 then Some MulOp
     else if m = 3 then Some DivOp else None)"

text \<open>\<open>NAME_open\<close> returns None when the process goes to sleep on the semaphore.\<close>

definition NAME_open :: "nat \<Rightarrow> calc_state \<Rightarrow> (int \<times> calc_state) option" where
  "NAME_open minor s =
     (if my_sem s \<le> 0 then None
      else Some (0, s\<lparr>my_sem := my_sem s - 1,
        f_op := (case op_of_minor minor of None \<Rightarrow> f_op s | Some f \<Rightarrow> Some f)\<rparr>))"

definition NAME_release :: "calc_state \<Rightarrow> int \<times> calc_state" where
  "NAME_release s = (0, s\<lparr>my_sem := my_sem s + 1\<rparr>)"

section \<open>The operations\<close>

text \<open>
  The common part of the four write methods: \<open>Kbuff\<close> is what the stack holds, and the two
  operands are the first eight bytes of the buffer.
\<close>

definition calc_write ::
  "(32 word \<Rightarrow> 32 word \<Rightarrow> calc_state res) \<Rightarrow> byte list \<Rightarrow> byte list \<Rightarrow> nat \<Rightarrow> calc_state \<Rightarrow> (int \<times> calc_state) res" where
  "calc_write f Kbuff Ubuff cnt s =
     bind_res (kbuf_write Kbuff Ubuff cnt) (\<lambda>(result, kb).
       if result < 0 then Inr (result, s)
       else bind_res (f (le32 kb) (le32 (drop 4 kb))) (\<lambda>s'. Inr (result, s')))"

definition NAME_write_add :: "byte list \<Rightarrow> byte list \<Rightarrow> nat \<Rightarrow> calc_state \<Rightarrow> (int \<times> calc_state) res" where
  "NAME_write_add Kbuff Ubuff cnt s = calc_write (\<lambda>a b. Inr (s\<lparr>add_result := a + b\<rparr>)) Kbuff Ubuff cnt s"

definition NAME_write_sub :: "byte list \<Rightarrow> byte list \<Rightarrow> nat \<Rightarrow> calc_state \<Rightarrow> (int \<times> calc_state) res" where
  "NAME_write_sub Kbuff Ubuff cnt s = calc_write (\<lambda>a b. Inr (s\<lparr>sub_result := a - b\<rparr>)) Kbuff Ubuff cnt s"

definition NAME_write_mul :: "byte list \<Rightarrow> byte list \<Rightarrow> nat \<Rightarrow> calc_state \<Rightarrow> (int \<times> calc_state) res" where
  "NAME_write_mul Kbuff Ubuff cnt s = calc_write (\<lambda>a b. Inr (s\<lparr>mul_result := a * b\<rparr>)) Kbuff Ubuff cnt s"

text \<open>The machine's signed division: it traps for a zero divisor and for the overflowing quotient.\<close>

definition idiv32 :: "32 word \<Rightarrow> 32 word \<Rightarrow> 32 word res" where
  "idiv32 a b = (if b = 0 \<or> (sint a = - (2 ^ 31) \<and> sint b = -1) then Inl DivideTrap
     else Inr (word_of_int (sint a sdiv sint b)))"

definition NAME_write_div :: "byte list \<Rightarrow> byte list \<Rightarrow> nat \<Rightarrow> calc_state \<Rightarrow> (int \<times> calc_state) res" where
  "NAME_write_div Kbuff Ubuff cnt s =
     calc_write (\<lambda>a b. bind_res (idiv32 a b) (\<lambda>q. Inr (s\<lparr>div_result := q\<rparr>))) Kbuff Ubuff cnt s"

text \<open>The read methods copy the four bytes of the result and return 0.\<close>

definition NAME_read_add :: "nat \<Rightarrow> nat \<Rightarrow> calc_state \<Rightarrow> int \<times> byte list" where
  "NAME_read_add room cnt s = (0, fst (copy_to_user room (bytes32 (add_result s))))"

definition NAME_read_sub :: "nat \<Rightarrow> nat \<Rightarrow> calc_state \<Rightarrow> int \<times> byte list" where
  "NAME_read_sub room cnt s = (0, fst (copy_to_user room (bytes32 (sub_result s))))"

definition NAME_read_mul :: "nat \<Rightarrow> nat \<Rightarrow> calc_state \<Rightarrow> int \<times> byte list" where
  "NAME_read_mul room cnt s = (0, fst (copy_to_user room (bytes32 (mul_result s))))"

definition NAME_read_div :: "nat \<Rightarrow> nat \<Rightarrow> calc_state \<Rightarrow> int \<times> byte list" where
  "NAME_read_div room cnt s = (0, fst (copy_to_user room (bytes32 (div_result s))))"

text \<open>The calls through \<open>filp->f_op\<close>; -EINVAL is what the kernel answers when there is no method.\<close>

definition vfs_write :: "byte list \<Rightarrow> byte list \<Rightarrow> nat \<Rightarrow> calc_state \<Rightarrow> (int \<times> calc_state) res" where
  "vfs_write Kbuff Ubuff cnt s = (case f_op s of None \<Rightarrow> Inr (- EINVAL, s)
     | Some AddOp \<Rightarrow> NAME_write_add Kbuff Ubuff cnt s | Some SubOp \<Rightarrow> NAME_write_sub Kbuff Ubuff cnt s
     | Some MulOp \<Rightarrow> NAME_write_mul Kbuff Ubuff cnt s | Some DivOp \<Rightarrow> NAME_write_div Kbuff Ubuff cnt s)"

definition vfs_read :: "nat \<Rightarrow> nat \<Rightarrow> calc_state \<Rightarrow> int \<times> byte list" where
  "vfs_read room cnt s = (case f_op s of None \<Rightarrow> (- EINVAL, [])
     | Some AddOp \<Rightarrow> NAME_read_add room cnt s | Some SubOp \<Rightarrow> NAME_read_sub room cnt s
     | Some MulOp \<Rightarrow> NAME_read_mul room cnt s | Some DivOp \<Rightarrow> NAME_read_div room cnt s)"

section \<open>The user programs\<close>

text \<open>
  Open a minor, write the pair of operands, read four bytes, close.  The answer is what the
  program prints, None when the open sleeps.
\<close>

definition calc_app :: "nat \<Rightarrow> byte list \<Rightarrow> 32 word \<Rightarrow> 32 word \<Rightarrow> calc_state \<Rightarrow> (32 word \<times> calc_state) option res" where
  "calc_app minor Kbuff a b s =
     (case NAME_open minor s of None \<Rightarrow> Inr None
      | Some (_, s1) \<Rightarrow>
          bind_res (vfs_write Kbuff (bytes32 a @ bytes32 b) 8 s1) (\<lambda>(_, s2).
          Inr (Some (le32 (snd (vfs_read 4 4 s2)), snd (NAME_release s2)))))"

definition Add_main :: "byte list \<Rightarrow> calc_state \<Rightarrow> (32 word \<times> calc_state) option res" where
  "Add_main Kbuff s = calc_app 0 Kbuff 35 5 s"
definition Sub_main :: "byte list \<Rightarrow> calc_state \<Rightarrow> (32 word \<times> calc_state) option res" where
  "Sub_main Kbuff s = calc_app 1 Kbuff 35 5 s"
definition Mul_main :: "byte list \<Rightarrow> calc_state \<Rightarrow> (32 word \<times> calc_state) option res" where
  "Mul_main Kbuff s = calc_app 2 Kbuff 35 5 s"
definition Div_main :: "byte list \<Rightarrow> calc_state \<Rightarrow> (32 word \<times> calc_state) option res" where
  "Div_main Kbuff s = calc_app 3 Kbuff 35 5 s"

section \<open>Resources\<close>

definition calc_owned :: "calc_state \<Rightarrow> resource multiset" where
  "calc_owned s = {#ChrRegion (Mydev s) 0 4, CdevObj, CdevReg (Mydev s)#}"

lemma add_my_cdev_calc: "add_my_cdev E major (s :: calc_state) = Inr (r, s') \<Longrightarrow> Mydev s' = Mydev s"
  by (auto simp: add_my_cdev_def load_defs split: if_splits)

interpretation calc: driver_module calc_CharDevice_init calc_CharDevice_exit ktr calc_owned
proof
  show "held (ktr s') = held (ktr s) + calc_owned s' \<and> spurious (ktr s') = spurious (ktr s)"
    if "calc_CharDevice_init E s = Inr (0, s')" for E s s'
  proof -
    let ?m = "kr_major E (ktr s)"
    from that obtain a s1 s2 where s1: "add_my_cdev E ?m (s1\<lparr>Mydev := ?m\<rparr>) = Inr (a, s2)"
      "ktr s1 = Acquire (ChrRegion ?m 0 4) True # ktr s" "s' = s2\<lparr>my_sem := 1\<rparr>" "\<not> a < 0"
      by (auto simp: calc_CharDevice_init_def load_defs bind_res_eq_Inr split: if_splits)
    from s1(4) add_my_cdev_cases [OF s1(1)] add_my_cdev_calc [OF s1(1)] s1(2,3) show ?thesis
      by (auto simp: calc_owned_def)
  qed
  show "held (ktr (calc_CharDevice_exit s)) = M \<and> spurious (ktr (calc_CharDevice_exit s)) = spurious (ktr s)"
    if "held (ktr s) = M + calc_owned s" for s M
    using that by (simp add: calc_CharDevice_exit_def del_my_cdev_def calc_owned_def)
qed

section \<open>Exclusive use\<close>

text \<open>Processes that have the device open, with the minor each opened.\<close>

record calc_sys =
  dev :: calc_state
  opened :: "nat \<rightharpoonup> nat"

inductive calc_step :: "calc_sys \<Rightarrow> calc_sys \<Rightarrow> bool" where
  step_open: "opened S p = None \<Longrightarrow> m < 4 \<Longrightarrow> NAME_open m (dev S) = Some (r, s')
     \<Longrightarrow> calc_step S (S\<lparr>dev := s', opened := (opened S)(p \<mapsto> m)\<rparr>)"
| step_write: "opened S p = Some m \<Longrightarrow> vfs_write kb ub n (dev S) = Inr (r, s')
     \<Longrightarrow> calc_step S (S\<lparr>dev := s'\<rparr>)"
| step_close: "opened S p = Some m \<Longrightarrow> NAME_release (dev S) = (r, s')
     \<Longrightarrow> calc_step S (S\<lparr>dev := s', opened := (opened S)(p := None)\<rparr>)"

inductive_cases calc_stepE: "calc_step S S'"

inductive calc_reach :: "calc_sys \<Rightarrow> calc_sys \<Rightarrow> bool" for S0 where
  calc_start: "calc_reach S0 S0"
| calc_next: "calc_reach S0 S \<Longrightarrow> calc_step S S' \<Longrightarrow> calc_reach S0 S'"

definition exclusive :: "calc_sys \<Rightarrow> bool" where
  "exclusive S \<longleftrightarrow> (opened S = Map.empty \<and> my_sem (dev S) = 1)
     \<or> (\<exists>p m. opened S = [p \<mapsto> m] \<and> m < 4 \<and> my_sem (dev S) = 0 \<and> f_op (dev S) = op_of_minor m)"

lemma op_of_minor_some: "m < 4 \<Longrightarrow> op_of_minor m \<noteq> None"
  by (auto simp: op_of_minor_def)

lemma vfs_write_frame: "vfs_write kb ub n s = Inr (r, s') \<Longrightarrow> my_sem s' = my_sem s \<and> f_op s' = f_op s"
  unfolding vfs_write_def NAME_write_add_def NAME_write_sub_def NAME_write_mul_def NAME_write_div_def
  by (auto simp: calc_write_def bind_res_eq_Inr split: option.splits calc_op.splits if_splits)

lemma exclusive_step:
  assumes "exclusive S" and "calc_step S S'"
  shows "exclusive S'"
  using assms(2)
proof cases
  case (step_open p m r s')
  then have "my_sem (dev S) > 0" by (auto simp: NAME_open_def split: if_splits)
  then have "opened S = Map.empty" "my_sem (dev S) = 1" using assms(1) by (auto simp: exclusive_def)
  moreover from op_of_minor_some [OF step_open(3)] obtain f where "op_of_minor m = Some f" by blast
  ultimately have "opened S' = [p \<mapsto> m]" "my_sem (dev S') = 0" "f_op (dev S') = op_of_minor m"
    using step_open by (auto simp: NAME_open_def)
  then show ?thesis using step_open(3) unfolding exclusive_def by blast
next
  case (step_write p m kb ub n r s')
  then show ?thesis using assms(1) vfs_write_frame [of kb ub n "dev S" r s'] by (simp add: exclusive_def)
next
  case (step_close p m r s')
  then show ?thesis using assms(1) by (auto simp: exclusive_def NAME_release_def split: if_splits)
qed

lemma exclusive_reach: "calc_reach S0 S \<Longrightarrow> exclusive S0 \<Longrightarrow> exclusive S"
  by (induction rule: calc_reach.induct) (auto intro: exclusive_step)

text \<open>
  C18. While a process has a minor of the calculator open, no other process has one open, and
  the shared \<open>file_operations\<close> are bound to the operation of exactly that minor: the
  semaphore protects the rewiring of \<open>fops\<close> by \<open>NAME_open\<close>.
\<close>

theorem calc_exclusive:
  assumes "calc_reach S0 S" and "opened S0 = Map.empty" and "my_sem (dev S0) = 1"
    and "opened S p = Some m"
  shows "f_op (dev S) = op_of_minor m \<and> (\<forall>q. opened S q \<noteq> None \<longrightarrow> q = p)
     \<and> (\<forall>k. NAME_open k (dev S) = None)"
proof -
  have "exclusive S" using exclusive_reach [OF assms(1)] assms(2,3) by (simp add: exclusive_def)
  with assms(4) show ?thesis by (auto simp: exclusive_def NAME_open_def split: if_splits)
qed

definition idle_calc :: calc_state where
  "idle_calc = \<lparr>ktr = [], Mydev = 250, f_op = None, my_sem = 1, add_result = 0, sub_result = 0,
     mul_result = 0, div_result = 0\<rparr>"

lemma calc_exclusive_witness:
  "f_op (snd (the (NAME_open 2 idle_calc))) = Some MulOp"
proof -
  let ?S0 = "\<lparr>dev = idle_calc, opened = Map.empty\<rparr>"
  let ?s = "snd (the (NAME_open 2 idle_calc))"
  have "calc_step ?S0 (?S0\<lparr>dev := ?s, opened := (opened ?S0)(5 \<mapsto> 2)\<rparr>)"
    by (rule step_open [where r = 0]) (simp_all add: NAME_open_def idle_calc_def)
  then have "calc_reach ?S0 (?S0\<lparr>dev := ?s, opened := [5 \<mapsto> 2]\<rparr>)"
    by (intro calc_next [OF calc_start]) simp
  from calc_exclusive [OF this, of 5 2] show ?thesis
    by (simp add: idle_calc_def op_of_minor_def)
qed

section \<open>What a session computes\<close>

lemma le32_operands:
  assumes "length Kbuff = 80"
  shows "le32 ((bytes32 a @ bytes32 b) @ drop 8 Kbuff) = a"
    and "le32 (drop 4 ((bytes32 a @ bytes32 b) @ drop 8 Kbuff)) = b"
  by simp_all

lemma calc_write_pair:
  assumes "length Kbuff = 80" and "0 \<in> set (bytes32 a @ bytes32 b @ drop 8 Kbuff)"
  shows "calc_write f Kbuff (bytes32 a @ bytes32 b) 8 s = bind_res (f a b) (\<lambda>s'. Inr (8, s'))"
proof -
  have "kbuf_write Kbuff (bytes32 a @ bytes32 b) 8 = Inr (8, (bytes32 a @ bytes32 b) @ drop 8 Kbuff)"
    using assms by (subst kbuf_write_ok) auto
  then show ?thesis using le32_operands [OF assms(1)] by (simp add: calc_write_def)
qed

text \<open>The mathematical result of an operation, when the machine has one.\<close>

fun calc_spec :: "nat \<Rightarrow> int \<Rightarrow> int \<Rightarrow> int" where
  "calc_spec minor a b = (if minor = 0 then a + b else if minor = 1 then a - b
     else if minor = 2 then a * b else a sdiv b)"

text \<open>
  C19. A session of a user program with the idle calculator computes the operation of the minor
  it opens, with 32-bit wrap-around, and leaves the calculator idle; division by zero, and of
  the smallest integer by -1, traps in the kernel.
\<close>

theorem calc_session:
  assumes "my_sem s = 1" and "minor < 4" and "length Kbuff = 80"
    and "0 \<in> set (bytes32 a @ bytes32 b @ drop 8 Kbuff)"
  shows "if minor = 3 \<and> (b = 0 \<or> (sint a = - (2 ^ 31) \<and> sint b = -1))
    then calc_app minor Kbuff a b s = Inl DivideTrap
    else \<exists>s'. calc_app minor Kbuff a b s = Inr (Some (word_of_int (calc_spec minor (sint a) (sint b)), s'))
      \<and> my_sem s' = 1 \<and> ktr s' = ktr s"
proof -
  consider "minor = 0" | "minor = 1" | "minor = 2" | "minor = 3" using assms(2) by linarith
  then show ?thesis
  proof cases
    case 1
    then show ?thesis using assms calc_write_pair [OF assms(3,4)] le32_bytes32 [of _ "[]"]
      by (simp add: calc_app_def NAME_open_def op_of_minor_def vfs_write_def vfs_read_def NAME_write_add_def
          NAME_read_add_def NAME_release_def)
  next
    case 2
    then show ?thesis using assms calc_write_pair [OF assms(3,4)] le32_bytes32 [of _ "[]"]
      by (simp add: calc_app_def NAME_open_def op_of_minor_def vfs_write_def vfs_read_def NAME_write_sub_def
          NAME_read_sub_def NAME_release_def)
  next
    case 3
    then show ?thesis using assms calc_write_pair [OF assms(3,4)] le32_bytes32 [of _ "[]"]
      by (simp add: calc_app_def NAME_open_def op_of_minor_def vfs_write_def vfs_read_def NAME_write_mul_def
          NAME_read_mul_def NAME_release_def)
  next
    case 4
    then show ?thesis using assms calc_write_pair [OF assms(3,4)] le32_bytes32 [of _ "[]"]
      by (auto simp: calc_app_def NAME_open_def op_of_minor_def vfs_write_def vfs_read_def NAME_write_div_def
          NAME_read_div_def NAME_release_def idiv32_def)
  qed
qed

lemma calc_session_witness:
  "calc_app 3 (replicate 80 0) 35 0 idle_calc = Inl DivideTrap
     \<and> (\<exists>s'. Div_main (replicate 80 0) idle_calc = Inr (Some (7, s')))"
  using calc_session [of idle_calc 3 "replicate 80 0" 35 0] calc_session [of idle_calc 3 "replicate 80 0" 35 5]
  by (auto simp: idle_calc_def Div_main_def)

text \<open>
  The write methods do not compare the byte count with their 80-byte stack buffer: with
  more than 80 bytes, through any of the four minors, the kernel stack is overwritten.
\<close>

theorem calc_write_overruns:
  assumes "length Kbuff = 80" and "80 < n" and "f_op s \<noteq> None"
  shows "vfs_write Kbuff Ubuff n s = Inl Overrun"
  using assms kbuf_write_overrun [of Kbuff n Ubuff]
  by (auto simp: vfs_write_def NAME_write_add_def NAME_write_sub_def NAME_write_mul_def NAME_write_div_def
      calc_write_def split: calc_op.split)

lemma calc_write_overruns_witness:
  "vfs_write (replicate 80 0) (replicate 81 65) 81 (idle_calc\<lparr>f_op := Some AddOp\<rparr>) = Inl Overrun"
  by (rule calc_write_overruns) simp_all

end
