(* ===== verification/Port_Drivers.thy ===== *)
theory Port_Drivers
  imports Simple_Drivers
begin

text \<open>
  Drivers that talk to hardware through I/O ports: the real-time clock \<open>RTC/clock.c\<close>, the two
  parallel port drivers \<open>Parport/parlelport.c\<close> and \<open>interrupt3/parlelport.c\<close>, and the two
  keyboard interrupt modules \<open>interrupt1/intr.c\<close> and \<open>interrupt2/intr.c\<close>.

  Port accesses are recorded, latest first; what a port answers is an arbitrary function of
  the accesses so far (the hardware).
\<close>

section \<open>Port accesses\<close>

datatype ioev = Outb nat byte | Inb nat byte

type_synonym hw = "ioev list \<Rightarrow> nat \<Rightarrow> byte"

record port_state = mod_state +
  io :: "ioev list"

definition outb :: "byte \<Rightarrow> nat \<Rightarrow> 'a port_state_scheme \<Rightarrow> 'a port_state_scheme" where
  "outb v p s = s\<lparr>io := Outb p v # io s\<rparr>"

definition inb :: "hw \<Rightarrow> nat \<Rightarrow> 'a port_state_scheme \<Rightarrow> byte \<times> 'a port_state_scheme" where
  "inb H p s = (let v = H (io s) p in (v, s\<lparr>io := Inb p v # io s\<rparr>))"

lemma port_simps [simp]:
  "io (outb v p s) = Outb p v # io s" "ktr (outb v p s) = ktr s"
  "fst (inb H p s) = H (io s) p" "io (snd (inb H p s)) = Inb p (H (io s) p) # io s"
  "ktr (snd (inb H p s)) = ktr s"
  by (simp_all add: outb_def inb_def Let_def)

section \<open>The real-time clock\<close>

definition RTC_CMD_PORT :: nat where "RTC_CMD_PORT = 0x70"
definition RTC_DATA_PORT :: nat where "RTC_DATA_PORT = 0x71"
definition FILE_SIZE :: nat where "FILE_SIZE = 6"

text \<open>Day, month, year, hours, minutes, seconds.\<close>

definition cmd_arr :: "byte list" where
  "cmd_arr = [7, 8, 9, 4, 2, 0]"

definition READ_FROM_CLOCK :: "hw \<Rightarrow> byte \<Rightarrow> 'a port_state_scheme \<Rightarrow> byte \<times> 'a port_state_scheme" where
  "READ_FROM_CLOCK H cmd s = inb H RTC_DATA_PORT (outb cmd RTC_CMD_PORT s)"

definition WRITE_TO_CLOCK :: "byte \<Rightarrow> byte \<Rightarrow> 'a port_state_scheme \<Rightarrow> 'a port_state_scheme" where
  "WRITE_TO_CLOCK cmd v s = outb v RTC_DATA_PORT (outb cmd RTC_CMD_PORT s)"

definition clock_CharDevice_init :: "kenv \<Rightarrow> port_state \<Rightarrow> (int \<times> port_state) res" where
  "clock_CharDevice_init E s =
     (case acq_int E (ChrRegion 255 0 1) s of (result, s1) \<Rightarrow>
       if result < 0 then Inr (-1, s1) else add_my_cdev E 255 s1)"

definition clock_CharDevice_exit :: "port_state \<Rightarrow> port_state" where
  "clock_CharDevice_exit s = del_my_cdev 255 (rel (ChrRegion 255 0 1) s)"

definition clock_open :: "port_state \<Rightarrow> int \<times> port_state" where "clock_open s = (0, s)"
definition clock_release :: "port_state \<Rightarrow> int \<times> port_state" where "clock_release s = (0, s)"

text \<open>Writing: the returned count, the new file offset, and the state.\<close>

definition clock_write :: "byte list \<Rightarrow> nat \<Rightarrow> nat \<Rightarrow> port_state \<Rightarrow> int \<times> nat \<times> port_state" where
  "clock_write buf cnt off s =
     (if cnt > 1 then (- EIO, off, s)
      else if off \<ge> FILE_SIZE then (- EIO, off, s)
      else (case copy_from_user buf 1 of (data, left) \<Rightarrow>
        if left \<noteq> 0 then (- EFAULT, off, s)
        else (1, off + 1, WRITE_TO_CLOCK (cmd_arr ! off) (hd data) s)))"

text \<open>Reading also gives the bytes that reach the user, who can take \<open>room\<close> of them.\<close>

definition clock_read :: "hw \<Rightarrow> nat \<Rightarrow> nat \<Rightarrow> nat \<Rightarrow> port_state \<Rightarrow> int \<times> byte list \<times> nat \<times> port_state" where
  "clock_read H room cnt off s =
     (if cnt > 1 then (- EIO, [], off, s)
      else if off \<ge> FILE_SIZE then (- EIO, [], off, s)
      else (case READ_FROM_CLOCK H (cmd_arr ! off) s of (data, s1) \<Rightarrow>
        (case copy_to_user room [data] of (out, left) \<Rightarrow>
          if left \<noteq> 0 then (- EFAULT, out, off, s1) else (1, out, off + 1, s1))))"

text \<open>The loops of \<open>write.c\<close> (which writes the same byte each time) and \<open>read.c\<close>.\<close>

fun write_loop :: "byte list \<Rightarrow> nat \<Rightarrow> port_state \<Rightarrow> int list \<times> port_state" where
  "write_loop [] off s = ([], s)"
| "write_loop (x # xs) off s = (case clock_write [x] 1 off s of (r, off', s1) \<Rightarrow>
     (case write_loop xs off' s1 of (rs, s2) \<Rightarrow> (r # rs, s2)))"

fun read_loop :: "hw \<Rightarrow> nat \<Rightarrow> nat \<Rightarrow> port_state \<Rightarrow> byte list \<times> port_state" where
  "read_loop H 0 off s = ([], s)"
| "read_loop H (Suc n) off s = (case clock_read H 1 1 off s of (r, out, off', s1) \<Rightarrow>
     (case read_loop H n off' s1 of (outs, s2) \<Rightarrow> (out @ outs, s2)))"

text \<open>
  What a clock that is not ticking promises: the command port selects a register, the data
  port writes the selected register and reads the last value written to it.
\<close>

fun rtc_index :: "ioev list \<Rightarrow> byte" where
  "rtc_index [] = 0"
| "rtc_index (Outb p v # tr) = (if p = RTC_CMD_PORT then v else rtc_index tr)"
| "rtc_index (Inb p v # tr) = rtc_index tr"

fun rtc_reg :: "(byte \<Rightarrow> byte) \<Rightarrow> ioev list \<Rightarrow> byte \<Rightarrow> byte" where
  "rtc_reg f [] r = f r"
| "rtc_reg f (Outb p v # tr) r = (if p = RTC_DATA_PORT \<and> rtc_index tr = r then v else rtc_reg f tr r)"
| "rtc_reg f (Inb p v # tr) r = rtc_reg f tr r"

definition rtc_law :: "(byte \<Rightarrow> byte) \<Rightarrow> hw \<Rightarrow> bool" where
  "rtc_law f H \<longleftrightarrow> (\<forall>tr. H tr RTC_DATA_PORT = rtc_reg f tr (rtc_index tr))"

lemmas rtc_ports = RTC_CMD_PORT_def RTC_DATA_PORT_def

lemma WRITE_TO_CLOCK_reg:
  "rtc_reg f (io (WRITE_TO_CLOCK c v s)) r = (if r = c then v else rtc_reg f (io s) r)"
  by (auto simp: WRITE_TO_CLOCK_def rtc_ports)

lemma READ_FROM_CLOCK_reg:
  assumes "rtc_law f H"
  shows "fst (READ_FROM_CLOCK H c s) = rtc_reg f (io s) c"
    and "rtc_reg f (io (snd (READ_FROM_CLOCK H c s))) r = rtc_reg f (io s) r"
  using assms by (simp_all add: READ_FROM_CLOCK_def rtc_law_def rtc_ports)

lemma clock_write_step:
  "off < 6 \<Longrightarrow> clock_write [x] 1 off s = (1, off + 1, WRITE_TO_CLOCK (cmd_arr ! off) x s)"
  by (simp add: clock_write_def FILE_SIZE_def)

lemma clock_read_step:
  "off < 6 \<Longrightarrow> clock_read H 1 1 off s =
     (1, [fst (READ_FROM_CLOCK H (cmd_arr ! off) s)], off + 1, snd (READ_FROM_CLOCK H (cmd_arr ! off) s))"
  by (simp add: clock_read_def FILE_SIZE_def split: prod.split)

lemma distinct_cmd_arr: "distinct cmd_arr" and length_cmd_arr [simp]: "length cmd_arr = 6"
  by (simp_all add: cmd_arr_def)

lemma cmd_arr_inj: "i < 6 \<Longrightarrow> j < 6 \<Longrightarrow> cmd_arr ! i = cmd_arr ! j \<longleftrightarrow> i = j"
  using nth_eq_iff_index_eq [OF distinct_cmd_arr] by simp

lemma write_loop_regs:
  "off + length xs \<le> 6 \<Longrightarrow> fst (write_loop xs off s) = replicate (length xs) 1
     \<and> (\<forall>i < 6. rtc_reg f (io (snd (write_loop xs off s))) (cmd_arr ! i)
          = (if off \<le> i \<and> i < off + length xs then xs ! (i - off) else rtc_reg f (io s) (cmd_arr ! i)))"
proof (induction xs arbitrary: off s)
  case Nil
  then show ?case by auto
next
  case (Cons x xs)
  let ?s1 = "WRITE_TO_CLOCK (cmd_arr ! off) x s"
  have off: "off < 6" "Suc off + length xs \<le> 6" using Cons.prems by simp_all
  note IH = Cons.IH [OF off(2), of ?s1]
  have eq: "write_loop (x # xs) off s = (1 # fst (write_loop xs (Suc off) ?s1), snd (write_loop xs (Suc off) ?s1))"
    using clock_write_step [OF off(1)] by (simp split: prod.split)
  show ?case
    unfolding eq using IH off(1) by (auto simp: WRITE_TO_CLOCK_reg cmd_arr_inj nth_Cons')
qed

lemma read_loop_regs:
  assumes "rtc_law f H"
  shows "off + n \<le> 6 \<Longrightarrow> fst (read_loop H n off s) = map (\<lambda>i. rtc_reg f (io s) (cmd_arr ! i)) [off ..< off + n]"
proof (induction n arbitrary: off s)
  case 0
  then show ?case by simp
next
  case (Suc n)
  let ?s1 = "snd (READ_FROM_CLOCK H (cmd_arr ! off) s)"
  have off: "off < 6" "Suc off + n \<le> 6" using Suc.prems by simp_all
  have "fst (read_loop H (Suc n) off s) = fst (READ_FROM_CLOCK H (cmd_arr ! off) s) # fst (read_loop H n (Suc off) ?s1)"
    using clock_read_step [OF off(1)] by (simp split: prod.split)
  also have "fst (read_loop H n (Suc off) ?s1) = map (\<lambda>i. rtc_reg f (io ?s1) (cmd_arr ! i)) [Suc off ..< Suc off + n]"
    by (rule Suc.IH [OF off(2)])
  also have "\<dots> = map (\<lambda>i. rtc_reg f (io s) (cmd_arr ! i)) [Suc off ..< Suc off + n]"
    by (simp only: READ_FROM_CLOCK_reg(2) [OF assms])
  also have "fst (READ_FROM_CLOCK H (cmd_arr ! off) s) # \<dots>
      = map (\<lambda>i. rtc_reg f (io s) (cmd_arr ! i)) (off # [Suc off ..< Suc off + n])"
    by (simp only: READ_FROM_CLOCK_reg(1) [OF assms] list.map)
  also have "off # [Suc off ..< Suc off + n] = [off ..< off + Suc n]"
    by (simp add: upt_conv_Cons del: upt_Suc)
  finally show ?case .
qed

interpretation clock: driver_module clock_CharDevice_init clock_CharDevice_exit ktr "\<lambda>s. {#ChrRegion 255 0 1, CdevObj, CdevReg 255#}"
proof
  show "held (ktr s') = held (ktr s) + {#ChrRegion 255 0 1, CdevObj, CdevReg 255#} \<and> spurious (ktr s') = spurious (ktr s)"
    if "clock_CharDevice_init E s = Inr (0, s')" for E s s'
    using that by (auto simp: clock_CharDevice_init_def load_defs split: if_splits dest!: add_my_cdev_cases)
  show "held (ktr (clock_CharDevice_exit s)) = M \<and> spurious (ktr (clock_CharDevice_exit s)) = spurious (ktr s)"
    if "held (ktr s) = M + {#ChrRegion 255 0 1, CdevObj, CdevReg 255#}" for s M
    using that by (simp add: clock_CharDevice_exit_def del_my_cdev_def)
qed


definition plain_rtc :: hw where
  "plain_rtc tr p = (if p = RTC_DATA_PORT then rtc_reg (\<lambda>_. 0) tr (rtc_index tr) else 0)"


section \<open>The parallel port\<close>

record lp_state = port_state +
  port :: int
  isrCnt :: int
  tasklet_pending :: bool

lemma port_outb [simp]: "port (outb v p s) = port s"
  by (simp add: outb_def)

definition LP_DATA :: nat where "LP_DATA = 0x378"
definition LP_CTRL :: nat where "LP_CTRL = 0x37A"

text \<open>Parport/parlelport.c.  Unloading frees the port only if \<open>check_region\<close> had found it free.\<close>

definition parlelport_exit :: "lp_state \<Rightarrow> lp_state" where
  "parlelport_exit s = (let s1 = rel (ChrMajor 61) s
     in if port s = 0 then rel (PortRegion 0x378 1) s1 else s1)"

definition parlelport_init :: "kenv \<Rightarrow> lp_state \<Rightarrow> (int \<times> lp_state) res" where
  "parlelport_init E s =
     (case acq_int E (ChrMajor 61) s of (result, s1) \<Rightarrow>
      if result < 0 then Inr (result, s1) else
      (let pt = kr_check E (ktr s1) (PortRegion 0x378 1); s2 = s1\<lparr>port := pt\<rparr> in
       if pt \<noteq> 0 then Inr (pt, parlelport_exit s2)
       else Inr (0, snd (acq_ptr E (PortRegion 0x378 1) s2))))"

definition parlelport_open :: "lp_state \<Rightarrow> int \<times> lp_state" where "parlelport_open s = (0, s)"
definition parlelport_release :: "lp_state \<Rightarrow> int \<times> lp_state" where "parlelport_release s = (0, s)"

text \<open>The data port is read once for every call, and only the first read of a file gives a byte.\<close>

definition parlelport_read :: "hw \<Rightarrow> nat \<Rightarrow> nat \<Rightarrow> nat \<Rightarrow> lp_state \<Rightarrow> int \<times> byte list \<times> nat \<times> lp_state" where
  "parlelport_read H room cnt f_pos s =
     (case inb H LP_DATA s of (v, s1) \<Rightarrow>
       (let out = fst (copy_to_user room [v])
        in if f_pos = 0 then (1, out, f_pos + 1, s1) else (0, out, f_pos, s1)))"

text \<open>
  The byte at \<open>buf + count - 1\<close> goes to the port.  User memory is a map from offsets relative
  to \<open>buf\<close>; a byte that cannot be read arrives as zero.
\<close>

definition parlelport_write :: "(int \<Rightarrow> byte option) \<Rightarrow> nat \<Rightarrow> lp_state \<Rightarrow> int \<times> lp_state" where
  "parlelport_write buf cnt s =
     (let v = (case buf (int cnt - 1) of None \<Rightarrow> 0 | Some x \<Rightarrow> x) in (1, outb v LP_DATA s))"

section \<open>The parallel port with its interrupt\<close>

definition int3_exit :: "lp_state \<Rightarrow> lp_state" where
  "int3_exit s = (let s1 = outb 0x00 LP_CTRL (rel (ChrMajor 61) s);
       s2 = (if port s = 0 then rel (PortRegion 0x378 1) s1 else s1)
     in rel (IrqLine 7) s2)"

definition int3_init :: "kenv \<Rightarrow> lp_state \<Rightarrow> (int \<times> lp_state) res" where
  "int3_init E s =
     (case acq_int E (ChrMajor 61) s of (result, s1) \<Rightarrow>
      if result < 0 then Inr (result, s1) else
      (let pt = kr_check E (ktr s1) (PortRegion 0x378 3); s2 = s1\<lparr>port := pt\<rparr> in
       if pt \<noteq> 0 then Inr (pt, int3_exit s2)
       else (let s3 = snd (acq_ptr E (PortRegion 0x378 3) s2);
                 s4 = snd (acq_int E (IrqLine 7) s3)
             in Inr (0, outb 0x10 LP_CTRL s4))))"

definition myIntHandler :: "lp_state \<Rightarrow> lp_state" where
  "myIntHandler s = s\<lparr>tasklet_pending := True, isrCnt := isrCnt s + 1\<rparr>"

definition do_mytasklet :: "lp_state \<Rightarrow> lp_state" where
  "do_mytasklet s = s\<lparr>tasklet_pending := False\<rparr>"

definition int3_open :: "lp_state \<Rightarrow> int \<times> lp_state" where "int3_open s = (0, s)"
definition int3_release :: "lp_state \<Rightarrow> int \<times> lp_state" where "int3_release s = (0, s)"

definition int3_read :: "hw \<Rightarrow> nat \<Rightarrow> nat \<Rightarrow> nat \<Rightarrow> lp_state \<Rightarrow> int \<times> byte list \<times> nat \<times> lp_state" where
  "int3_read H room cnt f_pos s =
     (case inb H LP_DATA s of (v, s1) \<Rightarrow>
       (let out = fst (copy_to_user room [v])
        in if f_pos = 0 then (1, out, f_pos + 1, s1) else (0, out, f_pos, s1)))"

definition int3_write :: "(int \<Rightarrow> byte option) \<Rightarrow> nat \<Rightarrow> lp_state \<Rightarrow> int \<times> lp_state" where
  "int3_write buf cnt s =
     (let v = (case buf (int cnt - 1) of None \<Rightarrow> 0 | Some x \<Rightarrow> x) in (1, outb v LP_DATA s))"

section \<open>The keyboard interrupt modules\<close>

record intr_state = mod_state +
  int_count :: int
  task_pending :: bool

definition intr1_init_module :: "kenv \<Rightarrow> intr_state \<Rightarrow> (int \<times> intr_state) res" where
  "intr1_init_module E s = (case acq_int E (IrqLine 1) s of (rv, s1) \<Rightarrow> Inr (if rv < 0 then -1 else 0, s1))"

definition intr1_cleanup_module :: "intr_state \<Rightarrow> intr_state" where
  "intr1_cleanup_module s = rel (IrqLine 1) s"

definition intr1_handler :: "intr_state \<Rightarrow> intr_state" where
  "intr1_handler s = s\<lparr>int_count := int_count s + 1\<rparr>"

definition intr2_init_module :: "kenv \<Rightarrow> intr_state \<Rightarrow> (int \<times> intr_state) res" where
  "intr2_init_module E s = (case acq_int E (IrqLine 1) s of (rv, s1) \<Rightarrow> Inr (if rv \<noteq> 0 then -1 else 0, s1))"

definition intr2_cleanup_module :: "intr_state \<Rightarrow> intr_state" where
  "intr2_cleanup_module s = rel (IrqLine 1) s"

definition intr2_handler :: "intr_state \<Rightarrow> intr_state" where
  "intr2_handler s = s\<lparr>int_count := int_count s + 1, task_pending := True\<rparr>"

definition my_func :: "intr_state \<Rightarrow> intr_state" where
  "my_func s = s\<lparr>task_pending := False\<rparr>"

interpretation intr1: clean_module intr1_init_module intr1_cleanup_module ktr "\<lambda>s. {#IrqLine 1#}"
  by unfold_locales (auto simp: intr1_init_module_def intr1_cleanup_module_def load_defs split: if_splits)

section \<open>What the parallel port drivers do\<close>

text \<open>What the kernel promises about port regions: one found free can be claimed.\<close>

definition check_law :: "kenv \<Rightarrow> bool" where
  "check_law E \<longleftrightarrow> (\<forall>tr r. kr_check E tr r = 0 \<longrightarrow> kr_ptr E tr r = ValidPtr)"

lemma parlelport_balanced:
  assumes "check_law E" and "parlelport_init E s = Inr (r, s')"
  shows "(r = 0 \<longrightarrow> held (ktr s') = held (ktr s) + {#ChrMajor 61, PortRegion 0x378 1#}
           \<and> spurious (ktr s') = spurious (ktr s)
           \<and> held (ktr (parlelport_exit s')) = held (ktr s) \<and> spurious (ktr (parlelport_exit s')) = spurious (ktr s))
     \<and> (r \<noteq> 0 \<longrightarrow> held (ktr s') = held (ktr s) \<and> spurious (ktr s') = spurious (ktr s))"
  using assms by (auto simp: parlelport_init_def parlelport_exit_def check_law_def load_defs split: if_splits)

text \<open>
  Unloading the interrupt-driven parallel port driver after a successful load releases one
  port where it had claimed three: the region stays claimed for ever, the kernel sees a release
  of a region that is not claimed, and, if the interrupt had been refused at load (which the
  load ignores), also a release of an interrupt that is not claimed.
\<close>

theorem int3_unload_leaks:
  assumes "check_law E" and "int3_init E s = Inr (0, s')"
    and "PortRegion 0x378 1 \<notin># held (ktr s)" and "IrqLine 7 \<notin># held (ktr s)"
  shows "held (ktr (int3_exit s')) = add_mset (PortRegion 0x378 3) (held (ktr s))
     \<and> spurious (ktr (int3_exit s')) = spurious (ktr s) + (if IrqLine 7 \<in># held (ktr s') then 1 else 2)"
  using assms by (auto simp: int3_init_def int3_exit_def check_law_def load_defs split: if_splits)

definition easy_kernel :: kenv where
  "easy_kernel = \<lparr>kr_int = (\<lambda>tr r. 0), kr_ptr = (\<lambda>tr r. ValidPtr), kr_major = (\<lambda>tr. 250), kr_check = (\<lambda>tr r. 0)\<rparr>"

definition idle_lp :: lp_state where
  "idle_lp = \<lparr>ktr = [], io = [], port = 0, isrCnt = 0, tasklet_pending = False\<rparr>"

lemma int3_unload_leaks_witness:
  "held (ktr (int3_exit (snd (case int3_init easy_kernel idle_lp of Inr x \<Rightarrow> x | Inl e \<Rightarrow> (0, idle_lp)))))
     = {#PortRegion 0x378 3#}"
proof -
  have "check_law easy_kernel" by (simp add: check_law_def easy_kernel_def)
  moreover obtain s' where s': "int3_init easy_kernel idle_lp = Inr (0, s')"
    by (simp add: int3_init_def load_defs easy_kernel_def)
  ultimately show ?thesis
    using int3_unload_leaks [of easy_kernel idle_lp s'] by (simp add: idle_lp_def)
qed

end
