(* ===== verification/Serial_Driver.thy ===== *)
theory Serial_Driver
  imports Port_Drivers
begin

text \<open>
  The driver of the first serial port, \<open>SerialDriver/serial.c\<close>, with the command numbers of
  \<open>serial_ioctl_commands.h\<close>: line settings by ioctl, and transmission and reception that wait
  in busy loops for flags which the interrupt handler sets.
\<close>

section \<open>State\<close>

record serial_state = port_state +
  rbuff :: byte
  tbuff :: byte
  rflag :: int
  tflag :: int

definition LINE_CTRL_REG :: nat where "LINE_CTRL_REG = 0x3f8 + 3"
definition DIVISOR_LATCH_L :: nat where "DIVISOR_LATCH_L = 0x3f8 + 0"
definition DIVISOR_LATCH_H :: nat where "DIVISOR_LATCH_H = 0x3f8 + 1"
definition RECIEVE_REG :: nat where "RECIEVE_REG = 0x3f8"
definition TRANSMIT_REG :: nat where "TRANSMIT_REG = 0x3f8"
definition INT_ENABLE_REG :: nat where "INT_ENABLE_REG = 0x3f8 + 1"
definition INT_IDENTIFICATION_REG :: nat where "INT_IDENTIFICATION_REG = 0x3f8 + 2"

lemmas serial_ports = LINE_CTRL_REG_def DIVISOR_LATCH_L_def DIVISOR_LATCH_H_def RECIEVE_REG_def
  TRANSMIT_REG_def INT_ENABLE_REG_def INT_IDENTIFICATION_REG_def

section \<open>Loading and unloading\<close>

definition serial_CharDevice_init :: "kenv \<Rightarrow> serial_state \<Rightarrow> (int \<times> serial_state) res" where
  "serial_CharDevice_init E s =
     (case acq_int E (ChrRegion 255 0 1) s of (result, s1) \<Rightarrow>
       if result < 0 then Inr (-1, s1)
       else bind_res (add_my_cdev E 255 s1) (\<lambda>(result, s2).
         if result < 0 then Inr (-1, s2)
         else (let s3 = snd (acq_ptr E (PortRegion 0x3f8 8) s2)
               in Inr (0, snd (acq_int E (IrqLine 4) s3)))))"

definition serial_CharDevice_exit :: "serial_state \<Rightarrow> serial_state" where
  "serial_CharDevice_exit s =
     rel (IrqLine 4) (rel (PortRegion 0x3f8 8) (del_my_cdev 255 (rel (ChrRegion 255 0 1) s)))"

section \<open>Open, write, read\<close>

definition serial_open :: "serial_state \<Rightarrow> int \<times> serial_state" where
  "serial_open s =
     (0, outb 0x3 INT_ENABLE_REG (outb 0x0b LINE_CTRL_REG (outb 0x00 LINE_CTRL_REG
       (outb 0x00 DIVISOR_LATCH_H (outb 0x0c DIVISOR_LATCH_L (outb 0x80 LINE_CTRL_REG
       (outb 0x0 INT_ENABLE_REG s)))))))"

definition serial_release :: "serial_state \<Rightarrow> int \<times> serial_state" where "serial_release s = (0, s)"

text \<open>The interrupt handler; True stands for \<open>IRQ_HANDLED\<close>.\<close>

definition irq_handler :: "hw \<Rightarrow> serial_state \<Rightarrow> bool \<times> serial_state" where
  "irq_handler H s =
     (case inb H INT_IDENTIFICATION_REG s of (buffer, s1) \<Rightarrow>
       if buffer AND 0x1 = 0 then
         (let select = drop_bit 1 buffer AND 0x7 in
          if select = 1 then (True, s1\<lparr>tflag := 0\<rparr>)
          else if select = 2 then
            (case inb H RECIEVE_REG s1 of (v, s2) \<Rightarrow> (True, s2\<lparr>rbuff := v, rflag := 1\<rparr>))
          else (True, s1))
       else (False, s1))"

text \<open>
  The busy loops, with the number of interrupts that arrive: None means that the process still
  spins after them.
\<close>

fun wait_tflag :: "hw \<Rightarrow> nat \<Rightarrow> serial_state \<Rightarrow> serial_state option" where
  "wait_tflag H n s = (if tflag s = 1 then (case n of 0 \<Rightarrow> None
     | Suc k \<Rightarrow> wait_tflag H k (snd (irq_handler H s))) else Some s)"

fun wait_rflag :: "hw \<Rightarrow> nat \<Rightarrow> serial_state \<Rightarrow> serial_state option" where
  "wait_rflag H n s = (if rflag s = 0 then (case n of 0 \<Rightarrow> None
     | Suc k \<Rightarrow> wait_rflag H k (snd (irq_handler H s))) else Some s)"

declare wait_tflag.simps [simp del] wait_rflag.simps [simp del]

definition serial_write :: "hw \<Rightarrow> nat \<Rightarrow> byte list \<Rightarrow> nat \<Rightarrow> serial_state \<Rightarrow> (int \<times> serial_state) option" where
  "serial_write H irqs Ubuff cnt s =
     (case wait_tflag H irqs s of None \<Rightarrow> None
      | Some s1 \<Rightarrow>
          (let s2 = s1\<lparr>tbuff := hd (fst (copy_from_user Ubuff 1))\<rparr>
           in Some (1, (outb (tbuff s2) TRANSMIT_REG s2)\<lparr>tflag := 0\<rparr>)))"

text \<open>Some interrupts in a row; \<open>late\<close> of them come between the copy of the byte and the reset of its flag.\<close>

fun irqs :: "hw \<Rightarrow> nat \<Rightarrow> serial_state \<Rightarrow> serial_state" where
  "irqs H 0 s = s"
| "irqs H (Suc n) s = irqs H n (snd (irq_handler H s))"

definition serial_read :: "hw \<Rightarrow> nat \<Rightarrow> nat \<Rightarrow> nat \<Rightarrow> nat \<Rightarrow> serial_state \<Rightarrow> (int \<times> byte list \<times> serial_state) option" where
  "serial_read H n late room cnt s =
     (case wait_rflag H n s of None \<Rightarrow> None
      | Some s1 \<Rightarrow> Some (1, fst (copy_to_user room [rbuff s1]), (irqs H late s1)\<lparr>rflag := 0\<rparr>))"

section \<open>Line settings\<close>

definition SERIAL_MAGIC_NUMBER :: "32 word" where "SERIAL_MAGIC_NUMBER = 0x67"
definition SET_BAUD_9600 :: "32 word" where "SET_BAUD_9600 = ioc 0 SERIAL_MAGIC_NUMBER 15 0"
definition SET_BAUD_19200 :: "32 word" where "SET_BAUD_19200 = ioc 0 SERIAL_MAGIC_NUMBER 16 0"
definition SET_EVEN_PARITY :: "32 word" where "SET_EVEN_PARITY = ioc 0 SERIAL_MAGIC_NUMBER 20 0"
definition SET_ODD_PARITY :: "32 word" where "SET_ODD_PARITY = ioc 0 SERIAL_MAGIC_NUMBER 21 0"
definition SET_NO_PARITY :: "32 word" where "SET_NO_PARITY = ioc 0 SERIAL_MAGIC_NUMBER 22 0"
definition SET_STOP_BITS_AS_1 :: "32 word" where "SET_STOP_BITS_AS_1 = ioc 0 SERIAL_MAGIC_NUMBER 23 0"
definition SET_CHAR_LEN_AS_8 :: "32 word" where "SET_CHAR_LEN_AS_8 = ioc 0 SERIAL_MAGIC_NUMBER 28 0"
definition ENABLE_INTERRUPTS :: "32 word" where "ENABLE_INTERRUPTS = ioc 0 SERIAL_MAGIC_NUMBER 29 0"
definition DISABLE_INTERRUPTS :: "32 word" where "DISABLE_INTERRUPTS = ioc 0 SERIAL_MAGIC_NUMBER 30 0"

definition set_baud :: "hw \<Rightarrow> byte \<Rightarrow> byte \<Rightarrow> serial_state \<Rightarrow> serial_state" where
  "set_baud H lo hi s = (case inb H LINE_CTRL_REG s of (mod_prev, s1) \<Rightarrow>
     outb mod_prev LINE_CTRL_REG (outb hi DIVISOR_LATCH_H (outb lo DIVISOR_LATCH_L
       (outb (mod_prev OR 0x80) LINE_CTRL_REG s1))))"

definition modify_lcr :: "hw \<Rightarrow> (byte \<Rightarrow> byte) \<Rightarrow> serial_state \<Rightarrow> serial_state" where
  "modify_lcr H f s = (case inb H LINE_CTRL_REG s of (mod_prev, s1) \<Rightarrow> outb (f mod_prev) LINE_CTRL_REG s1)"

definition serial_ioctl :: "hw \<Rightarrow> 32 word \<Rightarrow> 64 word \<Rightarrow> serial_state \<Rightarrow> int \<times> serial_state" where
  "serial_ioctl H cmd arg s =
     (1, if cmd = SET_BAUD_9600 then set_baud H 0x0c 0x00 s
         else if cmd = SET_BAUD_19200 then set_baud H 0x06 0x00 s
         else if cmd = SET_EVEN_PARITY then modify_lcr H (\<lambda>v. v OR 0x18) s
         else if cmd = SET_ODD_PARITY then modify_lcr H (\<lambda>v. v OR 0x8) s
         else if cmd = SET_NO_PARITY then modify_lcr H (\<lambda>v. v AND 0xf7) s
         else if cmd = SET_STOP_BITS_AS_1 then modify_lcr H (\<lambda>v. v AND 0xfb) s
         else if cmd = SET_CHAR_LEN_AS_8 then modify_lcr H (\<lambda>v. v OR 0x3) s
         else if cmd = ENABLE_INTERRUPTS then outb 0x3 INT_ENABLE_REG s
         else if cmd = DISABLE_INTERRUPTS then outb 0x0 INT_ENABLE_REG s
         else s)"

section \<open>The line settings as the 8250 keeps them\<close>

text \<open>
  The line control register holds the last value written to it.  While its bit 7 is set, the
  first two ports of the chip are the divisor latch; otherwise a write to them sends a byte
  and sets the interrupt enable register.
\<close>

fun uart_lcr :: "ioev list \<Rightarrow> byte" where
  "uart_lcr [] = 0"
| "uart_lcr (Outb p v # tr) = (if p = 0x3fb then v else uart_lcr tr)"
| "uart_lcr (Inb p v # tr) = uart_lcr tr"

fun uart_divisor :: "ioev list \<Rightarrow> byte \<times> byte" where
  "uart_divisor [] = (0, 0)"
| "uart_divisor (Outb p v # tr) = (case uart_divisor tr of (lo, hi) \<Rightarrow>
     if \<not> bit (uart_lcr tr) 7 then (lo, hi) else if p = 0x3f8 then (v, hi) else if p = 0x3f9 then (lo, v) else (lo, hi))"
| "uart_divisor (Inb p v # tr) = uart_divisor tr"

fun uart_sent :: "ioev list \<Rightarrow> byte list" where
  "uart_sent [] = []"
| "uart_sent (Outb p v # tr) = (if p = 0x3f8 \<and> \<not> bit (uart_lcr tr) 7 then uart_sent tr @ [v] else uart_sent tr)"
| "uart_sent (Inb p v # tr) = uart_sent tr"

fun uart_ier :: "ioev list \<Rightarrow> byte" where
  "uart_ier [] = 0"
| "uart_ier (Outb p v # tr) = (if p = 0x3f9 \<and> \<not> bit (uart_lcr tr) 7 then v else uart_ier tr)"
| "uart_ier (Inb p v # tr) = uart_ier tr"

definition uart_law :: "hw \<Rightarrow> bool" where
  "uart_law H \<longleftrightarrow> (\<forall>tr. H tr 0x3fb = uart_lcr tr)"

datatype parity = NoParity | OddParity | EvenParity

definition parity_of :: "byte \<Rightarrow> parity" where
  "parity_of v = (if \<not> bit v 3 then NoParity else if bit v 4 then EvenParity else OddParity)"

definition baud_of :: "byte \<times> byte \<Rightarrow> nat" where
  "baud_of d = 115200 div (256 * unat (snd d) + unat (fst d))"

lemma modify_lcr_io:
  "uart_law H \<Longrightarrow> io (modify_lcr H f s) = [Outb 0x3fb (f (uart_lcr (io s))), Inb 0x3fb (uart_lcr (io s))] @ io s"
  by (simp add: modify_lcr_def inb_def outb_def uart_law_def serial_ports Let_def)

lemma set_baud_io:
  "uart_law H \<Longrightarrow> io (set_baud H lo hi s) = [Outb 0x3fb (uart_lcr (io s)), Outb 0x3f9 hi, Outb 0x3f8 lo,
     Outb 0x3fb (uart_lcr (io s) OR 0x80), Inb 0x3fb (uart_lcr (io s))] @ io s"
  by (simp add: set_baud_def inb_def outb_def uart_law_def serial_ports Let_def)

lemma bit7_or: "bit (v OR 0x80 :: byte) 7"
  by (simp add: bit_simps)

lemma set_baud_uart:
  assumes "uart_law H"
  shows "uart_lcr (io (set_baud H lo hi s)) = uart_lcr (io s)" "uart_divisor (io (set_baud H lo hi s)) = (lo, hi)"
    "uart_sent (io (set_baud H lo hi s)) = uart_sent (io s)" "uart_ier (io (set_baud H lo hi s)) = uart_ier (io s)"
  using set_baud_io [OF assms, of lo hi s] bit7_or [of "uart_lcr (io s)"] by (simp_all split: prod.split)

lemma modify_lcr_uart:
  assumes "uart_law H"
  shows "uart_lcr (io (modify_lcr H f s)) = f (uart_lcr (io s))" "uart_divisor (io (modify_lcr H f s)) = uart_divisor (io s)"
    "uart_sent (io (modify_lcr H f s)) = uart_sent (io s)" "uart_ier (io (modify_lcr H f s)) = uart_ier (io s)"
  using modify_lcr_io [OF assms, of f s] by (simp_all split: prod.split)

lemma serial_cmds [simp]:
  "SET_BAUD_9600 = 0x670f" "SET_BAUD_19200 = 0x6710" "SET_EVEN_PARITY = 0x6714" "SET_ODD_PARITY = 0x6715"
  "SET_NO_PARITY = 0x6716" "SET_STOP_BITS_AS_1 = 0x6717" "SET_CHAR_LEN_AS_8 = 0x671c"
  "ENABLE_INTERRUPTS = 0x671d" "DISABLE_INTERRUPTS = 0x671e"
  by (simp_all add: SET_BAUD_9600_def SET_BAUD_19200_def SET_EVEN_PARITY_def SET_ODD_PARITY_def SET_NO_PARITY_def
      SET_STOP_BITS_AS_1_def SET_CHAR_LEN_AS_8_def ENABLE_INTERRUPTS_def DISABLE_INTERRUPTS_def
      ioc_def SERIAL_MAGIC_NUMBER_def)

text \<open>The line control register after each command.\<close>

definition lcr_after :: "32 word \<Rightarrow> byte \<Rightarrow> byte" where
  "lcr_after cmd v = (if cmd = SET_EVEN_PARITY then v OR 0x18 else if cmd = SET_ODD_PARITY then v OR 0x08
     else if cmd = SET_NO_PARITY then v AND 0xf7 else if cmd = SET_STOP_BITS_AS_1 then v AND 0xfb
     else if cmd = SET_CHAR_LEN_AS_8 then v OR 0x03 else v)"

text \<open>
  C26. The serial ioctls on a chip whose divisor latch is closed: every command, known or not,
  returns 1 and sends no byte; the two baud rate commands program 9600 and 19200 baud and
  restore the line control register, the others change just the register they name.
\<close>

theorem serial_ioctl_effect:
  assumes "uart_law H" and "\<not> bit (uart_lcr (io s)) 7" and "serial_ioctl H cmd arg s = (r, s')"
  shows "r = 1 \<and> uart_sent (io s') = uart_sent (io s) \<and> uart_lcr (io s') = lcr_after cmd (uart_lcr (io s))
     \<and> (cmd = SET_BAUD_9600 \<longrightarrow> baud_of (uart_divisor (io s')) = 9600)
     \<and> (cmd = SET_BAUD_19200 \<longrightarrow> baud_of (uart_divisor (io s')) = 19200)
     \<and> (cmd \<noteq> SET_BAUD_9600 \<and> cmd \<noteq> SET_BAUD_19200 \<longrightarrow> uart_divisor (io s') = uart_divisor (io s))
     \<and> uart_ier (io s') = (if cmd = ENABLE_INTERRUPTS then 3 else if cmd = DISABLE_INTERRUPTS then 0 else uart_ier (io s))"
proof -
  have ports: "INT_ENABLE_REG = 0x3f9" by (simp add: serial_ports)
  have s': "r = 1" "s' = snd (serial_ioctl H cmd arg s)" using assms(3) by (auto simp: serial_ioctl_def)
  consider "cmd = SET_BAUD_9600" | "cmd = SET_BAUD_19200" | "cmd = SET_EVEN_PARITY" | "cmd = SET_ODD_PARITY"
    | "cmd = SET_NO_PARITY" | "cmd = SET_STOP_BITS_AS_1" | "cmd = SET_CHAR_LEN_AS_8" | "cmd = ENABLE_INTERRUPTS"
    | "cmd = DISABLE_INTERRUPTS" | "cmd \<noteq> SET_BAUD_9600" "cmd \<noteq> SET_BAUD_19200" "cmd \<noteq> SET_EVEN_PARITY"
      "cmd \<noteq> SET_ODD_PARITY" "cmd \<noteq> SET_NO_PARITY" "cmd \<noteq> SET_STOP_BITS_AS_1" "cmd \<noteq> SET_CHAR_LEN_AS_8"
      "cmd \<noteq> ENABLE_INTERRUPTS" "cmd \<noteq> DISABLE_INTERRUPTS"
    by argo
  then show ?thesis
    using s' assms(2) set_baud_uart [OF assms(1)] modify_lcr_uart [OF assms(1)]
    by cases (simp_all add: serial_ioctl_def lcr_after_def baud_of_def ports split: prod.split)
qed

definition plain_uart :: hw where
  "plain_uart tr p = (if p = 0x3fb then uart_lcr tr else if p = 0x3fa then 0x04 else 0x41)"

lemma plain_uart_law: "uart_law plain_uart"
  by (simp add: uart_law_def plain_uart_def)

definition fresh_serial :: serial_state where
  "fresh_serial = \<lparr>ktr = [], io = [], rbuff = 0, tbuff = 107, rflag = 0, tflag = 1\<rparr>"

lemma serial_ioctl_effect_witness:
  "baud_of (uart_divisor (io (snd (serial_ioctl plain_uart 0x6710 0 fresh_serial)))) = 19200"
  using serial_ioctl_effect [OF plain_uart_law, of fresh_serial "0x6710" 0 1 "snd (serial_ioctl plain_uart 0x6710 0 fresh_serial)"]
  by (simp add: fresh_serial_def serial_ioctl_def)

text \<open>
  The parity commands are not independent: asked for odd parity after even parity the
  chip stays on even parity, because SET_ODD_PARITY only sets bits.  After \<open>NAME_open\<close> the
  line has odd parity, 8 data bits, 1 stop bit and 9600 baud with both interrupts enabled,
  whatever was set before, although the driver's message says even parity.
\<close>

theorem serial_parity:
  assumes "uart_law H"
  shows "parity_of (uart_lcr (io (snd (serial_ioctl H SET_ODD_PARITY b (snd (serial_ioctl H SET_EVEN_PARITY a s)))))) = EvenParity
     \<and> parity_of (uart_lcr (io (snd (serial_open s)))) = OddParity
     \<and> uart_lcr (io (snd (serial_open s))) AND 0x07 = 0x03
     \<and> baud_of (uart_divisor (io (snd (serial_open s)))) = 9600 \<and> uart_ier (io (snd (serial_open s))) = 3"
proof -
  have "uart_lcr (io (snd (serial_ioctl H SET_ODD_PARITY b (snd (serial_ioctl H SET_EVEN_PARITY a s)))))
      = (uart_lcr (io s) OR 0x18) OR 0x8"
    using modify_lcr_uart(1) [OF assms] by (simp add: serial_ioctl_def)
  moreover have "bit ((x OR 0x18) OR 0x8 :: byte) 3" "bit ((x OR 0x18) OR 0x8 :: byte) 4" for x
    by (simp_all add: bit_simps)
  moreover have "bit (0x80 :: byte) 7" "\<not> bit (0 :: byte) 7" "\<not> bit (0x0b :: byte) 7" "bit (0x0b :: byte) 3" "\<not> bit (0x0b :: byte) 4"
    by (simp_all add: bit_simps)
  ultimately show ?thesis
    by (simp add: parity_of_def serial_open_def serial_ports baud_of_def split: prod.split)
qed

lemma serial_parity_witness:
  "parity_of (uart_lcr (io (snd (serial_ioctl plain_uart SET_ODD_PARITY 0
      (snd (serial_ioctl plain_uart SET_EVEN_PARITY 0 fresh_serial)))))) = EvenParity"
  using serial_parity [OF plain_uart_law] by blast

section \<open>Waiting\<close>

lemma irq_tflag: "tflag s \<noteq> 1 \<Longrightarrow> tflag (snd (irq_handler H s)) \<noteq> 1"
  by (auto simp: irq_handler_def inb_def Let_def)

lemma irq_tflag_kept:
  assumes "drop_bit 1 (H (io s) 0x3fa) AND 0x7 \<noteq> 1 \<or> H (io s) 0x3fa AND 1 \<noteq> 0"
  shows "tflag (snd (irq_handler H s)) = tflag s"
  using assms by (auto simp: irq_handler_def inb_def Let_def serial_ports)

lemma wait_tflag_stuck:
  assumes "\<forall>tr. drop_bit 1 (H tr 0x3fa) AND 0x7 \<noteq> 1 \<or> H tr 0x3fa AND 1 \<noteq> 0" and "tflag s = 1"
  shows "wait_tflag H n s = None"
  using assms(2)
proof (induction n arbitrary: s)
  case 0
  then show ?case by (simp add: wait_tflag.simps)
next
  case (Suc n)
  have "tflag (snd (irq_handler H s)) = 1"
    using irq_tflag_kept [of H s] assms(1) Suc.prems by simp
  then show ?case using Suc.IH Suc.prems by (simp add: wait_tflag.simps [of H "Suc n"])
qed

lemma irqs_tflag: "tflag s \<noteq> 1 \<Longrightarrow> tflag (irqs H n s) \<noteq> 1"
  by (induction n arbitrary: s) (auto dest: irq_tflag)

text \<open>
  A write spins until \<open>tflag\<close> is no longer 1, and the flag starts as 1: while the chip
  reports no transmit interrupt, no number of other interrupts lets it return.  Once the flag
  has been cleared nothing ever sets it, so every later write returns 1 at once, whatever
  interrupts came between, without knowing whether the transmitter is free.
\<close>

theorem serial_write_waits:
  assumes "\<forall>tr. drop_bit 1 (H tr 0x3fa) AND 0x7 \<noteq> 1 \<or> H tr 0x3fa AND 1 \<noteq> 0" and "tflag s = 1"
  shows "serial_write H n ubuf cnt s = None"
  using wait_tflag_stuck [of H s n, OF assms] by (simp add: serial_write_def)

lemma serial_write_waits_witness:
  "serial_write plain_uart 1000 [65] 1 fresh_serial = None"
  by (rule serial_write_waits) (simp_all add: plain_uart_def fresh_serial_def)

text \<open>
  C27. The flag has lost its meaning after the first write: nothing in the driver ever sets it
  to 1 again, so whatever interrupts come in between, every later write puts its byte on the
  transmit port at once and returns 1, whether or not the transmitter is free.
\<close>

theorem serial_write_never_waits_again:
  assumes "serial_write H n ubuf cnt s = Some (r, s1)"
  shows "r = 1 \<and> tflag s1 = 0 \<and> (\<exists>s2. serial_write H 0 (x # ubuf2) cnt2 (irqs H k s1) = Some (1, s2)
     \<and> io s2 = Outb 0x3f8 x # io (irqs H k s1))"
proof -
  have s1: "r = 1" "tflag s1 = 0" using assms by (auto simp: serial_write_def Let_def split: option.splits)
  then have "tflag (irqs H k s1) \<noteq> 1" using irqs_tflag by simp
  with s1 show ?thesis
    by (simp add: serial_write_def wait_tflag.simps [of H 0] Let_def serial_ports)
qed

definition ready_uart :: hw where
  "ready_uart tr p = (if p = 0x3fb then uart_lcr tr else if p = 0x3fa then 0x02 else 0x41)"

lemma serial_write_never_waits_again_witness:
  "\<exists>r s1. serial_write ready_uart 1 [65] 1 fresh_serial = Some (r, s1) \<and> r = 1 \<and> tflag s1 = 0"
proof -
  obtain r s1 where *: "serial_write ready_uart 1 [65] 1 fresh_serial = Some (r, s1)"
    by (simp add: serial_write_def wait_tflag.simps irq_handler_def ready_uart_def inb_def fresh_serial_def
        serial_ports Let_def)
  with serial_write_never_waits_again [OF this] show ?thesis by blast
qed

text \<open>The bytes read from the receive register, latest first.\<close>

fun received :: "ioev list \<Rightarrow> byte list" where
  "received [] = []"
| "received (Inb p v # tr) = (if p = 0x3f8 then v # received tr else received tr)"
| "received (Outb p v # tr) = received tr"

lemma irqs_last: "irqs H (Suc n) s = snd (irq_handler H (irqs H n s))"
  by (induction n arbitrary: s) simp_all

lemma irq_received:
  "\<exists>tr. io (snd (irq_handler H s)) = tr @ io s
     \<and> (case received tr of [] \<Rightarrow> rflag (snd (irq_handler H s)) = rflag s \<and> rbuff (snd (irq_handler H s)) = rbuff s
        | x # xs \<Rightarrow> rflag (snd (irq_handler H s)) = 1 \<and> rbuff (snd (irq_handler H s)) = x)"
  by (auto simp: irq_handler_def inb_def serial_ports Let_def)

lemma received_append: "received (a @ b) = received a @ received b"
  by (induction a rule: received.induct) simp_all

lemma irqs_received:
  assumes "rflag s = 0"
  shows "\<exists>tr. io (irqs H k s) = tr @ io s
     \<and> (case received tr of [] \<Rightarrow> rflag (irqs H k s) = 0
        | x # xs \<Rightarrow> rflag (irqs H k s) = 1 \<and> rbuff (irqs H k s) = x)"
proof (induction k)
  case 0
  then show ?case using assms by simp
next
  case (Suc k)
  then obtain tr where tr: "io (irqs H k s) = tr @ io s"
    "case received tr of [] \<Rightarrow> rflag (irqs H k s) = 0 | x # xs \<Rightarrow> rflag (irqs H k s) = 1 \<and> rbuff (irqs H k s) = x"
    by blast
  obtain tr' where tr': "io (irqs H (Suc k) s) = tr' @ io (irqs H k s)"
    "case received tr' of [] \<Rightarrow> rflag (irqs H (Suc k) s) = rflag (irqs H k s) \<and> rbuff (irqs H (Suc k) s) = rbuff (irqs H k s)
     | x # xs \<Rightarrow> rflag (irqs H (Suc k) s) = 1 \<and> rbuff (irqs H (Suc k) s) = x"
    unfolding irqs_last using irq_received by blast
  have "io (irqs H (Suc k) s) = (tr' @ tr) @ io s" using tr(1) tr'(1) by simp
  moreover have "case received (tr' @ tr) of [] \<Rightarrow> rflag (irqs H (Suc k) s) = 0
     | x # xs \<Rightarrow> rflag (irqs H (Suc k) s) = 1 \<and> rbuff (irqs H (Suc k) s) = x"
    using tr(2) tr'(2) by (auto simp: received_append split: list.splits)
  ultimately show ?case by blast
qed

text \<open>
  C28. Reception keeps one byte: however many bytes the interrupts of a quiet period bring in,
  the next read returns 1 with the latest of them and the earlier ones are lost; it spins if
  there was none.  A second read spins again, even if more bytes came in while the first was
  between the copy and the reset of the flag: these are lost, too.
\<close>

theorem serial_read_latest:
  assumes "rflag s = 0"
  shows "\<exists>tr. io (irqs H k s) = tr @ io s
     \<and> (case received tr of [] \<Rightarrow> serial_read H 0 late room cnt (irqs H k s) = None
        | x # xs \<Rightarrow> \<exists>s2. serial_read H 0 late room cnt (irqs H k s) = Some (1, take room [x], s2)
            \<and> serial_read H 0 late2 room2 cnt2 s2 = None)"
proof -
  obtain tr where "io (irqs H k s) = tr @ io s"
    "case received tr of [] \<Rightarrow> rflag (irqs H k s) = 0 | x # xs \<Rightarrow> rflag (irqs H k s) = 1 \<and> rbuff (irqs H k s) = x"
    using irqs_received [OF assms] by blast
  then show ?thesis
    by (intro exI [where x = tr])
      (simp add: serial_read_def wait_rflag.simps [of H 0] copy_to_user_def split: list.splits)
qed

lemma serial_read_latest_witness:
  "\<exists>tr. io (irqs plain_uart 3 fresh_serial) = tr @ []
     \<and> (case received tr of [] \<Rightarrow> serial_read plain_uart 0 2 1 1 (irqs plain_uart 3 fresh_serial) = None
        | x # xs \<Rightarrow> \<exists>s2. serial_read plain_uart 0 2 1 1 (irqs plain_uart 3 fresh_serial) = Some (1, take 1 [x], s2)
            \<and> serial_read plain_uart 0 2 1 1 s2 = None)"
  using serial_read_latest [of fresh_serial plain_uart 3 2 1 1 2 1 1] by (simp add: fresh_serial_def)

section \<open>What unloading releases\<close>

text \<open>
  Loading the serial driver ignores a refused port region and a refused interrupt: it
  returns 0, and unloading then releases what was never claimed, once for each refusal.  With
  both granted, loading and unloading balance.
\<close>

theorem serial_load_unload:
  assumes "serial_CharDevice_init E s = Inr (0, s')"
    and "PortRegion 0x3f8 8 \<notin># held (ktr s)" and "IrqLine 4 \<notin># held (ktr s)"
  shows "held (ktr (serial_CharDevice_exit s')) = held (ktr s)
     \<and> spurious (ktr (serial_CharDevice_exit s')) = spurious (ktr s)
        + (if PortRegion 0x3f8 8 \<in># held (ktr s') then 0 else 1) + (if IrqLine 4 \<in># held (ktr s') then 0 else 1)"
proof -
  let ?s1 = "s\<lparr>ktr := Acquire (ChrRegion 255 0 1) True # ktr s\<rparr>"
  from assms(1) obtain r s2 b1 b2 where "add_my_cdev E 255 ?s1 = Inr (r, s2)" "0 \<le> r"
    and s': "ktr s' = Acquire (IrqLine 4) b2 # Acquire (PortRegion 0x3f8 8) b1 # ktr s2"
    by (fastforce simp: serial_CharDevice_init_def load_defs bind_res_eq_Inr split: if_splits)
  then have "ktr s' = [Acquire (IrqLine 4) b2, Acquire (PortRegion 0x3f8 8) b1,
      Acquire (CdevReg 255) True, Acquire CdevObj True, Acquire (ChrRegion 255 0 1) True] @ ktr s"
    using add_my_cdev_cases by fastforce
  with assms(2,3) show ?thesis
    by (cases b1; cases b2) (simp_all add: serial_CharDevice_exit_def del_my_cdev_def not_in_iff)
qed

lemma serial_load_unload_witness:
  "\<exists>s'. serial_CharDevice_init easy_kernel fresh_serial = Inr (0, s')
     \<and> held (ktr (serial_CharDevice_exit s')) = {#}"
proof -
  obtain s' where s': "serial_CharDevice_init easy_kernel fresh_serial = Inr (0, s')"
    by (simp add: serial_CharDevice_init_def add_my_cdev_def load_defs easy_kernel_def)
  then show ?thesis using serial_load_unload [OF s'] by (simp add: fresh_serial_def)
qed

end
