(* ===== verification/Video_Ram.thy ===== *)
theory Video_Ram
  imports Simple_Drivers
begin

text \<open>
  The video memory driver \<open>iomemory/video_ram.c\<close>: a character device whose file offset
  is an address in a memory-mapped region.
\<close>

section \<open>State\<close>

text \<open>\<open>VRAM_BASE\<close> and \<open>VRAM_SIZE\<close>; \<open>vmem\<close> is the contents of the mapped region.\<close>

definition VRAM_BASE :: int where "VRAM_BASE = 0xc0000000"
definition VRAM_SIZE :: int where "VRAM_SIZE = 0xfffffff"

record vram_state = mod_state +
  vmem :: "nat \<Rightarrow> byte"
  vram_first :: int

text \<open>Accesses at an offset from \<open>vram\<close>; outside the mapping they fault.\<close>

definition ioread8 :: "int \<Rightarrow> vram_state \<Rightarrow> byte res" where
  "ioread8 a s = (if 0 \<le> a \<and> a < VRAM_SIZE then Inr (vmem s (nat a)) else Inl Overrun)"

definition iowrite8 :: "byte \<Rightarrow> int \<Rightarrow> vram_state \<Rightarrow> vram_state res" where
  "iowrite8 v a s = (if 0 \<le> a \<and> a < VRAM_SIZE then Inr (s\<lparr>vmem := (vmem s)(nat a := v)\<rparr>) else Inl Overrun)"

section \<open>Reading and writing\<close>

text \<open>
  The loop of \<open>my_read\<close> from index \<open>i\<close>, with \<open>n\<close> bytes to go: whether it finished, and the
  bytes that reached the user, who can take \<open>room\<close> of them.
\<close>

fun my_read_loop :: "nat \<Rightarrow> int \<Rightarrow> nat \<Rightarrow> nat \<Rightarrow> vram_state \<Rightarrow> (bool \<times> byte list) res" where
  "my_read_loop room off i 0 s = Inr (True, [])"
| "my_read_loop room off i (Suc n) s = bind_res (ioread8 (off + int i) s) (\<lambda>v.
     case copy_to_user (room - i) [v] of (out, left) \<Rightarrow>
       if left \<noteq> 0 then Inr (False, out)
       else bind_res (my_read_loop room off (Suc i) n s) (\<lambda>(ok, outs). Inr (ok, out @ outs)))"

fun my_write_loop :: "byte list \<Rightarrow> int \<Rightarrow> nat \<Rightarrow> nat \<Rightarrow> vram_state \<Rightarrow> (bool \<times> vram_state) res" where
  "my_write_loop buf off i 0 s = Inr (True, s)"
| "my_write_loop buf off i (Suc n) s = (case copy_from_user (drop i buf) 1 of (v, left) \<Rightarrow>
     if left \<noteq> 0 then Inr (False, s)
     else bind_res (iowrite8 (hd v) (off + int i) s) (my_write_loop buf off (Suc i) n))"

text \<open>The clamp of \<open>len\<close>: \<open>*off + len\<close> is computed and compared without sign, in 64 bits.\<close>

definition vram_clamp :: "int \<Rightarrow> 64 word \<Rightarrow> 64 word" where
  "vram_clamp off len = (if word_of_int VRAM_SIZE < word_of_int off + len then word_of_int (VRAM_SIZE - off) else len)"

text \<open>The returned count, what reaches the user, and the new offset.\<close>

definition my_read :: "nat \<Rightarrow> 64 word \<Rightarrow> int \<Rightarrow> vram_state \<Rightarrow> (int \<times> byte list \<times> int) res" where
  "my_read room len off s =
     (if VRAM_SIZE \<le> off then Inr (0, [], off)
      else (let n = vram_clamp off len in
        bind_res (my_read_loop room off 0 (unat n) s) (\<lambda>(ok, out).
          Inr (if ok then (uint n, out, off + uint n) else (- EFAULT, out, off)))))"

definition my_write :: "byte list \<Rightarrow> 64 word \<Rightarrow> int \<Rightarrow> vram_state \<Rightarrow> (int \<times> int \<times> vram_state) res" where
  "my_write buf len off s =
     (if VRAM_SIZE \<le> off then Inr (0, off, s)
      else (let n = vram_clamp off len in
        bind_res (my_write_loop buf off 0 (unat n) s) (\<lambda>(ok, s').
          Inr (if ok then (uint n, off + uint n, s') else (- EFAULT, off, s')))))"

definition my_open :: "vram_state \<Rightarrow> int \<times> vram_state" where "my_open s = (0, s)"
definition my_close :: "vram_state \<Rightarrow> int \<times> vram_state" where "my_close s = (0, s)"

section \<open>Loading and unloading\<close>

text \<open>The tests are those of the code: against NULL, and against -1.\<close>

definition vram_init :: "kenv \<Rightarrow> vram_state \<Rightarrow> int \<times> vram_state" where
  "vram_init E s =
     (case acq_ptr E (IoMapping VRAM_BASE VRAM_SIZE) s of (v, s0) \<Rightarrow>
      if v = NullPtr then (-1, s0) else
      (let major = kr_major E (ktr s0) in
       case acq_int E (ChrRegion major 0 1) s0 of (c, s1) \<Rightarrow>
       if c < 0 then (-1, s1) else
       (case acq_ptr E DevClass (s1\<lparr>vram_first := major\<rparr>) of (cl, s2) \<Rightarrow>
        if cl = NullPtr then (-1, rel (ChrRegion major 0 1) s2) else
        (case acq_ptr E (DevNode major) s2 of (dv, s3) \<Rightarrow>
         if dv = NullPtr then (-1, rel (ChrRegion major 0 1) (rel DevClass s3)) else
         (case acq_int E (CdevReg major) s3 of (a, s4) \<Rightarrow>
          if a = -1 then (-1, rel (ChrRegion major 0 1) (rel DevClass (rel (DevNode major) s4)))
          else (0, s4))))))"

definition vram_exit :: "vram_state \<Rightarrow> vram_state" where
  "vram_exit s = rel (IoMapping VRAM_BASE VRAM_SIZE) (rel (ChrRegion (vram_first s) 0 1) (rel DevClass
     (rel (DevNode (vram_first s)) (rel (CdevReg (vram_first s)) s))))"

section \<open>What the loops do\<close>

lemma my_read_loop_all:
  "0 \<le> off \<Longrightarrow> off + int i + int n \<le> VRAM_SIZE \<Longrightarrow> i \<le> room \<Longrightarrow>
   my_read_loop room off i n s = Inr (n \<le> room - i, map (\<lambda>k. vmem s (nat off + k)) [i ..< i + min n (room - i)])"
proof (induction n arbitrary: i)
  case 0
  then show ?case by simp
next
  case (Suc n)
  have rd: "ioread8 (off + int i) s = Inr (vmem s (nat off + i))"
    using Suc.prems by (simp add: ioread8_def nat_add_distrib)
  show ?case
  proof (cases "i < room")
    case True
    then have "Suc i \<le> room" "off + int (Suc i) + int n \<le> VRAM_SIZE" using Suc.prems by simp_all
    note IH = Suc.IH [OF Suc.prems(1) this(2,1)]
    have m: "[i ..< i + min (Suc n) (room - i)] = i # [Suc i ..< Suc i + min n (room - Suc i)]"
      using True by (subst upt_rec) (auto simp: min_def simp del: upt_Suc)
    have le: "(Suc n \<le> room - i) = (n \<le> room - Suc i)" using True by auto
    show ?thesis using True rd IH unfolding m le by (simp add: copy_to_user_def del: upt_Suc)
  next
    case False
    then show ?thesis using rd Suc.prems(3) by (simp add: copy_to_user_def)
  qed
qed

definition vmem_write :: "nat \<Rightarrow> byte list \<Rightarrow> (nat \<Rightarrow> byte) \<Rightarrow> nat \<Rightarrow> byte" where
  "vmem_write off xs m = (\<lambda>a. if off \<le> a \<and> a < off + length xs then xs ! (a - off) else m a)"

lemma vmem_write_Nil [simp]: "vmem_write off [] m = m"
  by (rule ext) (auto simp: vmem_write_def)

lemma my_write_loop_all:
  "0 \<le> off \<Longrightarrow> off + int i + int n \<le> VRAM_SIZE \<Longrightarrow>
   my_write_loop buf off i n s = Inr (n \<le> length buf - i,
     s\<lparr>vmem := vmem_write (nat off + i) (take n (drop i buf)) (vmem s)\<rparr>)"
proof (induction n arbitrary: i s)
  case 0
  then show ?case by simp
next
  case (Suc n)
  show ?case
  proof (cases "i < length buf")
    case True
    let ?s1 = "s\<lparr>vmem := (vmem s)(nat off + i := buf ! i)\<rparr>"
    have wr: "iowrite8 (buf ! i) (off + int i) s = Inr ?s1"
      using Suc.prems by (simp add: iowrite8_def nat_add_distrib)
    have hd: "copy_from_user (drop i buf) 1 = ([buf ! i], 0)"
      using True by (simp add: take_Suc hd_drop_conv_nth)
    have mem: "vmem_write (nat off + Suc i) (take n (drop (Suc i) buf)) ((vmem s)(nat off + i := buf ! i))
        = vmem_write (nat off + i) (take (Suc n) (drop i buf)) (vmem s)"
      using True by (auto simp: vmem_write_def fun_eq_iff nth_Cons' Cons_nth_drop_Suc [symmetric])
    have "off + int (Suc i) + int n \<le> VRAM_SIZE" using Suc.prems by simp
    from Suc.IH [OF Suc.prems(1) this, of ?s1] show ?thesis
      using True wr hd mem [unfolded fun_upd_def] by (auto simp: fun_upd_def simp del: copy_from_user_ok)
  next
    case False
    then show ?thesis by (simp add: copy_from_user_def)
  qed
qed

text \<open>The kernel never passes a length above \<open>MAX_RW_COUNT\<close>, so the sum does not wrap.\<close>

lemma uint_of_small: "0 \<le> k \<Longrightarrow> k < 2 ^ 64 \<Longrightarrow> uint (word_of_int k :: 64 word) = k"
  by (simp add: uint_word_of_int)

lemma vram_clamp_min:
  assumes "0 \<le> off" and "off < VRAM_SIZE" and "uint len \<le> 0x7ffff000"
  shows "uint (vram_clamp off len) = min (uint len) (VRAM_SIZE - off)"
proof -
  have sizes: "uint (word_of_int VRAM_SIZE :: 64 word) = VRAM_SIZE"
    "uint (word_of_int (VRAM_SIZE - off) :: 64 word) = VRAM_SIZE - off" "uint (word_of_int off :: 64 word) = off"
    by (rule uint_of_small; use assms in \<open>simp add: VRAM_SIZE_def\<close>)+
  then have "uint (word_of_int off + len) = off + uint len"
    using assms by (simp add: uint_word_ariths(1) VRAM_SIZE_def)
  then show ?thesis
    using sizes by (simp add: vram_clamp_def word_less_def min_def)
qed

lemma vram_clamp_unat:
  assumes "0 \<le> off" and "off < VRAM_SIZE" and "uint len \<le> 0x7ffff000"
  shows "unat (vram_clamp off len) = min (unat len) (nat (VRAM_SIZE - off))"
proof -
  have "nat (uint (vram_clamp off len)) = nat (min (uint len) (VRAM_SIZE - off))"
    using vram_clamp_min [OF assms] by simp
  then show ?thesis using assms(2) by (simp add: min_def le_nat_iff split: if_splits)
qed

text \<open>
  C25. The video memory is read and written through a window that ends at \<open>VRAM_SIZE\<close>: for every
  offset and every length the kernel passes no access leaves the mapping; the count is cut at
  the end of the memory; a write changes exactly the addressed bytes and advances the offset by
  its count, and reading at the old offset gives the bytes back; at the end both return 0.  A
  buffer that is too short gives -EFAULT with the offset unchanged, although the bytes up to the
  fault have been written.
\<close>

theorem vram_write_read:
  assumes "0 \<le> off" and "uint len \<le> 0x7ffff000" and "n = min (unat len) (nat (VRAM_SIZE - off))"
    and "s1 = s\<lparr>vmem := vmem_write (nat off) (take n buf) (vmem s)\<rparr>"
  shows "my_write buf len off s = Inr (if n \<le> length buf then (int n, off + int n, s1) else (- EFAULT, off, s1))
     \<and> my_read room len off s = Inr (if n \<le> room then (int n, map (\<lambda>k. vmem s (nat off + k)) [0..<n], off + int n)
          else (- EFAULT, map (\<lambda>k. vmem s (nat off + k)) [0..<room], off))
     \<and> (n \<le> length buf \<longrightarrow> n \<le> room \<longrightarrow> my_read room len off s1 = Inr (int n, take n buf, off + int n))"
proof (cases "off < VRAM_SIZE")
  case False
  then show ?thesis using assms by (simp add: my_write_def my_read_def)
next
  case True
  let ?n = "vram_clamp off len"
  have n: "unat ?n = n" using vram_clamp_unat [OF assms(1) True assms(2)] assms(3) by simp
  then have n: "unat ?n = n" "uint ?n = int n" by (simp_all flip: n)
  have "off + int n \<le> VRAM_SIZE" using assms(3) True by simp
  then have le: "off + int 0 + int n \<le> VRAM_SIZE" by simp
  note w = my_write_loop_all [OF assms(1) le, of buf s] and r = my_read_loop_all [OF assms(1) le]
  have rd: "my_read room len off t = Inr (if n \<le> room then (int n, map (\<lambda>k. vmem t (nat off + k)) [0..<n], off + int n)
          else (- EFAULT, map (\<lambda>k. vmem t (nat off + k)) [0..<room], off))" for t
    using True r [of room t] n by (simp add: my_read_def min_def Let_def)
  have "map (\<lambda>k. vmem s1 (nat off + k)) [0..<n] = take n buf" if "n \<le> length buf"
    using that assms(4) by (auto intro!: nth_equalityI simp: vmem_write_def)
  then show ?thesis
    using True w n rd [of s] rd [of s1] assms(4) by (simp add: my_write_def Let_def)
qed

definition blank_vram :: vram_state where
  "blank_vram = \<lparr>ktr = [], vmem = (\<lambda>_. 0), vram_first = 0\<rparr>"

lemma vram_write_read_witness:
  "my_write [7, 8, 9] 3 (VRAM_SIZE - 2) blank_vram
     = Inr (2, VRAM_SIZE, blank_vram\<lparr>vmem := vmem_write (nat (VRAM_SIZE - 2)) [7, 8] (\<lambda>_. 0)\<rparr>)"
proof -
  have "0 \<le> VRAM_SIZE - 2" "uint (3 :: 64 word) \<le> 0x7ffff000" "2 = min (unat (3 :: 64 word)) (nat (VRAM_SIZE - (VRAM_SIZE - 2)))"
    by (simp_all add: VRAM_SIZE_def)
  from vram_write_read [OF this refl, of "[7, 8, 9]" blank_vram 0] show ?thesis
    by (simp add: blank_vram_def)
qed

text \<open>A kernel that grants the mapping and the device number and refuses the rest.\<close>

definition late_refusal :: "kenv \<Rightarrow> bool" where
  "late_refusal E \<longleftrightarrow> (\<forall>tr maj. 0 \<le> kr_int E tr (ChrRegion maj 0 1) \<and> kr_int E tr (CdevReg maj) = - ENOMEM
     \<and> kr_ptr E tr DevClass = ErrPtr \<and> kr_ptr E tr (DevNode maj) = ErrPtr)"

text \<open>
  Loading the video memory driver: after success, or after a failure other than that of the
  mapping itself, the mapping of the video memory is still held (a failing load never undoes
  it); and the load returns 0 although the class, its device node and the cdev were all refused
  with error codes, because it only looks for NULL and for -1.
\<close>

theorem vram_init_leaks:
  assumes "vram_init E s = (r, s')" and "kr_ptr E (ktr s) (IoMapping VRAM_BASE VRAM_SIZE) = ValidPtr"
  shows "count (held (ktr s')) (IoMapping VRAM_BASE VRAM_SIZE) = Suc (count (held (ktr s)) (IoMapping VRAM_BASE VRAM_SIZE))
     \<and> r \<in> {0, -1}
     \<and> (late_refusal E \<longrightarrow>
        r = 0 \<and> (\<exists>maj. held (ktr s') = held (ktr s) + {#IoMapping VRAM_BASE VRAM_SIZE, ChrRegion maj 0 1#}))"
proof -
  have "count (held (ktr s')) (IoMapping VRAM_BASE VRAM_SIZE) = Suc (count (held (ktr s)) (IoMapping VRAM_BASE VRAM_SIZE))
     \<and> r \<in> {0, -1}"
    using assms by (auto simp: vram_init_def load_defs split: if_splits)
  moreover have "r = 0 \<and> held (ktr s') = held (ktr s) + {#IoMapping VRAM_BASE VRAM_SIZE,
       ChrRegion (kr_major E (Acquire (IoMapping VRAM_BASE VRAM_SIZE) True # ktr s)) 0 1#}" if "late_refusal E"
  proof -
    have "0 \<le> kr_int E tr (ChrRegion maj 0 1)" "\<not> kr_int E tr (ChrRegion maj 0 1) < 0" "kr_int E tr (CdevReg maj) = - ENOMEM"
      "kr_ptr E tr DevClass = ErrPtr" "kr_ptr E tr (DevNode maj) = ErrPtr" for tr maj
      using that by (simp_all add: late_refusal_def flip: not_le)
    then show ?thesis using assms by (auto simp: vram_init_def load_defs)
  qed
  ultimately show ?thesis by blast
qed

definition refusing_kernel :: kenv where
  "refusing_kernel = \<lparr>kr_int = (\<lambda>tr r. case r of CdevReg _ \<Rightarrow> - ENOMEM | _ \<Rightarrow> 0),
     kr_ptr = (\<lambda>tr r. case r of IoMapping _ _ \<Rightarrow> ValidPtr | _ \<Rightarrow> ErrPtr), kr_major = (\<lambda>tr. 250), kr_check = (\<lambda>tr r. 0)\<rparr>"

lemma vram_init_leaks_witness:
  "fst (vram_init refusing_kernel blank_vram) = 0"
  using vram_init_leaks [of refusing_kernel blank_vram "fst (vram_init refusing_kernel blank_vram)"
      "snd (vram_init refusing_kernel blank_vram)"]
  by (simp add: refusing_kernel_def late_refusal_def)

end
