(* ===== verification/Sleepy.thy ===== *)
theory Sleepy
  imports Simple_Drivers
begin

text \<open>
  The drivers that put their readers to sleep on a wait queue until a write comes:
  \<open>blocking_io/slpy/slpy.c\<close>, \<open>blocking_io/slepy_proc/slpy-proc-ctrl.c\<close> with its proc entry,
  and \<open>2_Sleepy_WQ/slpy_wq.c\<close>, whose write also starts deferred work that sets up a timer.

  A reader is a process inside the read method; one step takes it to the next point where the
  scheduler can let another process run.  Setting the condition and waking the sleepers are
  two steps of a writer.
\<close>

section \<open>Processes on a wait queue\<close>

text \<open>
  \<open>Called\<close> has entered the read method, \<open>Waiting\<close> is about to check the condition of
  \<open>wait_event\<close>, \<open>Asleep\<close> sleeps on the queue, \<open>Passed\<close> has left \<open>wait_event\<close>.
\<close>

datatype rd = Idle | Called | Waiting | Asleep | Passed | Returned int

definition woken :: "rd \<Rightarrow> rd" where
  "woken r = (if r = Asleep then Waiting else r)"

definition served :: "rd \<Rightarrow> bool" where
  "served r \<longleftrightarrow> r = Passed \<or> r = Returned 0"

text \<open>Readers by process number, writers between their two steps, writes so far, the driver.\<close>

record 's wq_sys =
  rdrs :: "nat \<Rightarrow> rd"
  to_wake :: nat
  writes :: nat
  drv :: 's

definition wq_start :: "'s \<Rightarrow> 's wq_sys" where
  "wq_start s = \<lparr>rdrs = \<lambda>_. Idle, to_wake = 0, writes = 0, drv = s\<rparr>"

inductive wq_reach ::
  "(bool \<Rightarrow> rd \<Rightarrow> 's \<Rightarrow> rd \<times> 's) \<Rightarrow> ('s \<Rightarrow> 's) \<Rightarrow> ('s \<Rightarrow> 's \<Rightarrow> bool) \<Rightarrow> 's \<Rightarrow> 's wq_sys \<Rightarrow> bool"
  for read_step write_set other s0 where
  start: "wq_reach read_step write_set other s0 (wq_start s0)"
| call: "wq_reach read_step write_set other s0 w \<Longrightarrow> rdrs w p = Idle \<Longrightarrow>
    wq_reach read_step write_set other s0 (w\<lparr>rdrs := (rdrs w)(p := Called)\<rparr>)"
| step: "wq_reach read_step write_set other s0 w \<Longrightarrow> rdrs w p \<in> {Called, Waiting, Asleep, Passed} \<Longrightarrow>
    read_step sig (rdrs w p) (drv w) = (r, s') \<Longrightarrow>
    wq_reach read_step write_set other s0 (w\<lparr>rdrs := (rdrs w)(p := r), drv := s'\<rparr>)"
| set: "wq_reach read_step write_set other s0 w \<Longrightarrow>
    wq_reach read_step write_set other s0 (w\<lparr>to_wake := Suc (to_wake w), writes := Suc (writes w), drv := write_set (drv w)\<rparr>)"
| wake: "wq_reach read_step write_set other s0 w \<Longrightarrow> to_wake w = Suc k \<Longrightarrow>
    wq_reach read_step write_set other s0 (w\<lparr>to_wake := k, rdrs := \<lambda>p. woken (rdrs w p)\<rparr>)"
| other: "wq_reach read_step write_set other s0 w \<Longrightarrow> other (drv w) s' \<Longrightarrow>
    wq_reach read_step write_set other s0 (w\<lparr>drv := s'\<rparr>)"

text \<open>One reader running alone, without a signal, for \<open>n\<close> steps.\<close>

fun run_reader :: "(bool \<Rightarrow> rd \<Rightarrow> 's \<Rightarrow> rd \<times> 's) \<Rightarrow> nat \<Rightarrow> rd \<Rightarrow> 's \<Rightarrow> rd \<times> 's" where
  "run_reader f 0 r s = (r, s)"
| "run_reader f (Suc n) r s = (case f False r s of (r', s') \<Rightarrow> run_reader f n r' s')"

section \<open>What a driver owes its sleepers\<close>

locale sleepers =
  fixes flag :: "'s \<Rightarrow> bool"
    and inv :: "'s \<Rightarrow> bool"
    and read_step :: "bool \<Rightarrow> rd \<Rightarrow> 's \<Rightarrow> rd \<times> 's"
    and write_set :: "'s \<Rightarrow> 's"
    and other :: "'s \<Rightarrow> 's \<Rightarrow> bool"
  assumes step_inv: "inv s \<Longrightarrow> read_step sig r s = (r', s') \<Longrightarrow> inv s'"
    and set_inv: "inv s \<Longrightarrow> inv (write_set s)"
    and other_inv: "inv s \<Longrightarrow> other s s' \<Longrightarrow> inv s'"
    and step_sleeps: "inv s \<Longrightarrow> read_step sig r s = (Asleep, s') \<Longrightarrow> r \<noteq> Asleep \<Longrightarrow> \<not> flag s"
    and step_flag: "inv s \<Longrightarrow> read_step sig r s = (r', s') \<Longrightarrow> flag s' \<Longrightarrow> flag s"
    and step_serves: "inv s \<Longrightarrow> read_step sig r s = (r', s') \<Longrightarrow> served r' \<Longrightarrow> \<not> served r \<Longrightarrow> flag s"
    and set_flag: "flag (write_set s)"
    and other_flag: "inv s \<Longrightarrow> other s s' \<Longrightarrow> flag s' \<Longrightarrow> flag s"
    and step_ends: "inv s \<Longrightarrow> flag s \<Longrightarrow> r \<in> {Called, Waiting, Passed} \<Longrightarrow>
      fst (run_reader read_step 3 r s) = Returned 0"
begin

text \<open>
  No wakeup is lost: while the condition holds and no writer has still to wake the queue,
  nobody sleeps.  And nobody is served before the first write.
\<close>

lemma reach_inv: "wq_reach read_step write_set other s0 w \<Longrightarrow> inv s0 \<Longrightarrow> inv (drv w)"
  by (induction rule: wq_reach.induct) (simp_all add: wq_start_def, (blast intro: step_inv set_inv other_inv)+)

lemma no_lost_wakeup:
  assumes "wq_reach read_step write_set other s0 w" and "inv s0 \<and> \<not> flag s0"
  shows "(flag (drv w) \<longrightarrow> to_wake w = 0 \<longrightarrow> rdrs w p \<noteq> Asleep)
     \<and> (writes w = 0 \<longrightarrow> \<not> flag (drv w) \<and> \<not> served (rdrs w p))"
  using assms
proof (induction arbitrary: p rule: wq_reach.induct)
  case start
  then show ?case by (simp add: wq_start_def served_def)
next
  case (call w q)
  then show ?case by (simp add: served_def)
next
  case (step w q sig r s')
  have f: "rdrs w q \<noteq> Asleep \<longrightarrow> r = Asleep \<longrightarrow> \<not> flag (drv w)" "flag s' \<longrightarrow> flag (drv w)"
    "served r \<longrightarrow> \<not> served (rdrs w q) \<longrightarrow> flag (drv w)"
    using step_sleeps step_flag step_serves step.hyps(3) reach_inv [OF step.hyps(1)] step.prems by blast+
  note IH = step.IH [OF step.prems, of p] step.IH [OF step.prems, of q]
  show ?case
  proof (cases "p = q")
    case True
    then show ?thesis using f IH(2) by simp argo
  next
    case False
    then show ?thesis using f(2) IH(1) by simp argo
  qed
next
  case (set w)
  then show ?case by simp
next
  case (wake w k)
  then show ?case by (auto simp: woken_def served_def)
next
  case (other w s')
  then show ?case using other_flag reach_inv by auto
qed

text \<open>So after a write and its wakeup every reader inside the method ends within three steps.\<close>

lemma reader_ends:
  assumes "wq_reach read_step write_set other s0 w" and "inv s0 \<and> \<not> flag s0" and "flag (drv w)" and "to_wake w = 0"
    and "rdrs w p \<in> {Called, Waiting, Asleep, Passed}"
  shows "fst (run_reader read_step 3 (rdrs w p) (drv w)) = Returned 0"
proof -
  have "rdrs w p \<noteq> Asleep" using no_lost_wakeup [OF assms(1,2), of p] assms(3,4) by simp
  with assms(5) have "rdrs w p \<in> {Called, Waiting, Passed}" by simp
  then show ?thesis using step_ends reach_inv [OF assms(1)] assms(2,3) by blast
qed

end

section \<open>Requests for a major number\<close>

text \<open>\<open>register_chrdev\<close>: with major 0 it answers with the major it has chosen, else with 0.\<close>

definition register_chrdev :: "kenv \<Rightarrow> int \<Rightarrow> 'a mod_state_scheme \<Rightarrow> int \<times> 'a mod_state_scheme" where
  "register_chrdev E m s = (if m = 0 then acq_major E s
     else (case acq_int E (ChrMajor m) s of (c, s1) \<Rightarrow> (min c 0, s1)))"

section \<open>slpy.c\<close>

record slpy_state = mod_state +
  data_present :: int

definition slpy_init :: "kenv \<Rightarrow> slpy_state \<Rightarrow> (int \<times> slpy_state) res" where
  "slpy_init E s = (case register_chrdev E 60 s of (result, s1) \<Rightarrow> Inr (if result < 0 then - EPERM else 0, s1))"

definition slpy_exit :: "slpy_state \<Rightarrow> slpy_state" where
  "slpy_exit s = rel (ChrMajor 60) s"

text \<open>\<open>wait_event\<close> does not listen to signals.\<close>

fun slpy_read_step :: "bool \<Rightarrow> rd \<Rightarrow> slpy_state \<Rightarrow> rd \<times> slpy_state" where
  "slpy_read_step sig Called s = (if data_present s = 0 then Waiting else Passed, s)"
| "slpy_read_step sig Waiting s = (if data_present s = 1 then Passed else Asleep, s)"
| "slpy_read_step sig Passed s = (Returned 0, s)"
| "slpy_read_step sig r s = (r, s)"

definition slpy_write_set :: "slpy_state \<Rightarrow> slpy_state" where
  "slpy_write_set s = s\<lparr>data_present := 1\<rparr>"

text \<open>The whole write on a system of sleepers: set, wake, and return the length.\<close>

definition slpy_write :: "nat \<Rightarrow> slpy_state wq_sys \<Rightarrow> int \<times> slpy_state wq_sys" where
  "slpy_write len w = (int len, w\<lparr>writes := Suc (writes w), drv := slpy_write_set (drv w), rdrs := \<lambda>p. woken (rdrs w p)\<rparr>)"

definition slpy_open :: "slpy_state \<Rightarrow> int \<times> slpy_state" where "slpy_open s = (0, s)"
definition slpy_close :: "slpy_state \<Rightarrow> int \<times> slpy_state" where "slpy_close s = (0, s)"

section \<open>slpy-proc-ctrl.c\<close>

record sleepy_state = slpy_state +
  sleepy_major :: int
  wake_one :: int

fun sleepy_read_step :: "bool \<Rightarrow> rd \<Rightarrow> sleepy_state \<Rightarrow> rd \<times> sleepy_state" where
  "sleepy_read_step sig Called s = (Waiting, s)"
| "sleepy_read_step sig Waiting s = (if data_present s = 1 then (Passed, s)
     else if sig then (Returned (- ERESTARTSYS), s) else (Asleep, s))"
| "sleepy_read_step sig Asleep s = (if sig then (Waiting, s) else (Asleep, s))"
| "sleepy_read_step sig Passed s = (Returned 0, if wake_one s \<noteq> 0 then s\<lparr>data_present := 0\<rparr> else s)"
| "sleepy_read_step sig r s = (r, s)"

definition sleepy_write_set :: "sleepy_state \<Rightarrow> sleepy_state" where
  "sleepy_write_set s = s\<lparr>data_present := 1\<rparr>"

definition sleepy_write :: "nat \<Rightarrow> sleepy_state wq_sys \<Rightarrow> int \<times> sleepy_state wq_sys" where
  "sleepy_write cnt w = (int cnt, w\<lparr>writes := Suc (writes w), drv := sleepy_write_set (drv w), rdrs := \<lambda>p. woken (rdrs w p)\<rparr>)"

text \<open>The proc entry.  \<open>count\<close> is at most \<open>MAXLEN\<close> when it is copied.\<close>

definition MAXLEN :: nat where "MAXLEN = 1"

definition write_wake_one :: "byte list \<Rightarrow> nat \<Rightarrow> sleepy_state \<Rightarrow> int \<times> sleepy_state" where
  "write_wake_one buffer cnt s =
     (if cnt > MAXLEN then (- EINVAL, s)
      else (case copy_from_user buffer cnt of (kbuf, left) \<Rightarrow>
        if left \<noteq> 0 then (- EFAULT, s)
        else (let c = hd (kbuf @ [0]) in
          if c = 0x30 then (int cnt, s\<lparr>wake_one := 0\<rparr>)
          else if c = 0x31 then (int cnt, s\<lparr>wake_one := 1\<rparr>)
          else if c = 0x32 then (int cnt, s\<lparr>data_present := 0\<rparr>)
          else (- EINVAL, s))))"

text \<open>\<open>%d\<close> of \<open>sprintf\<close>.\<close>

fun nat_digits :: "nat \<Rightarrow> byte list" where
  "nat_digits n = (if n < 10 then [of_nat (48 + n)] else nat_digits (n div 10) @ [of_nat (48 + n mod 10)])"

definition int_digits :: "int \<Rightarrow> byte list" where
  "int_digits i = (if i < 0 then 45 # nat_digits (nat (- i)) else nat_digits (nat i))"

declare nat_digits.simps [simp del]

definition stat_string :: "sleepy_state \<Rightarrow> byte list" where
  "stat_string s = map of_char ''data_present='' @ int_digits (data_present s) @ map of_char '' wake_one=''
     @ int_digits (wake_one s) @ [10, 0]"

text \<open>\<open>stk\<close> is what the 30 bytes of \<open>memory_buffer\<close> hold before.\<close>

definition read_stat :: "byte list \<Rightarrow> nat \<Rightarrow> nat \<Rightarrow> nat \<Rightarrow> sleepy_state \<Rightarrow> (int \<times> byte list \<times> nat) res" where
  "read_stat stk room cnt off s =
     bind_res (mem_store stk 0 (stat_string s)) (\<lambda>memory_buffer.
       (let out = fst (copy_to_user room (take 27 memory_buffer))
        in Inr (if off = 0 then (27, out, 27) else (0, out, off))))"

text \<open>\<open>proc_create\<close> answers NULL exactly when it fails: a negative answer.\<close>

definition sleepy_init_module :: "kenv \<Rightarrow> sleepy_state \<Rightarrow> (int \<times> sleepy_state) res" where
  "sleepy_init_module E s =
     (case register_chrdev E (sleepy_major s) s of (result, s1) \<Rightarrow>
       if result < 0 then Inr (result, s1)
       else (let s2 = (if sleepy_major s1 = 0 then s1\<lparr>sleepy_major := result\<rparr> else s1) in
         (case acq_int E ProcEntry s2 of (res, s3) \<Rightarrow>
           if res < 0 then Inr (- ENOMEM, rel (ChrMajor (sleepy_major s3)) s3) else Inr (0, s3))))"

definition sleepy_cleanup_module :: "sleepy_state \<Rightarrow> sleepy_state" where
  "sleepy_cleanup_module s = rel (ChrMajor (sleepy_major s)) (rel ProcEntry s)"

section \<open>slpy_wq.c\<close>

text \<open>\<open>work\<close> and \<open>timr\<close>: queued and pending; \<open>tcount\<close> and \<open>tdata\<close>: \<open>count\<close> and \<open>timr.data\<close>.\<close>

record slpwq_state = slpy_state +
  wq_major :: int
  work :: bool
  timr :: bool
  tcount :: "32 word"
  tdata :: "64 word"

text \<open>\<open>add_timer\<close> is a BUG on a timer that is already pending.\<close>

definition add_timer :: "slpwq_state \<Rightarrow> slpwq_state res" where
  "add_timer s = (if timr s then Inl KernelBug else Inr (s\<lparr>timr := True\<rparr>))"

definition whee :: "slpwq_state \<Rightarrow> slpwq_state res" where
  "whee s = (let c = tcount s + 1 in add_timer (s\<lparr>tcount := c, tdata := scast c\<rparr>))"

definition wq_func :: "slpwq_state \<Rightarrow> slpwq_state res" where
  "wq_func s = (let c = tcount s + 1 in add_timer (s\<lparr>tcount := c, tdata := scast c\<rparr>))"

fun slpwq_read_step :: "bool \<Rightarrow> rd \<Rightarrow> slpwq_state \<Rightarrow> rd \<times> slpwq_state" where
  "slpwq_read_step sig Called s = (Waiting, s)"
| "slpwq_read_step sig Waiting s = (if data_present s = 1 then (Passed, s)
     else if sig then (Returned (- ERESTARTSYS), s) else (Asleep, s))"
| "slpwq_read_step sig Asleep s = (if sig then (Waiting, s) else (Asleep, s))"
| "slpwq_read_step sig Passed s = (Returned 0, s)"
| "slpwq_read_step sig r s = (r, s)"

text \<open>\<open>schedule_work\<close> does nothing when the work is already queued.\<close>

definition slpwq_write_set :: "slpwq_state \<Rightarrow> slpwq_state" where
  "slpwq_write_set s = s\<lparr>work := True, data_present := 1\<rparr>"

definition slpwq_write :: "nat \<Rightarrow> slpwq_state wq_sys \<Rightarrow> int \<times> slpwq_state wq_sys" where
  "slpwq_write cnt w = (int cnt, w\<lparr>writes := Suc (writes w), drv := slpwq_write_set (drv w), rdrs := \<lambda>p. woken (rdrs w p)\<rparr>)"

definition slpwq_init_module :: "kenv \<Rightarrow> slpwq_state \<Rightarrow> (int \<times> slpwq_state) res" where
  "slpwq_init_module E s =
     (case register_chrdev E (wq_major s) s of (result, s1) \<Rightarrow>
       if result < 0 then Inr (result, s1)
       else (let s2 = (if wq_major s1 = 0 then s1\<lparr>wq_major := result\<rparr> else s1)
             in Inr (0, s2\<lparr>work := False, timr := False\<rparr>)))"

text \<open>\<open>del_timer_sync\<close>, then \<open>flush_scheduled_work\<close>, which runs work that is queued.\<close>

definition slpwq_cleanup_module :: "slpwq_state \<Rightarrow> slpwq_state res" where
  "slpwq_cleanup_module s =
     (let s1 = s\<lparr>timr := False\<rparr> in
      bind_res (if work s1 then wq_func (s1\<lparr>work := False\<rparr>) else Inr s1)
        (\<lambda>s2. Inr (rel (ChrMajor (wq_major s2)) s2)))"

section \<open>The drivers as instances\<close>

text \<open>What can happen to the flag besides: nothing, the proc entry, the worker and the timer.\<close>

definition slpy_other :: "slpy_state \<Rightarrow> slpy_state \<Rightarrow> bool" where
  "slpy_other s s' \<longleftrightarrow> s' = snd (slpy_open s) \<or> s' = snd (slpy_close s)"

definition sleepy_other :: "sleepy_state \<Rightarrow> sleepy_state \<Rightarrow> bool" where
  "sleepy_other s s' \<longleftrightarrow> (\<exists>buf cnt. s' = snd (write_wake_one buf cnt s))"

definition wq_work :: "slpwq_state \<Rightarrow> slpwq_state res" where
  "wq_work s = (if work s then wq_func (s\<lparr>work := False\<rparr>) else Inr s)"

definition wq_timer :: "slpwq_state \<Rightarrow> slpwq_state res" where
  "wq_timer s = (if timr s then whee (s\<lparr>timr := False\<rparr>) else Inr s)"

definition slpwq_other :: "slpwq_state \<Rightarrow> slpwq_state \<Rightarrow> bool" where
  "slpwq_other s s' \<longleftrightarrow> wq_work s = Inr s' \<or> wq_timer s = Inr s'"

lemma write_wake_one_flag: "data_present (snd (write_wake_one buf cnt s)) = 1 \<Longrightarrow> data_present s = 1"
  by (auto simp: write_wake_one_def Let_def split: if_splits prod.splits)

lemma slpwq_other_flag: "slpwq_other s s' \<Longrightarrow> data_present s' = data_present s"
  by (auto simp: slpwq_other_def wq_work_def wq_timer_def wq_func_def whee_def add_timer_def Let_def split: if_splits)

lemma slpy_read_stepD: "slpy_read_step sig r s = (r', s') \<Longrightarrow> s' = s
   \<and> (r' = Asleep \<longrightarrow> r \<noteq> Asleep \<longrightarrow> data_present s \<noteq> 1)
   \<and> (served r' \<longrightarrow> \<not> served r \<longrightarrow> data_present s \<noteq> 0)"
  by (cases "(sig, r, s)" rule: slpy_read_step.cases) (auto simp: served_def split: if_splits)

lemma sleepy_read_stepD: "sleepy_read_step sig r s = (r', s') \<Longrightarrow>
   (data_present s' = 1 \<longrightarrow> data_present s = 1)
   \<and> (r' = Asleep \<longrightarrow> r \<noteq> Asleep \<longrightarrow> data_present s \<noteq> 1)
   \<and> (served r' \<longrightarrow> \<not> served r \<longrightarrow> data_present s = 1)"
  by (cases "(sig, r, s)" rule: sleepy_read_step.cases) (auto simp: served_def split: if_splits)

lemma slpwq_read_stepD: "slpwq_read_step sig r s = (r', s') \<Longrightarrow> s' = s
   \<and> (r' = Asleep \<longrightarrow> r \<noteq> Asleep \<longrightarrow> data_present s \<noteq> 1)
   \<and> (served r' \<longrightarrow> \<not> served r \<longrightarrow> data_present s = 1)"
  by (cases "(sig, r, s)" rule: slpwq_read_step.cases) (auto simp: served_def split: if_splits)

interpretation slpy: sleepers "\<lambda>s. data_present s = 1" "\<lambda>s. data_present s \<in> {0, 1}"
  slpy_read_step slpy_write_set slpy_other
  by unfold_locales
    (auto simp: slpy_write_set_def slpy_other_def slpy_open_def slpy_close_def numeral_3_eq_3 dest!: slpy_read_stepD)

interpretation sleepy: sleepers "\<lambda>s. data_present s = 1" "\<lambda>_. True"
  sleepy_read_step sleepy_write_set sleepy_other
  by unfold_locales
    (auto simp: sleepy_write_set_def sleepy_other_def numeral_3_eq_3
      dest: write_wake_one_flag dest!: sleepy_read_stepD)

interpretation slpwq: sleepers "\<lambda>s. data_present s = 1" "\<lambda>_. True"
  slpwq_read_step slpwq_write_set slpwq_other
  by unfold_locales
    (auto simp: slpwq_write_set_def numeral_3_eq_3 slpwq_other_flag dest!: slpwq_read_stepD)

end
