(* ===== verification/Sleepy_Claims.thy ===== *)
theory Sleepy_Claims
  imports Sleepy
begin

text \<open>
  What the sleeping drivers do: wakeups, the wake-one option of \<open>slpy-proc-ctrl.c\<close> and its race,
  the proc entry, and the timer of \<open>slpy_wq.c\<close>.
\<close>

section \<open>Loading and unloading\<close>

lemmas sleepy_load_defs = register_chrdev_def load_defs

interpretation slpy_mod: clean_module slpy_init slpy_exit ktr "\<lambda>_. {#ChrMajor 60#}"
  by unfold_locales (auto simp: slpy_init_def slpy_exit_def sleepy_load_defs split: if_splits)

interpretation sleepy_mod: clean_module sleepy_init_module sleepy_cleanup_module ktr
  "\<lambda>s. {#ChrMajor (sleepy_major s), ProcEntry#}"
proof
  show "held (ktr s') = held (ktr s) + {#ChrMajor (sleepy_major s'), ProcEntry#} \<and> spurious (ktr s') = spurious (ktr s)"
    if "sleepy_init_module E s = Inr (0, s')" for E s s'
    using that by (auto simp: sleepy_init_module_def sleepy_load_defs split: if_splits)
  show "held (ktr (sleepy_cleanup_module s)) = M \<and> spurious (ktr (sleepy_cleanup_module s)) = spurious (ktr s)"
    if "held (ktr s) = M + {#ChrMajor (sleepy_major s), ProcEntry#}" for s M
    using that by (simp add: sleepy_cleanup_module_def)
  show "held (ktr s') = held (ktr s) \<and> spurious (ktr s') = spurious (ktr s)"
    if "sleepy_init_module E s = Inr (r, s')" "r \<noteq> 0" for E s r s'
    using that by (auto simp: sleepy_init_module_def sleepy_load_defs split: if_splits)
qed

section \<open>Wakeups\<close>

text \<open>
  Nobody has been served before the first write; and when the data are present and no writer
  has still to wake the queue, each reader inside the method returns 0 within three of its
  own steps.
\<close>

definition readers_ok ::
  "(bool \<Rightarrow> rd \<Rightarrow> 'a slpy_state_scheme \<Rightarrow> rd \<times> 'a slpy_state_scheme) \<Rightarrow> 'a slpy_state_scheme wq_sys \<Rightarrow> bool" where
  "readers_ok f w \<longleftrightarrow> (writes w = 0 \<longrightarrow> (\<forall>p. \<not> served (rdrs w p)))
     \<and> (data_present (drv w) = 1 \<longrightarrow> to_wake w = 0 \<longrightarrow>
        (\<forall>p. rdrs w p \<in> {Called, Waiting, Asleep, Passed} \<longrightarrow>
           fst (run_reader f 3 (rdrs w p) (drv w)) = Returned 0))"


definition quiet_sleepy :: "int \<Rightarrow> sleepy_state" where
  "quiet_sleepy one = \<lparr>ktr = [], data_present = 0, sleepy_major = 250, wake_one = one\<rparr>"

text \<open>Two readers asleep, one write.\<close>

definition two_asleep :: "int \<Rightarrow> sleepy_state wq_sys" where
  "two_asleep one = \<lparr>rdrs = (\<lambda>_. Idle)(0 := Asleep, 1 := Asleep), to_wake = 0, writes = 0, drv = quiet_sleepy one\<rparr>"

abbreviation "sleepy_reach \<equiv> wq_reach sleepy_read_step sleepy_write_set sleepy_other"

lemma sleepy_sleeps:
  assumes "sleepy_reach s0 w" and "rdrs w p = Idle" and "data_present (drv w) = 0"
  shows "sleepy_reach s0 (w\<lparr>rdrs := (rdrs w)(p := Asleep)\<rparr>)"
proof -
  have 1: "sleepy_reach s0 (w\<lparr>rdrs := (rdrs w)(p := Called)\<rparr>)" by (rule wq_reach.call [OF assms(1,2)])
  have 2: "sleepy_reach s0 (w\<lparr>rdrs := (rdrs w)(p := Waiting)\<rparr>)"
    using wq_reach.step [OF 1, of p False Waiting "drv w"] by simp
  show ?thesis using wq_reach.step [OF 2, of p False Asleep "drv w"] assms(3) by simp
qed

lemma two_asleep_reach: "sleepy_reach (quiet_sleepy one) (two_asleep one)"
proof -
  have "sleepy_reach (quiet_sleepy one) (wq_start (quiet_sleepy one))" by (rule wq_reach.start)
  then have "sleepy_reach (quiet_sleepy one)
      ((wq_start (quiet_sleepy one))\<lparr>rdrs := (rdrs (wq_start (quiet_sleepy one)))(0 := Asleep)\<rparr>)"
    by (rule sleepy_sleeps) (simp_all add: wq_start_def quiet_sleepy_def)
  from sleepy_sleeps [OF this, of 1] show ?thesis by (simp add: two_asleep_def wq_start_def quiet_sleepy_def)
qed

text \<open>\<open>sleepy_write\<close> is the sequence of its two steps.\<close>

lemma sleepy_write_reach:
  assumes "sleepy_reach s0 w" and "to_wake w = 0"
  shows "sleepy_reach s0 (snd (sleepy_write n w))"
proof -
  note wq_reach.wake [OF wq_reach.set [OF assms(1)], of 0]
  moreover have "w\<lparr>writes := Suc (writes w), drv := sleepy_write_set (drv w), to_wake := 0, rdrs := \<lambda>p. woken (rdrs w p)\<rparr>
      = snd (sleepy_write n w)"
    using assms(2) by (cases w) (simp add: sleepy_write_def)
  ultimately show ?thesis using assms(2) by simp
qed


section \<open>Waking one reader\<close>

text \<open>\<open>n\<close> woken readers that run one after the other, each until it returns or sleeps.\<close>

fun run_readers :: "nat \<Rightarrow> sleepy_state \<Rightarrow> rd list \<times> sleepy_state" where
  "run_readers 0 s = ([], s)"
| "run_readers (Suc n) s = (case run_reader sleepy_read_step 3 Waiting s of (r, s1) \<Rightarrow>
     (case run_readers n s1 of (rs, s2) \<Rightarrow> (r # rs, s2)))"

lemma run_readers_empty: "data_present s \<noteq> 1 \<Longrightarrow> run_readers n s = (replicate n Asleep, s)"
  by (induction n) (simp_all add: numeral_3_eq_3)

lemma run_readers_all: "data_present s = 1 \<Longrightarrow> wake_one s = 0 \<Longrightarrow> run_readers n s = (replicate n (Returned 0), s)"
  by (induction n) (simp_all add: numeral_3_eq_3)



text \<open>
  The race the comments of the driver mention is real: with wake_one on, two sleeping
  readers and a single write, both readers can return 0, because one may pass
  \<open>wait_event_interruptible\<close> before the other has reset \<open>data_present\<close>.
\<close>

theorem sleepy_race:
  "\<exists>w. sleepy_reach (quiet_sleepy 1) w \<and> writes w = 1 \<and> rdrs w 0 = Returned 0 \<and> rdrs w 1 = Returned 0"
proof -
  let ?w = "snd (sleepy_write 1 (two_asleep 1))" and ?s = "sleepy_write_set (quiet_sleepy 1)"
  let ?mk = "\<lambda>a b s. \<lparr>rdrs = (\<lambda>_. Idle)(0 := a, 1 := b), to_wake = 0, writes = 1, drv = s\<rparr>"
  have w: "?w = ?mk Waiting Waiting ?s"
    by (simp add: sleepy_write_def two_asleep_def woken_def fun_eq_iff)
  have "sleepy_reach (quiet_sleepy 1) (?mk Waiting Waiting ?s)"
    using sleepy_write_reach [OF two_asleep_reach, of 1 1] unfolding w by (simp add: two_asleep_def)
  from wq_reach.step [OF this, of 0 False Passed ?s]
  have "sleepy_reach (quiet_sleepy 1) (?mk Passed Waiting ?s)" by (simp add: sleepy_write_set_def fun_upd_twist)
  from wq_reach.step [OF this, of 1 False Passed ?s]
  have "sleepy_reach (quiet_sleepy 1) (?mk Passed Passed ?s)" by (simp add: sleepy_write_set_def fun_upd_twist)
  from wq_reach.step [OF this, of 0 False "Returned 0" "quiet_sleepy 1"]
  have "sleepy_reach (quiet_sleepy 1) (?mk (Returned 0) Passed (quiet_sleepy 1))"
    by (simp add: sleepy_write_set_def quiet_sleepy_def fun_upd_twist)
  from wq_reach.step [OF this, of 1 False "Returned 0" "quiet_sleepy 1"]
  have "sleepy_reach (quiet_sleepy 1) (?mk (Returned 0) (Returned 0) (quiet_sleepy 1))"
    by (simp add: quiet_sleepy_def fun_upd_twist)
  then show ?thesis by fastforce
qed

section \<open>The proc entry\<close>

lemma nat_digits_digit: "n < 10 \<Longrightarrow> nat_digits n = [of_nat (48 + n)]"
  by (simp add: nat_digits.simps [of n])

lemma nat_digits_length: "10 ^ k \<le> n \<Longrightarrow> k < length (nat_digits n)"
proof (induction k arbitrary: n)
  case 0
  then show ?case by (simp add: nat_digits.simps [of n])
next
  case (Suc k)
  then have "10 ^ k \<le> n div 10" by simp
  then have "k < length (nat_digits (n div 10))" by (rule Suc.IH)
  moreover have "10 * 10 ^ k \<le> n" "1 \<le> (10 :: nat) ^ k" using Suc.prems one_le_power [of "10 :: nat" k] by simp_all
  then have "\<not> n < 10" by linarith
  ultimately show ?case by (simp add: nat_digits.simps [of n])
qed

lemma stat_string_length:
  "length (stat_string s) = length (int_digits (data_present s)) + length (int_digits (wake_one s)) + 25"
  by (simp add: stat_string_def)

lemma int_digits_bit: "i \<in> {0, 1} \<Longrightarrow> int_digits i = [of_int (48 + i)]"
  by (auto simp: int_digits_def nat_digits_digit)

definition digit_byte :: "int \<Rightarrow> byte" where "digit_byte i = of_int (48 + i)"

text \<open>
  C23. The proc entry of \<open>slpy-proc-ctrl.c\<close>: writing one character 0, 1 or 2 sets wake_one to 0
  or 1 or clears data_present and returns 1; an empty write, another character or a longer
  write gives -EINVAL, an unreadable buffer -EFAULT, and nothing changes.  Reading then gives
  27 bytes with both values and the final NUL, and at any later offset it returns 0.
\<close>

theorem proc_entry:
  assumes "length stk = 30" and "data_present s \<in> {0, 1}" and "wake_one s \<in> {0, 1}"
    and "write_wake_one buf n s = (r, s')"
  shows "(case (n, buf) of (Suc 0, c # _) \<Rightarrow>
        if c = 0x30 then r = 1 \<and> s' = s\<lparr>wake_one := 0\<rparr> else if c = 0x31 then r = 1 \<and> s' = s\<lparr>wake_one := 1\<rparr>
        else if c = 0x32 then r = 1 \<and> s' = s\<lparr>data_present := 0\<rparr> else r = - EINVAL \<and> s' = s
      | (Suc 0, []) \<Rightarrow> r = - EFAULT \<and> s' = s
      | _ \<Rightarrow> r = - EINVAL \<and> s' = s)
     \<and> read_stat stk 27 cnt 0 s' = Inr (27, map of_char ''data_present='' @ [digit_byte (data_present s')]
          @ map of_char '' wake_one='' @ [digit_byte (wake_one s'), 10, 0], 27)
     \<and> (0 < off \<longrightarrow> (\<exists>out. read_stat stk 27 cnt off s' = Inr (0, out, off)))"
proof -
  have w: "case (n, buf) of (Suc 0, c # _) \<Rightarrow>
        if c = 0x30 then r = 1 \<and> s' = s\<lparr>wake_one := 0\<rparr> else if c = 0x31 then r = 1 \<and> s' = s\<lparr>wake_one := 1\<rparr>
        else if c = 0x32 then r = 1 \<and> s' = s\<lparr>data_present := 0\<rparr> else r = - EINVAL \<and> s' = s
      | (Suc 0, []) \<Rightarrow> r = - EFAULT \<and> s' = s
      | _ \<Rightarrow> r = - EINVAL \<and> s' = s"
    using assms(4) by (cases n; cases buf; cases "n - 1") (auto simp: write_wake_one_def MAXLEN_def copy_from_user_def Let_def split: if_splits)
  have "data_present s' \<in> {0, 1}" "wake_one s' \<in> {0, 1}"
    using assms(2-4) by (auto simp: write_wake_one_def Let_def split: if_splits prod.splits)
  then have st: "stat_string s' = map of_char ''data_present='' @ [digit_byte (data_present s')]
          @ map of_char '' wake_one='' @ [digit_byte (wake_one s'), 10, 0]"
    by (simp add: stat_string_def int_digits_bit digit_byte_def)
  have "take 27 (stat_string s' @ xs) = stat_string s'" for xs by (simp add: st)
  then have "read_stat stk 27 cnt k s' = Inr (if k = 0 then (27, stat_string s', 27) else (0, stat_string s', k))" for k
    using assms(1) by (simp add: read_stat_def st mem_store_def)
  then show ?thesis using w st by simp
qed

lemma proc_entry_witness:
  "read_stat (replicate 30 0) 27 27 0 (snd (write_wake_one [0x31] 1 (quiet_sleepy 0)))
     = Inr (27, map of_char ''data_present='' @ [48] @ map of_char '' wake_one='' @ [49, 10, 0], 27)"
  using proc_entry [of "replicate 30 0" "quiet_sleepy 0" "[0x31]" 1 1 "(quiet_sleepy 0)\<lparr>wake_one := 1\<rparr>" 27 0]
  by (simp add: quiet_sleepy_def write_wake_one_def MAXLEN_def digit_byte_def)

text \<open>
  A value of wake_one with five digits or more, which the module parameter allows, makes the
  status line longer than the 30 bytes of its buffer: reading the proc entry writes outside it.
\<close>

theorem proc_entry_overrun:
  assumes "length stk = 30" and "10 ^ 4 \<le> wake_one s"
  shows "read_stat stk room cnt off s = Inl Overrun"
proof -
  have "4 < length (nat_digits (nat (wake_one s)))" using assms(2) by (intro nat_digits_length) simp
  then have "5 \<le> length (int_digits (wake_one s))" using assms(2) by (simp add: int_digits_def)
  moreover have "0 < length (int_digits (data_present s))"
    using nat_digits_length [of 0] by (auto simp: int_digits_def nat_digits.simps)
  ultimately have "30 < length (stat_string s)" unfolding stat_string_length by linarith
  then show ?thesis using assms(1) by (simp add: read_stat_def mem_store_too_long)
qed

lemma proc_entry_overrun_witness:
  "read_stat (replicate 30 0) 27 27 0 (quiet_sleepy 10000) = Inl Overrun"
  by (rule proc_entry_overrun) (simp_all add: quiet_sleepy_def)

section \<open>The timer of slpy-wq\<close>

datatype wq_ev = EvWrite | EvWorker | EvTimer

definition wq_event :: "wq_ev \<Rightarrow> slpwq_state \<Rightarrow> slpwq_state res" where
  "wq_event e s = (case e of EvWrite \<Rightarrow> Inr (slpwq_write_set s) | EvWorker \<Rightarrow> wq_work s | EvTimer \<Rightarrow> wq_timer s)"

fun wq_run :: "wq_ev list \<Rightarrow> slpwq_state \<Rightarrow> slpwq_state res" where
  "wq_run [] s = Inr s"
| "wq_run (e # es) s = bind_res (wq_event e s) (wq_run es)"

lemmas wq_defs = wq_event_def wq_work_def wq_timer_def slpwq_write_set_def wq_func_def whee_def add_timer_def Let_def

lemma wq_event_timr: "timr s \<Longrightarrow> wq_event e s = Inr s' \<Longrightarrow> timr s'"
  by (cases e) (auto simp: wq_defs split: if_splits)

lemma wq_run_timr: "timr s \<Longrightarrow> wq_run es s = Inr s' \<Longrightarrow> timr s'"
  by (induction es arbitrary: s) (auto simp: bind_res_eq_Inr dest: wq_event_timr)

lemma wq_run_count:
  "timr s \<Longrightarrow> \<not> work s \<Longrightarrow> wq_run (replicate n EvTimer) s = Inr (s\<lparr>tcount := tcount s + of_nat n,
     tdata := (if n = 0 then tdata s else scast (tcount s + of_nat n))\<rparr>)"
  by (induction n arbitrary: s) (simp_all add: wq_defs ac_simps)

text \<open>
  C22. The deferred work of \<open>slpy_wq.c\<close> works once.  After a first write and its work the timer
  re-arms itself for ever, counting its expirations; so whatever happens later, the work of the
  next write adds a timer that is pending, which the kernel answers with a BUG.  And if the work
  is still queued when the module is unloaded, it is run after the timer has been deleted, so the
  module goes away with its timer pending.
\<close>

theorem wq_timer_once:
  assumes "wq_run (EvWrite # EvWorker # es) s = Inr s1" and "\<not> timr s"
  shows "wq_run [EvWrite, EvWorker] s1 = Inl KernelBug
     \<and> wq_run (EvWrite # EvWorker # replicate n EvTimer) s
        = Inr (s\<lparr>data_present := 1, work := False, timr := True, tcount := tcount s + 1 + of_nat n,
            tdata := scast (tcount s + 1 + of_nat n)\<rparr>)
     \<and> (\<exists>s2. slpwq_cleanup_module (slpwq_write_set s1) = Inr s2 \<and> timr s2)"
proof -
  let ?s = "s\<lparr>data_present := 1, work := False, tcount := tcount s + 1, tdata := scast (tcount s + 1), timr := True\<rparr>"
  have first: "wq_run (EvWrite # EvWorker # es') s = wq_run es' ?s" for es'
    using assms(2) by (simp add: wq_defs)
  then have "timr s1" using assms(1) wq_run_timr [of ?s es s1] by simp
  then have "wq_run [EvWrite, EvWorker] s1 = Inl KernelBug" by (simp add: wq_defs)
  moreover have "wq_run (EvWrite # EvWorker # replicate n EvTimer) s
        = Inr (s\<lparr>data_present := 1, work := False, timr := True, tcount := tcount s + 1 + of_nat n,
            tdata := scast (tcount s + 1 + of_nat n)\<rparr>)"
    unfolding first using wq_run_count [of ?s n] by simp
  moreover have "\<exists>s2. slpwq_cleanup_module (slpwq_write_set s1) = Inr s2 \<and> timr s2"
    by (simp add: slpwq_cleanup_module_def wq_defs rel_def)
  ultimately show ?thesis by blast
qed

definition fresh_slpwq :: slpwq_state where
  "fresh_slpwq = \<lparr>ktr = [], data_present = 0, wq_major = 250, work = False, timr = False, tcount = 0, tdata = 0\<rparr>"

lemma wq_timer_once_witness:
  "wq_run [EvWrite, EvWorker, EvTimer, EvWrite, EvWorker] fresh_slpwq = Inl KernelBug"
proof -
  obtain s1 where *: "wq_run (EvWrite # EvWorker # [EvTimer]) fresh_slpwq = Inr s1"
    by (simp add: wq_defs fresh_slpwq_def)
  have "\<not> timr fresh_slpwq" by (simp add: fresh_slpwq_def)
  from wq_timer_once [OF * this] have "wq_run [EvWrite, EvWorker] s1 = Inl KernelBug" by blast
  with * show ?thesis by (auto simp: bind_res_eq_Inr)
qed

end
