(* ===== verification/Net_Modules.thy ===== *)
theory Net_Modules
  imports Chardev
begin

text \<open>
  The introductory network modules: the stub interface \<open>01_network_simple/network.c\<close>, the
  interface \<open>03_network_ping/transmit.c\<close> that prints what it is given to send, and
  \<open>02_network_list/devices.c\<close>, which walks the kernel's list of interfaces.
\<close>

section \<open>State\<close>

record net_stats =
  ns_tx_packets :: "64 word"
  ns_collisions :: "64 word"

record stub_dev =
  sd_addr :: "byte list"
  sd_flags :: "32 word"
  sd_ops :: bool
  sd_trans_start :: "64 word"
  sd_stats :: net_stats

text \<open>
  The static pointers \<open>dev\<close> and \<open>stats\<close> (which points into the device), the socket buffers that
  exist, whether the transmit queue runs, and what \<open>printk\<close> prints of packets (not the traces of
  entered functions).
\<close>

record net_mod = mod_state +
  nm_dev :: "stub_dev option"
  nm_stats :: bool
  nm_skbs :: "nat \<rightharpoonup> byte list"
  nm_queue :: bool
  nm_log :: "string list"

text \<open>The kernel: the blank device of \<open>alloc_netdev\<close>, \<open>ether_setup\<close>, and the clock.\<close>

record net_env =
  n_blank :: stub_dev
  n_ether :: "stub_dev \<Rightarrow> stub_dev"
  n_jiffies :: "kreq list \<Rightarrow> 64 word"

definition NET_ETH_ALEN :: nat where "NET_ETH_ALEN = 6"
definition NET_IFF_UP :: "32 word" where "NET_IFF_UP = 1"
definition NET_IFF_NOARP :: "32 word" where "NET_IFF_NOARP = 0x80"

text \<open>The loop that numbers the bytes of the hardware address.\<close>

fun addr_loop :: "nat \<Rightarrow> nat \<Rightarrow> byte list \<Rightarrow> byte list res" where
  "addr_loop j 0 a = Inr a"
| "addr_loop j (Suc n) a = bind_res (mem_write a j (of_nat j)) (addr_loop (Suc j) n)"

definition net_free_skb :: "nat \<Rightarrow> net_mod \<Rightarrow> net_mod res" where
  "net_free_skb q s = (case nm_skbs s q of None \<Rightarrow> Inl DoubleFree
     | Some _ \<Rightarrow> Inr (s\<lparr>nm_skbs := (nm_skbs s)(q := None)\<rparr>))"

section \<open>network.c\<close>

definition stub_open :: "net_mod \<Rightarrow> int \<times> net_mod" where
  "stub_open s = (0, s\<lparr>nm_queue := True\<rparr>)"

definition stub_close :: "net_mod \<Rightarrow> int \<times> net_mod" where
  "stub_close s = (0, s\<lparr>nm_queue := False\<rparr>)"

definition stub_start_xmit :: "nat \<Rightarrow> net_mod \<Rightarrow> (int \<times> net_mod) res" where
  "stub_start_xmit q s = bind_res (net_free_skb q s) (\<lambda>s1. Inr (0, s1))"

definition stub_setup :: "net_env \<Rightarrow> stub_dev \<Rightarrow> stub_dev res" where
  "stub_setup N dv = bind_res (addr_loop 0 NET_ETH_ALEN (sd_addr dv)) (\<lambda>a.
     Inr ((n_ether N (dv\<lparr>sd_addr := a\<rparr>))\<lparr>sd_ops := True\<rparr>))"

text \<open>
  \<open>my_init\<close>, which both modules share but for the setup function that \<open>alloc_netdev\<close> calls;
  \<open>register_netdev\<close> is handed the result of the allocation unchecked.
\<close>

definition net_init :: "net_env \<Rightarrow> (stub_dev \<Rightarrow> net_mod \<Rightarrow> net_mod res) \<Rightarrow> kenv \<Rightarrow> net_mod \<Rightarrow> (int \<times> net_mod) res" where
  "net_init N setup E s =
     (case acq_ptr E NetDevObj s of (p, s1) \<Rightarrow>
       if p = NullPtr then Inl NullDeref else if p = ErrPtr then Inl BadPointer
       else bind_res (setup (n_blank N) s1) (\<lambda>s2.
         (case acq_zero E NetDevReg s2 of (r, s3) \<Rightarrow>
           if r \<noteq> 0 then Inr (-1, (rel NetDevObj s3)\<lparr>nm_dev := None, nm_stats := False\<rparr>) else Inr (0, s3))))"

definition stub_my_init :: "net_env \<Rightarrow> kenv \<Rightarrow> net_mod \<Rightarrow> (int \<times> net_mod) res" where
  "stub_my_init N = net_init N (\<lambda>dv s. bind_res (stub_setup N dv) (\<lambda>dv'. Inr (s\<lparr>nm_dev := Some dv'\<rparr>)))"

definition stub_my_exit :: "net_mod \<Rightarrow> net_mod" where
  "stub_my_exit s = (rel NetDevObj (rel NetDevReg s))\<lparr>nm_dev := None, nm_stats := False\<rparr>"

section \<open>transmit.c\<close>

text \<open>\<open>%02x\<close>, and the loop that prints sixteen bytes to a line.\<close>

definition hex_digit :: "nat \<Rightarrow> char" where
  "hex_digit n = ''0123456789abcdef'' ! n"

definition hex2 :: "byte \<Rightarrow> string" where
  "hex2 b = [hex_digit (unat b div 16), hex_digit (unat b mod 16)]"

abbreviation newline :: char where "newline \<equiv> CHR 0x0A"

fun dump_loop :: "nat \<Rightarrow> byte list \<Rightarrow> string list" where
  "dump_loop i [] = []"
| "dump_loop i (x # xs) =
     (if i AND 0xf = 0 then [newline # ''  ''] else []) @ (hex2 x @ '' '') # dump_loop (Suc i) xs"

definition my_hard_start_xmit :: "net_env \<Rightarrow> nat \<Rightarrow> net_mod \<Rightarrow> (int \<times> net_mod) res" where
  "my_hard_start_xmit N q s =
     (case nm_dev s of None \<Rightarrow> Inl NullDeref | Some dv \<Rightarrow>
      (case nm_skbs s q of None \<Rightarrow> Inl BadPointer | Some data \<Rightarrow>
        (let s1 = s\<lparr>nm_dev := Some (dv\<lparr>sd_trans_start := n_jiffies N (ktr s)\<rparr>),
                    nm_log := nm_log s @ (''Sending packet :'' @ [newline]) # dump_loop 0 data @ [[newline]]\<rparr> in
         bind_res (net_free_skb q s1) (\<lambda>s2.
           (case nm_dev s2 of None \<Rightarrow> Inl NullDeref | Some dv2 \<Rightarrow>
             if \<not> nm_stats s2 then Inl NullDeref
             else Inr (0, s2\<lparr>nm_dev := Some (dv2\<lparr>sd_stats := (sd_stats dv2)
                    \<lparr>ns_tx_packets := ns_tx_packets (sd_stats dv2) + 1\<rparr>\<rparr>)\<rparr>))))))"

definition my_do_ioctl :: "net_mod \<Rightarrow> int \<times> net_mod" where "my_do_ioctl s = (-1, s)"
definition my_change_mtu :: "int \<Rightarrow> net_mod \<Rightarrow> int \<times> net_mod" where "my_change_mtu new_mtu s = (-1, s)"

definition my_get_stats :: "net_mod \<Rightarrow> net_stats res" where
  "my_get_stats s = (case nm_dev s of Some dv \<Rightarrow> if nm_stats s then Inr (sd_stats dv) else Inl NullDeref
     | None \<Rightarrow> Inl NullDeref)"

definition my_config :: "net_mod \<Rightarrow> int res" where
  "my_config s = (case nm_dev s of None \<Rightarrow> Inl NullDeref
     | Some dv \<Rightarrow> Inr (if sd_flags dv AND NET_IFF_UP \<noteq> 0 then - EBUSY else 0))"

definition tx_open :: "net_mod \<Rightarrow> int \<times> net_mod" where
  "tx_open s = (0, s\<lparr>nm_queue := True\<rparr>)"

definition tx_close :: "net_mod \<Rightarrow> int \<times> net_mod" where
  "tx_close s = (0, s\<lparr>nm_queue := False\<rparr>)"

definition tx_setup :: "net_env \<Rightarrow> stub_dev \<Rightarrow> net_mod \<Rightarrow> net_mod res" where
  "tx_setup N dv s = bind_res (addr_loop 0 NET_ETH_ALEN (sd_addr dv)) (\<lambda>a.
     let d1 = n_ether N (dv\<lparr>sd_addr := a\<rparr>);
         d2 = d1\<lparr>sd_flags := sd_flags d1 OR NET_IFF_NOARP, sd_ops := True\<rparr>
     in Inr (s\<lparr>nm_dev := Some (d2\<lparr>sd_stats := (sd_stats d2)\<lparr>ns_collisions := 50\<rparr>\<rparr>), nm_stats := True\<rparr>))"

definition tx_my_init :: "net_env \<Rightarrow> kenv \<Rightarrow> net_mod \<Rightarrow> (int \<times> net_mod) res" where
  "tx_my_init N = net_init N (tx_setup N)"

definition tx_my_exit :: "net_mod \<Rightarrow> net_mod" where
  "tx_my_exit s = (rel NetDevObj (rel NetDevReg s))\<lparr>nm_dev := None, nm_stats := False\<rparr>"

section \<open>devices.c\<close>

text \<open>
  The loop over the interfaces: a device is printed and \<open>next_net_device\<close> asked for its successor;
  None is a loop that never ends.
\<close>

partial_function (option) walk_devices :: "('d \<Rightarrow> 'd option) \<Rightarrow> 'd option \<Rightarrow> 'd list option" where
  "walk_devices nxt dev = (case dev of None \<Rightarrow> Some []
     | Some d \<Rightarrow> Option.bind (walk_devices nxt (nxt d)) (\<lambda>ds. Some (d # ds)))"

definition devices_my_init :: "('d \<Rightarrow> 'd option) \<Rightarrow> 'd option \<Rightarrow> (int \<times> 'd list) option" where
  "devices_my_init nxt first = (case walk_devices nxt first of None \<Rightarrow> None | Some ds \<Rightarrow> Some (0, ds))"

section \<open>The modules as instances of the contract\<close>

definition net_owned :: "net_mod \<Rightarrow> resource multiset" where
  "net_owned s = {#NetDevObj, NetDevReg#}"

text \<open>A setup function that asks the kernel for nothing.\<close>

definition quiet_setup :: "(stub_dev \<Rightarrow> net_mod \<Rightarrow> net_mod res) \<Rightarrow> bool" where
  "quiet_setup f \<longleftrightarrow> (\<forall>dv s s'. f dv s = Inr s' \<longrightarrow> ktr s' = ktr s)"

lemma net_init_clean:
  assumes "quiet_setup f"
  shows "clean_module (net_init N f) tx_my_exit ktr net_owned"
proof
  show "held (ktr s') = held (ktr s) + net_owned s' \<and> spurious (ktr s') = spurious (ktr s)"
    if "net_init N f E s = Inr (0, s')" for E s s'
    using that assms by (auto simp: net_init_def acq_ptr_def acq_zero_def Let_def bind_res_eq_Inr net_owned_def
        quiet_setup_def ptrval_cases split: if_splits)
  show "held (ktr (tx_my_exit s)) = M \<and> spurious (ktr (tx_my_exit s)) = spurious (ktr s)"
    if "held (ktr s) = M + net_owned s" for s M
    using that by (simp add: tx_my_exit_def net_owned_def rel_def)
  show "held (ktr s') = held (ktr s) \<and> spurious (ktr s') = spurious (ktr s)"
    if "net_init N f E s = Inr (r, s')" "r \<noteq> 0" for E s r s'
    using that assms by (auto simp: net_init_def acq_ptr_def acq_zero_def Let_def bind_res_eq_Inr rel_def
        quiet_setup_def ptrval_cases split: if_splits)
qed

interpretation txmod: clean_module "tx_my_init N" tx_my_exit ktr net_owned for N
  unfolding tx_my_init_def by (rule net_init_clean) (auto simp: quiet_setup_def tx_setup_def bind_res_eq_Inr Let_def)

interpretation stubmod: clean_module "stub_my_init N" stub_my_exit ktr net_owned for N
proof -
  have "stub_my_exit = tx_my_exit" by (simp add: fun_eq_iff stub_my_exit_def tx_my_exit_def)
  then show "clean_module (stub_my_init N) stub_my_exit ktr net_owned"
    unfolding stub_my_init_def by (simp only:) (rule net_init_clean, auto simp: quiet_setup_def bind_res_eq_Inr)
qed

section \<open>What is printed of a packet\<close>

definition hex_val :: "char \<Rightarrow> nat" where
  "hex_val c = (let n = of_char c in if n \<le> 57 then n - 48 else n - 87)"

definition blank_char :: "char \<Rightarrow> bool" where
  "blank_char c \<longleftrightarrow> c = newline \<or> c = CHR '' ''"

text \<open>Reading a dump: pairs of hexadecimal digits, blanks skipped.\<close>

fun undump :: "string \<Rightarrow> byte list" where
  "undump (a # b # cs) = (if blank_char a then undump (b # cs)
     else of_nat (16 * hex_val a + hex_val b) # undump cs)"
| "undump _ = []"

lemma undump_blank: "blank_char c \<Longrightarrow> undump (c # cs) = undump cs"
  by (cases cs) simp_all

lemma hex_digits: "n < 16 \<Longrightarrow> hex_val (hex_digit n) = n \<and> \<not> blank_char (hex_digit n)"
proof -
  have "\<forall>n \<in> set [0..<16]. hex_val (hex_digit n) = n \<and> \<not> blank_char (hex_digit n)" by code_simp
  then show "n < 16 \<Longrightarrow> ?thesis" by simp
qed

lemma undump_hex2: "undump (hex2 b @ '' '' @ cs) = b # undump cs"
proof -
  have "unat b < 256" using unsigned_less [of b, where 'a = nat] by simp
  then have "unat b div 16 < 16" "unat b mod 16 < 16" by simp_all
  then have "undump (hex2 b @ '' '' @ cs) = of_nat (unat b) # undump cs"
    using hex_digits by (simp add: hex2_def undump_blank blank_char_def)
  then show ?thesis by simp
qed

lemma undump_dump: "undump (concat (dump_loop i xs) @ cs) = xs @ undump cs"
proof (induction xs arbitrary: i)
  case (Cons x xs)
  then show ?case
    using undump_hex2 [of x] by (simp add: undump_blank blank_char_def)
qed simp

lemma and_15: "i AND 15 = i mod (16 :: nat)"
proof -
  have "i AND mask 4 = i mod 2 ^ 4" by (simp only: take_bit_eq_mask [symmetric] take_bit_eq_mod)
  moreover have "mask 4 = (15 :: nat)" by (simp add: mask_eq_exp_minus_1)
  ultimately show ?thesis by simp
qed

lemma dump_lines: "length (filter (\<lambda>m. hd m = newline) (dump_loop i xs)) = (i + length xs + 15) div 16 - (i + 15) div 16"
proof (induction xs arbitrary: i)
  case (Cons x xs)
  have "hd (hex2 x @ '' '') \<noteq> newline"
    using hex_digits [of "unat x div 16"] unsigned_less [of x, where 'a = nat] by (auto simp: hex2_def blank_char_def)
  moreover have "(i + 15) div 16 = i div 16 + (if i mod 16 = 0 then 0 else 1)"
  proof -
    have "(i + 15) div 16 = i div 16 + (i mod 16 + 15) div 16" by (simp add: div_add1_eq [of i 15 16])
    moreover have "(i mod 16 + 15) div 16 = 1" if "i mod 16 \<noteq> 0"
      using that by (intro div_nat_eqI) auto
    ultimately show ?thesis by simp
  qed
  moreover have "(16 + i) div 16 = Suc (i div 16)" by simp
  moreover have "i div 16 \<le> (i + length xs) div 16" by (intro div_le_mono) simp
  moreover have "(16 + (i + length xs)) div 16 = Suc ((i + length xs) div 16)" by simp
  ultimately show ?case by (simp add: and_15 Cons.IH Suc_diff_le)
qed simp

text \<open>
  C36. Sending a packet through the printing interface returns 0, frees the skb and no other, counts
  it and stamps the device; the hexadecimal text printed, in lines of sixteen bytes, contains
  exactly the bytes of the packet; sending the same skb again is a use after free.
\<close>

theorem transmit_prints_packet:
  assumes "nm_dev s = Some dv" and "nm_stats s" and "nm_skbs s q = Some data"
  shows "\<exists>s' lines. my_hard_start_xmit N q s = Inr (0, s') \<and> nm_skbs s' = (nm_skbs s)(q := None)
     \<and> my_get_stats s' = Inr ((sd_stats dv)\<lparr>ns_tx_packets := ns_tx_packets (sd_stats dv) + 1\<rparr>)
     \<and> map_option sd_trans_start (nm_dev s') = Some (n_jiffies N (ktr s))
     \<and> nm_log s' = nm_log s @ (''Sending packet :'' @ [newline]) # lines @ [[newline]]
     \<and> undump (concat lines) = data
     \<and> length (filter (\<lambda>m. hd m = newline) lines) = (length data + 15) div 16
     \<and> my_hard_start_xmit N q s' = Inl BadPointer"
  using assms undump_dump [of 0 data "[]"] dump_lines [of 0 data]
  by (auto simp: my_hard_start_xmit_def net_free_skb_def my_get_stats_def Let_def)

definition demo_net :: net_env where
  "demo_net = \<lparr>n_blank = \<lparr>sd_addr = replicate 32 0, sd_flags = 0x1002, sd_ops = False, sd_trans_start = 0,
     sd_stats = \<lparr>ns_tx_packets = 0, ns_collisions = 0\<rparr>\<rparr>, n_ether = id, n_jiffies = (\<lambda>tr. of_nat (length tr))\<rparr>"

definition demo_net_mod :: net_mod where
  "demo_net_mod = \<lparr>ktr = [], nm_dev = Some (n_blank demo_net), nm_stats = True, nm_skbs = [5 \<mapsto> [0xDE, 0xAD]],
     nm_queue = True, nm_log = []\<rparr>"

lemma transmit_prints_packet_witness:
  "\<exists>s' lines. my_hard_start_xmit demo_net 5 demo_net_mod = Inr (0, s') \<and> undump (concat lines) = [0xDE, 0xAD]
     \<and> nm_log s' = (''Sending packet :'' @ [newline]) # lines @ [[newline]] \<and> nm_skbs s' 5 = None"
  using transmit_prints_packet [of demo_net_mod "n_blank demo_net" 5 "[0xDE, 0xAD]" demo_net]
  by (auto simp: demo_net_mod_def)

section \<open>Loading\<close>

lemma addr_loop_eq: "j + n \<le> length a \<Longrightarrow> addr_loop j n a = Inr (take j a @ map of_nat [j..<j + n] @ drop (j + n) a)"
proof (induction n arbitrary: j a)
  case (Suc n)
  then have "j < length a" by simp
  with Suc show ?case
    by (simp add: take_Suc_conv_app_nth upt_conv_Cons drop_update_cancel take_update_cancel del: upt_Suc)
qed simp

text \<open>
  Loading either network module has three outcomes: without memory the NULL device is passed to
  \<open>register_netdev\<close>, a fault; a refused registration frees the device and gives -1; otherwise the
  device has the address 00:01:02:03:04:05 and its methods, and for transmit.c no ARP and 50 collisions.
\<close>

theorem net_load_outcomes:
  assumes "\<And>dv. sd_addr (n_ether N dv) = sd_addr dv" and "6 \<le> length (sd_addr (n_blank N))"
  shows "case kr_ptr E (ktr s) NetDevObj of
      NullPtr \<Rightarrow> stub_my_init N E s = Inl NullDeref \<and> tx_my_init N E s = Inl NullDeref
    | ErrPtr \<Rightarrow> stub_my_init N E s = Inl BadPointer \<and> tx_my_init N E s = Inl BadPointer
    | ValidPtr \<Rightarrow> (\<exists>s1 s2 d1 d2. if kr_int E (Acquire NetDevObj True # ktr s) NetDevReg \<noteq> 0
        then stub_my_init N E s = Inr (-1, s1) \<and> tx_my_init N E s = Inr (-1, s2)
          \<and> held (ktr s1) = held (ktr s) \<and> held (ktr s2) = held (ktr s)
        else stub_my_init N E s = Inr (0, s1) \<and> tx_my_init N E s = Inr (0, s2)
          \<and> nm_dev s1 = Some d1 \<and> take 6 (sd_addr d1) = [0, 1, 2, 3, 4, 5] \<and> sd_ops d1
          \<and> nm_dev s2 = Some d2 \<and> take 6 (sd_addr d2) = [0, 1, 2, 3, 4, 5] \<and> sd_ops d2
          \<and> sd_flags d2 AND NET_IFF_NOARP \<noteq> 0 \<and> ns_collisions (sd_stats d2) = 50 \<and> my_get_stats s2 = Inr (sd_stats d2))"
proof -
  have upt: "map of_nat [0..<6] = [0, 1, 2, 3, 4, 5 :: byte]" by (simp add: upt_rec)
  let ?a = "[0, 1, 2, 3, 4, 5] @ drop 6 (sd_addr (n_blank N))"
  have loop: "addr_loop 0 NET_ETH_ALEN (sd_addr (n_blank N)) = Inr ?a"
    using addr_loop_eq [of 0 6 "sd_addr (n_blank N)"] assms(2) by (simp add: NET_ETH_ALEN_def upt)
  have noarp: "(x OR NET_IFF_NOARP) AND NET_IFF_NOARP \<noteq> 0" for x :: "32 word"
    by (simp add: NET_IFF_NOARP_def word_bw_comms word_ao_absorbs)
  show ?thesis
    using loop noarp assms(1)
    by (cases "kr_ptr E (ktr s) NetDevObj"; cases "kr_int E (Acquire NetDevObj True # ktr s) NetDevReg = 0")
      (auto simp: stub_my_init_def tx_my_init_def net_init_def acq_ptr_def acq_zero_def rel_def Let_def
        stub_setup_def tx_setup_def my_get_stats_def)
qed

lemma net_load_outcomes_witness:
  "\<exists>s2 d2. tx_my_init demo_net \<lparr>kr_int = \<lambda>_ _. 0, kr_ptr = \<lambda>_ _. ValidPtr, kr_major = \<lambda>_. 240, kr_check = \<lambda>_ _. 0\<rparr> demo_net_mod
     = Inr (0, s2) \<and> nm_dev s2 = Some d2 \<and> take 6 (sd_addr d2) = [0, 1, 2, 3, 4, 5]"
  using net_load_outcomes [of demo_net "\<lparr>kr_int = \<lambda>_ _. 0, kr_ptr = \<lambda>_ _. ValidPtr, kr_major = \<lambda>_. 240, kr_check = \<lambda>_ _. 0\<rparr>" demo_net_mod]
  by (auto simp: demo_net_def)

section \<open>The list of interfaces\<close>

lemma walk_devices_chain: "walk_devices nxt first = Some ds \<longleftrightarrow> chain (\<lambda>d. Some (nxt d)) first ds"
proof (induction ds arbitrary: first)
  case Nil
  then show ?case by (subst walk_devices.simps) (auto split: option.split simp: bind_eq_Some_conv)
next
  case (Cons d ds)
  then show ?case by (subst walk_devices.simps) (auto split: option.split simp: bind_eq_Some_conv)
qed

text \<open>
  The loop over the interfaces ends exactly when the kernel's list does: it then prints each device
  of the list once, in order, and returns 0; on a list that leads back to itself it never ends.
\<close>

theorem devices_walk:
  "(devices_my_init nxt first = Some (r, ds) \<longleftrightarrow> r = 0 \<and> chain (\<lambda>d. Some (nxt d)) first ds)
   \<and> (devices_my_init nxt first = None \<longleftrightarrow> (\<nexists>ds. chain (\<lambda>d. Some (nxt d)) first ds))
   \<and> (devices_my_init nxt first = Some (r, ds) \<longrightarrow> distinct ds)"
proof (cases "walk_devices nxt first")
  case None
  then have "\<nexists>ds. chain (\<lambda>d. Some (nxt d)) first ds" using walk_devices_chain [of nxt first] by simp
  then show ?thesis using None by (simp add: devices_my_init_def)
next
  case (Some es)
  then have es: "chain (\<lambda>d. Some (nxt d)) first es" by (simp add: walk_devices_chain)
  then have "chain (\<lambda>d. Some (nxt d)) first ds \<longleftrightarrow> ds = es" for ds by (blast intro: chain_unique)
  then show ?thesis using Some chain_distinct [OF es] by (auto simp: devices_my_init_def)
qed

lemma devices_walk_witness:
  "devices_my_init (\<lambda>d. if d < 3 then Some (Suc d) else None) (Some 1) = Some (0, [1, 2, 3 :: nat])
   \<and> devices_my_init (\<lambda>d. Some d) (Some (0 :: nat)) = None"
proof -
  have "\<not> chain (\<lambda>d. Some (Some d)) (Some (0 :: nat)) ds" for ds
    by (induction ds) auto
  then show ?thesis
    using devices_walk [of "\<lambda>d. if d < 3 then Some (Suc d) else None" "Some 1" 0 "[1, 2, 3]"]
      devices_walk [of "\<lambda>d. Some d" "Some (0 :: nat)" 0 "[]"] by (auto simp: numeral_3_eq_3)
qed

end
