(* ===== verification/Kernel_Mechs.thy ===== *)
theory Kernel_Mechs
  imports Chardev
begin

text \<open>
  The modules that show a kernel mechanism: a timer (\<open>Kernel_Timers/timer.c\<close>), a busy wait
  (\<open>Busy_wait/busy_wait.c\<close>), two kernel threads (\<open>Sleep_wait/sleep_wait.c\<close>, \<open>KT/kt.c\<close>) and a work
  queue (\<open>1_Simple_WQ/workq_demo.c\<close>).  Time is the 64-bit counter \<open>jiffies\<close>, which wraps.
\<close>

section \<open>timer.c\<close>

record timer_mod = mod_state +
  jiffies :: "64 word"
  expires :: "64 word"
  tm_data :: "64 word"
  tm_pending :: bool
  tm_printed :: "64 word list"

definition timer_func :: "64 word \<Rightarrow> timer_mod \<Rightarrow> timer_mod" where
  "timer_func func_parameter s = s\<lparr>tm_printed := tm_printed s @ [func_parameter]\<rparr>"

definition timer_my_init :: "64 word \<Rightarrow> timer_mod \<Rightarrow> int \<times> timer_mod" where
  "timer_my_init HZ s =
     (let s1 = s\<lparr>tm_pending := False\<rparr>;
          s2 = s1\<lparr>expires := jiffies s1 + 13 * HZ, tm_data := 10\<rparr>
      in (0, s2\<lparr>tm_pending := True, ktr := Acquire TimerPending True # ktr s2\<rparr>))"

definition timer_my_exit :: "timer_mod \<Rightarrow> timer_mod" where
  "timer_my_exit s = (if tm_pending s then rel TimerPending (s\<lparr>tm_pending := False\<rparr>) else s)"

text \<open>
  What the kernel does with a pending timer at each tick: \<open>time_after_eq\<close> compares by the sign
  of the difference, and an expired timer is taken off the list before its function runs.
\<close>

definition time_after_eq :: "64 word \<Rightarrow> 64 word \<Rightarrow> bool" where
  "time_after_eq a b \<longleftrightarrow> 0 \<le> sint (a - b)"

definition timer_tick :: "timer_mod \<Rightarrow> timer_mod" where
  "timer_tick s = (let s1 = s\<lparr>jiffies := jiffies s + 1\<rparr> in
     if tm_pending s1 \<and> time_after_eq (jiffies s1) (expires s1)
     then timer_func (tm_data s1) ((rel TimerPending s1)\<lparr>tm_pending := False\<rparr>) else s1)"

section \<open>busy_wait.c\<close>

text \<open>
  \<open>js i\<close> is the value of \<open>jiffies\<close> that the i-th evaluation reads; the result is the number of
  evaluations of the loop condition, None if the loop never ends.
\<close>

partial_function (option) busy_loop :: "(nat \<Rightarrow> 64 word) \<Rightarrow> 64 word \<Rightarrow> nat \<Rightarrow> nat option" where
  "busy_loop js j i = (if js i < j then busy_loop js j (Suc i) else Some i)"

definition busy_myinit :: "64 word \<Rightarrow> (nat \<Rightarrow> 64 word) \<Rightarrow> (int \<times> nat) option" where
  "busy_myinit HZ js = map_option (Pair (-1)) (busy_loop js (js 0 + 10 * HZ) 1)"

section \<open>The kernel threads\<close>

text \<open>
  Where a thread is: before the message, before marking itself as sleeping, in
  \<open>schedule_timeout\<close> with some ticks left, in \<open>schedule()\<close>, before the test of
  \<open>kthread_should_stop\<close>, or gone.
\<close>

datatype tpc = Message | Mark | Timeout | Asleep nat | Yield | Check | Gone

record kthread =
  tpc :: tpc
  interruptible :: bool
  should_stop :: bool
  messages :: nat

definition new_kthread :: kthread where
  "new_kthread = \<lparr>tpc = Message, interruptible = False, should_stop = False, messages = 0\<rparr>"

text \<open>\<open>schedule_timeout\<close> returns at once if the thread has been woken since it marked itself.\<close>

definition enter_timeout :: "nat \<Rightarrow> tpc \<Rightarrow> kthread \<Rightarrow> kthread" where
  "enter_timeout n after t = (if interruptible t then t\<lparr>tpc := Asleep n\<rparr> else t\<lparr>tpc := after\<rparr>)"

text \<open>One step of the thread of \<open>sleep_wait.c\<close> and of \<open>kt.c\<close>; a sleeping thread makes none.\<close>

definition sw_run :: "nat \<Rightarrow> kthread \<Rightarrow> kthread" where
  "sw_run n t = (case tpc t of
       Message \<Rightarrow> t\<lparr>messages := messages t + 1, tpc := Mark\<rparr>
     | Mark \<Rightarrow> t\<lparr>interruptible := True, tpc := Timeout\<rparr>
     | Timeout \<Rightarrow> enter_timeout n Check t
     | Check \<Rightarrow> t\<lparr>tpc := if should_stop t then Gone else Message\<rparr>
     | _ \<Rightarrow> t)"

definition kt_run :: "nat \<Rightarrow> kthread \<Rightarrow> kthread" where
  "kt_run n t = (case tpc t of
       Message \<Rightarrow> t\<lparr>messages := messages t + 1, tpc := Mark\<rparr>
     | Mark \<Rightarrow> t\<lparr>interruptible := True, tpc := Timeout\<rparr>
     | Timeout \<Rightarrow> enter_timeout n Yield t
     | Yield \<Rightarrow> t\<lparr>tpc := Check\<rparr>
     | Check \<Rightarrow> t\<lparr>tpc := if should_stop t then Gone else Message\<rparr>
     | _ \<Rightarrow> t)"

text \<open>
  A tick of the clock, and \<open>kthread_stop\<close> of \<open>my_exit\<close>, which sets the flag and wakes the thread;
  \<open>after\<close> is where \<open>schedule_timeout\<close> returns to.
\<close>

definition kthread_tick :: "tpc \<Rightarrow> kthread \<Rightarrow> kthread" where
  "kthread_tick after t = (case tpc t of
       Asleep 0 \<Rightarrow> t\<lparr>interruptible := False, tpc := after\<rparr>
     | Asleep (Suc k) \<Rightarrow> if k = 0 then t\<lparr>interruptible := False, tpc := after\<rparr> else t\<lparr>tpc := Asleep k\<rparr>
     | _ \<Rightarrow> t)"

definition kthread_stop :: "tpc \<Rightarrow> kthread \<Rightarrow> kthread" where
  "kthread_stop after t = t\<lparr>should_stop := True, interruptible := False,
     tpc := (case tpc t of Asleep _ \<Rightarrow> after | p \<Rightarrow> p)\<rparr>"

text \<open>Loading: \<open>kthread_run\<close> may refuse; unloading waits for the thread, which then is gone.\<close>

record kt_mod = mod_state +
  sender_thread :: "kthread option"

definition kt_my_init :: "kenv \<Rightarrow> kt_mod \<Rightarrow> int \<times> kt_mod" where
  "kt_my_init E s =
     (let p = kr_ptr E (ktr s) KThread; s1 = s\<lparr>ktr := Acquire KThread (p \<noteq> ErrPtr) # ktr s\<rparr>
      in if p = ErrPtr then (-1, s1) else (0, s1\<lparr>sender_thread := Some new_kthread\<rparr>))"

definition kt_my_exit :: "kt_mod \<Rightarrow> kt_mod" where
  "kt_my_exit s = (rel KThread s)\<lparr>sender_thread := None\<rparr>"

text \<open>\<open>sleep_wait.c\<close> loads and unloads its thread in the same way.\<close>

definition sw_my_init :: "kenv \<Rightarrow> kt_mod \<Rightarrow> int \<times> kt_mod" where "sw_my_init = kt_my_init"
definition sw_my_exit :: "kt_mod \<Rightarrow> kt_mod" where "sw_my_exit = kt_my_exit"

section \<open>workq_demo.c\<close>

record wq_mod = mod_state +
  wq_runs :: nat
  wq_queued :: bool

definition wqd_func :: "wq_mod \<Rightarrow> wq_mod" where
  "wqd_func s = s\<lparr>wq_runs := wq_runs s + 1\<rparr>"

text \<open>The worker thread takes the item off the queue before it runs it.\<close>

definition wq_worker :: "wq_mod \<Rightarrow> wq_mod" where
  "wq_worker s = (if wq_queued s then wqd_func ((rel WorkPending s)\<lparr>wq_queued := False\<rparr>) else s)"

definition workq_demo_init :: "wq_mod \<Rightarrow> int \<times> wq_mod" where
  "workq_demo_init s = (let s1 = s\<lparr>wq_queued := False\<rparr> in
     (0, s1\<lparr>wq_queued := True, ktr := Acquire WorkPending True # ktr s1\<rparr>))"

text \<open>\<open>flush_scheduled_work\<close> returns when the queued item has run.\<close>

definition workq_demo_exit :: "wq_mod \<Rightarrow> wq_mod" where
  "workq_demo_exit s = wq_worker s"

section \<open>The modules as instances of the contract\<close>

definition timer_owned :: "timer_mod \<Rightarrow> resource multiset" where
  "timer_owned s = (if tm_pending s then {#TimerPending#} else {#})"

definition wqd_owned :: "wq_mod \<Rightarrow> resource multiset" where
  "wqd_owned s = (if wq_queued s then {#WorkPending#} else {#})"

interpretation timer_mod: clean_module "\<lambda>E s. Inr (timer_my_init (HZ E) s)" timer_my_exit ktr timer_owned for HZ
  by unfold_locales (auto simp: timer_my_init_def timer_my_exit_def timer_owned_def rel_def Let_def)

interpretation kt_mod: clean_module "\<lambda>E s. Inr (kt_my_init E s)" kt_my_exit ktr "\<lambda>_. {#KThread#}"
  by unfold_locales (auto simp: kt_my_init_def kt_my_exit_def rel_def Let_def split: if_splits)

interpretation sw_mod: clean_module "\<lambda>E s. Inr (sw_my_init E s)" sw_my_exit ktr "\<lambda>_. {#KThread#}"
  unfolding sw_my_init_def sw_my_exit_def by (rule kt_mod.clean_module_axioms)

interpretation wqd_mod: clean_module "\<lambda>E s. Inr (workq_demo_init s)" workq_demo_exit ktr wqd_owned
  by unfold_locales (auto simp: workq_demo_init_def workq_demo_exit_def wq_worker_def wqd_func_def wqd_owned_def rel_def Let_def)

section \<open>The timer\<close>

text \<open>Comparison by difference is right for values less than half the range apart.\<close>

lemma time_after_eq_near:
  assumes "a < 2 ^ 63" and "b < 2 ^ 63"
  shows "time_after_eq (j + of_nat a) (j + of_nat b) \<longleftrightarrow> b \<le> a"
proof -
  have sint: "sint (word_of_int k :: 64 word) = signed_take_bit 63 k" for k by (simp add: signed_of_int)
  have "j + of_nat a - (j + of_nat b) = (word_of_int (int a - int b) :: 64 word)" by simp
  then have "sint (j + of_nat a - (j + of_nat b)) = signed_take_bit 63 (int a - int b)"
    by (simp only: sint)
  also have "\<dots> = int a - int b"
    using assms by (intro signed_take_bit_int_eq_self) simp_all
  finally show ?thesis by (simp add: time_after_eq_def)
qed

text \<open>The state after \<open>n\<close> ticks, before and after the timer has expired.\<close>

definition loaded_timer :: "64 word \<Rightarrow> timer_mod \<Rightarrow> timer_mod" where
  "loaded_timer HZ s = snd (timer_my_init HZ s)"

lemma loaded_timer_simps [simp]:
  "jiffies (loaded_timer HZ s) = jiffies s" "expires (loaded_timer HZ s) = jiffies s + of_nat (13 * unat HZ)"
  "tm_data (loaded_timer HZ s) = 10" "tm_pending (loaded_timer HZ s)" "tm_printed (loaded_timer HZ s) = tm_printed s"
  by (simp_all add: loaded_timer_def timer_my_init_def Let_def)

lemma ticks_jiffies: "jiffies ((timer_tick ^^ n) s) = jiffies s + of_nat n"
  by (induction n) (simp_all add: timer_tick_def timer_func_def Let_def rel_def)

lemma ticks_idle:
  assumes "\<not> tm_pending s"
  shows "(timer_tick ^^ n) s = s\<lparr>jiffies := jiffies s + of_nat n\<rparr>"
  using assms by (induction n) (simp_all add: timer_tick_def Let_def add.assoc)

lemma timer_tick_at:
  "timer_tick (L\<lparr>jiffies := j + of_nat n\<rparr>) =
    (if tm_pending L \<and> time_after_eq (j + of_nat (Suc n)) (expires L)
     then timer_func (tm_data L) ((rel TimerPending (L\<lparr>jiffies := j + of_nat (Suc n)\<rparr>))\<lparr>tm_pending := False\<rparr>)
     else L\<lparr>jiffies := j + of_nat (Suc n)\<rparr>)"
  by (simp add: timer_tick_def rel_def Let_def ac_simps)

lemma loaded_timer_due:
  assumes "13 * unat HZ < 2 ^ 63" and "n \<le> 13 * unat HZ"
  shows "time_after_eq (jiffies s + of_nat n) (expires (loaded_timer HZ s)) \<longleftrightarrow> n = 13 * unat HZ"
  using assms by (simp only: loaded_timer_simps, subst time_after_eq_near) auto

lemma ticks_before:
  assumes "13 * unat HZ < 2 ^ 63" and "n < 13 * unat HZ"
  shows "(timer_tick ^^ n) (loaded_timer HZ s) = (loaded_timer HZ s)\<lparr>jiffies := jiffies s + of_nat n\<rparr>"
  using assms(2)
proof (induction n)
  case (Suc n)
  then show ?case
    using loaded_timer_due [OF assms(1), of "Suc n" s] by (simp add: timer_tick_at del: of_nat_Suc)
next
  case 0
  have "(loaded_timer HZ s)\<lparr>jiffies := jiffies s\<rparr> = (loaded_timer HZ s)\<lparr>jiffies := jiffies (loaded_timer HZ s)\<rparr>" by simp
  then show ?case by simp
qed

lemma tick_expires:
  assumes "13 * unat HZ < 2 ^ 63" and "Suc n = 13 * unat HZ"
  shows "(timer_tick ^^ Suc n) (loaded_timer HZ s) = timer_func 10
     ((rel TimerPending ((loaded_timer HZ s)\<lparr>jiffies := jiffies s + of_nat (Suc n)\<rparr>))\<lparr>tm_pending := False\<rparr>)"
proof -
  have before: "(timer_tick ^^ n) (loaded_timer HZ s) = (loaded_timer HZ s)\<lparr>jiffies := jiffies s + of_nat n\<rparr>"
    using assms(2) by (intro ticks_before [OF assms(1)]) simp
  have due: "time_after_eq (jiffies s + of_nat (Suc n)) (expires (loaded_timer HZ s))"
    using loaded_timer_due [OF assms(1) eq_refl [OF assms(2)], of s] assms(2) by argo
  show ?thesis
    unfolding funpow.simps comp_apply before timer_tick_at loaded_timer_simps(3,4) using due
    by (simp del: of_nat_Suc loaded_timer_simps(2))
qed



section \<open>The busy wait\<close>

text \<open>The first evaluation of the condition that fails ends the loop.\<close>

lemma busy_loop_until:
  assumes "i \<le> n" and "\<not> js n < j" and "\<And>k. i \<le> k \<Longrightarrow> k < n \<Longrightarrow> js k < j"
  shows "busy_loop js j i = Some n"
  using assms
proof (induction "n - i" arbitrary: i)
  case 0
  then show ?case by (subst busy_loop.simps) simp
next
  case (Suc d)
  then have "js i < j" "busy_loop js j (Suc i) = Some n" by simp_all
  then show ?case by (subst busy_loop.simps) simp
qed

lemma unat_plus_of_nat:
  fixes w :: "64 word"
  assumes "n < 2 ^ 64"
  shows "unat (w + of_nat n) = (if unat w + n < 2 ^ 64 then unat w + n else unat w + n - 2 ^ 64)"
proof -
  have "unat w < 2 ^ 64" using unsigned_less [of w, where 'a = nat] by simp
  moreover have "unat (of_nat n :: 64 word) = n"
    using assms by (simp add: unsigned_of_nat take_bit_nat_eq_self)
  ultimately show ?thesis
    using assms by (simp add: unat_word_ariths(1) mod_if)
qed

text \<open>\<open>t i\<close> ticks have passed when \<open>jiffies\<close> is read for the i-th time, at least once in every tick.\<close>

definition clock_reads :: "(nat \<Rightarrow> 64 word) \<Rightarrow> (nat \<Rightarrow> nat) \<Rightarrow> bool" where
  "clock_reads js t \<longleftrightarrow> t 0 = 0 \<and> (\<forall>i. js i = js 0 + of_nat (t i)) \<and> (\<forall>i. t i \<le> t (Suc i) \<and> t (Suc i) \<le> Suc (t i))
     \<and> (\<forall>n. \<exists>i. n \<le> t i)"

lemma first_read:
  assumes "clock_reads js t" and "0 < n"
  obtains i where "0 < i" "t i = n" "\<And>k. k < i \<Longrightarrow> t k < n"
proof -
  from assms(1) have t: "t 0 = 0" "\<And>i. t (Suc i) \<le> Suc (t i)" and ex: "\<exists>i. n \<le> t i"
    unfolding clock_reads_def by blast+
  let ?i = "LEAST i. n \<le> t i"
  have least: "n \<le> t ?i" by (rule LeastI_ex [OF ex])
  have less: "t k < n" if "k < ?i" for k using not_less_Least [OF that] by simp
  have pos: "0 < ?i" using least t(1) assms(2) by (metis gr0I not_le)
  then obtain k where k: "?i = Suc k" by (cases ?i) auto
  then have "t ?i \<le> Suc (t k)" "t k < n" using t(2) [of k] less [of k] by simp_all
  then show thesis using that [OF pos _ less] least by simp
qed

text \<open>
  C38. The module that waits by spinning always returns -1, so it is never loaded, and it spins for
  exactly 10*HZ ticks unless \<open>jiffies\<close> is about to wrap; then the comparison with \<open><\<close> fails at
  once and there is no delay at all.
\<close>

theorem busy_wait_duration:
  assumes "clock_reads js t" and "0 < unat HZ" and "10 * unat HZ < 2 ^ 64"
  shows "(unat (js 0) + 10 * unat HZ < 2 ^ 64 \<longrightarrow> (\<exists>n. busy_myinit HZ js = Some (-1, n) \<and> t n = 10 * unat HZ))
     \<and> (2 ^ 64 \<le> unat (js 0) + 10 * unat HZ \<longrightarrow> unat (js 0) + t 1 < 2 ^ 64 \<longrightarrow> busy_myinit HZ js = Some (-1, 1))"
proof -
  have read: "js i = js 0 + of_nat (t i)" for i using assms(1) unfolding clock_reads_def by blast
  note un = unat_plus_of_nat [where w = "js 0"]
  have j: "js 0 + 10 * HZ = js 0 + of_nat (10 * unat HZ)" by simp
  note uj = un [OF assms(3)]
  show ?thesis
  proof (intro conjI impI)
    assume fits: "unat (js 0) + 10 * unat HZ < 2 ^ 64"
    obtain n where n: "0 < n" "t n = 10 * unat HZ" "\<And>k. k < n \<Longrightarrow> t k < 10 * unat HZ"
      by (rule first_read [OF assms(1), of "10 * unat HZ"]) (use assms(2) in auto)
    have "busy_loop js (js 0 + of_nat (10 * unat HZ)) 1 = Some n"
    proof (rule busy_loop_until)
      show "\<not> js n < js 0 + of_nat (10 * unat HZ)" unfolding read [of n] n(2) by simp
      show "js k < js 0 + of_nat (10 * unat HZ)" if "k < n" for k
        unfolding read [of k] word_less_nat_alt using n(3) [OF that] uj un [of "t k"] fits assms(3) by (simp split: if_splits)
    qed (use n(1) in simp)
    then show "\<exists>n. busy_myinit HZ js = Some (-1, n) \<and> t n = 10 * unat HZ"
      using n(2) unfolding busy_myinit_def j by auto
  next
    assume wrap: "2 ^ 64 \<le> unat (js 0) + 10 * unat HZ" and soon: "unat (js 0) + t 1 < 2 ^ 64"
    have "busy_loop js (js 0 + of_nat (10 * unat HZ)) 1 = Some 1"
    proof (rule busy_loop_until)
      show "\<not> js 1 < js 0 + of_nat (10 * unat HZ)"
        unfolding read [of 1] word_less_nat_alt using uj un [of "t 1"] wrap soon assms(3) by (simp split: if_splits)
    qed simp_all
    then show "busy_myinit HZ js = Some (-1, 1)" unfolding busy_myinit_def j by simp
  qed
qed

lemma busy_wait_duration_witness:
  "(\<exists>n. busy_myinit 100 (\<lambda>i. of_nat i) = Some (-1, n) \<and> n = 1000) \<and> busy_myinit 100 (\<lambda>i. of_nat i + 0xFFFFFFFFFFFFFC7C) = Some (-1, 1)"
proof -
  have r: "clock_reads (\<lambda>i. of_nat i) (\<lambda>i. i)" "clock_reads (\<lambda>i. of_nat i + 0xFFFFFFFFFFFFFC7C) (\<lambda>i. i)"
    by (auto simp: clock_reads_def)
  show ?thesis using busy_wait_duration [OF r(1), of 100] busy_wait_duration [OF r(2), of 100] by simp
qed

section \<open>The kernel threads\<close>

text \<open>
  A step of a thread with its interval \<open>n\<close>: while it is asleep only time passes, otherwise it runs.
\<close>

inductive thr_step :: "(nat \<Rightarrow> kthread \<Rightarrow> kthread) \<Rightarrow> tpc \<Rightarrow> nat \<Rightarrow> kthread \<Rightarrow> kthread \<Rightarrow> bool" for run after n where
  tick: "tpc t = Asleep k \<Longrightarrow> thr_step run after n t (kthread_tick after t)"
| run: "tpc t \<noteq> Gone \<Longrightarrow> (\<And>k. tpc t \<noteq> Asleep k) \<Longrightarrow> thr_step run after n t (run n t)"

inductive_cases thr_stepE: "thr_step run after n t u"

text \<open>The states of a thread in the life of its module; the stop may come at any time.\<close>

inductive thr_reach :: "(nat \<Rightarrow> kthread \<Rightarrow> kthread) \<Rightarrow> tpc \<Rightarrow> nat \<Rightarrow> kthread \<Rightarrow> bool" for run after n where
  start: "thr_reach run after n new_kthread"
| step: "thr_reach run after n t \<Longrightarrow> thr_step run after n t u \<Longrightarrow> thr_reach run after n u"
| stop: "thr_reach run after n t \<Longrightarrow> thr_reach run after n (kthread_stop after t)"

text \<open>What unloading can rely on.\<close>

definition stops_within :: "(nat \<Rightarrow> kthread \<Rightarrow> kthread) \<Rightarrow> tpc \<Rightarrow> nat \<Rightarrow> bool" where
  "stops_within run after n \<longleftrightarrow> (\<forall>t. thr_reach run after n t \<longrightarrow>
     (tpc t = Gone \<longrightarrow> should_stop t)
     \<and> (\<forall>k u. (thr_step run after n ^^ k) (kthread_stop after t) u \<longrightarrow>
          k \<le> n + 6 \<and> messages u \<le> messages t + 1 \<and> (tpc u = Gone \<or> (\<exists>v. thr_step run after n u v)))
     \<and> (tpc t = Mark \<longrightarrow> tpc (run n (run n (kthread_stop after t))) = Asleep n)
     \<and> (\<forall>k. tpc t = Asleep k \<longrightarrow> tpc (kthread_stop after t) = after))"

text \<open>The contract of a loop around \<open>schedule_timeout\<close> that tests \<open>kthread_should_stop\<close>.\<close>

locale stoppable_thread =
  fixes run :: "nat \<Rightarrow> kthread \<Rightarrow> kthread" and after :: tpc
  assumes after: "after = Check \<or> after = Yield"
    and run_message: "tpc t = Message \<Longrightarrow> run n t = t\<lparr>messages := messages t + 1, tpc := Mark\<rparr>"
    and run_mark: "tpc t = Mark \<Longrightarrow> run n t = t\<lparr>interruptible := True, tpc := Timeout\<rparr>"
    and run_timeout: "tpc t = Timeout \<Longrightarrow> run n t = enter_timeout n after t"
    and run_yield: "tpc t = Yield \<Longrightarrow> after = Yield \<Longrightarrow> run n t = t\<lparr>tpc := Check\<rparr>"
    and run_check: "tpc t = Check \<Longrightarrow> run n t = t\<lparr>tpc := if should_stop t then Gone else Message\<rparr>"
begin

definition valid :: "nat \<Rightarrow> kthread \<Rightarrow> bool" where
  "valid n t \<longleftrightarrow> (tpc t = Yield \<longrightarrow> after = Yield) \<and> (tpc t = Gone \<longrightarrow> should_stop t)
     \<and> (\<forall>k. tpc t = Asleep k \<longrightarrow> k \<le> n \<and> interruptible t) \<and> (interruptible t \<longrightarrow> tpc t = Timeout \<or> (\<exists>k. tpc t = Asleep k))"

fun rank :: "nat \<Rightarrow> tpc \<Rightarrow> nat" where
  "rank n Message = n + 6"
| "rank n Mark = n + 5"
| "rank n Timeout = n + 4"
| "rank n (Asleep k) = k + 3"
| "rank n Yield = 2"
| "rank n Check = 1"
| "rank n Gone = 0"

lemmas run_laws = run_message run_mark run_timeout run_yield run_check enter_timeout_def

lemma step_valid:
  assumes "thr_step run after n t u" and "valid n t"
  shows "valid n u"
  using assms after unfolding valid_def
  by (elim thr_stepE; cases "tpc t") (auto simp: run_laws kthread_tick_def split: nat.splits if_splits)

lemma stop_valid: "valid n t \<Longrightarrow> valid n (kthread_stop after t)"
  using after unfolding valid_def by (cases "tpc t") (auto simp: kthread_stop_def)

lemma reach_valid: "thr_reach run after n t \<Longrightarrow> valid n t"
proof (induction rule: thr_reach.induct)
  case start
  then show ?case by (simp add: valid_def new_kthread_def)
qed (auto intro: step_valid stop_valid)

text \<open>Once asked to stop, every step brings the thread nearer to its end.\<close>

lemma step_rank:
  assumes "thr_step run after n t u" and "valid n t" and "should_stop t"
  shows "rank n (tpc u) < rank n (tpc t) \<and> should_stop u"
  using assms after unfolding valid_def
  by (elim thr_stepE; cases "tpc t") (auto simp: run_laws kthread_tick_def split: nat.splits if_splits)

lemma step_messages:
  assumes "thr_step run after n t u" and "valid n t" and "should_stop t"
  shows "messages u + (if tpc u = Message then 1 else 0) \<le> messages t + (if tpc t = Message then 1 else 0)"
  using assms after unfolding valid_def
  by (elim thr_stepE; cases "tpc t") (auto simp: run_laws kthread_tick_def split: nat.splits if_splits)

lemma steps_bounded:
  "(thr_step run after n ^^ k) t u \<Longrightarrow> valid n t \<Longrightarrow> should_stop t \<Longrightarrow>
     k + rank n (tpc u) \<le> rank n (tpc t) \<and> valid n u \<and> should_stop u
     \<and> messages u + (if tpc u = Message then 1 else 0) \<le> messages t + (if tpc t = Message then 1 else 0)"
proof (induction k arbitrary: u)
  case (Suc k)
  from Suc.prems(1) obtain v where v: "(thr_step run after n ^^ k) t v" "thr_step run after n v u" by auto
  from Suc.IH [OF v(1) Suc.prems(2,3)] step_rank [OF v(2)] step_messages [OF v(2)] step_valid [OF v(2)]
  show ?case by fastforce
qed simp

lemma rank_bound: "valid n t \<Longrightarrow> rank n (tpc t) \<le> n + 6"
  by (cases "tpc t") (auto simp: valid_def)

lemma not_gone_steps: "tpc t \<noteq> Gone \<Longrightarrow> \<exists>u. thr_step run after n t u"
proof (cases "\<exists>k. tpc t = Asleep k")
  case True
  then show ?thesis by (blast intro: thr_step.tick)
next
  case False
  then show "tpc t \<noteq> Gone \<Longrightarrow> ?thesis" by (blast intro: thr_step.run)
qed

lemma stops:
  assumes "thr_reach run after n t" and "(thr_step run after n ^^ k) (kthread_stop after t) u"
  shows "k \<le> n + 6 \<and> messages u \<le> messages t + 1 \<and> (tpc u = Gone \<or> (\<exists>v. thr_step run after n u v))"
proof -
  have "valid n (kthread_stop after t)" by (rule stop_valid [OF reach_valid [OF assms(1)]])
  with steps_bounded [OF assms(2)] rank_bound [of n "kthread_stop after t"] not_gone_steps [of u n]
  show ?thesis by (fastforce simp: kthread_stop_def split: if_splits)
qed

text \<open>A stop that comes just before the thread marks itself as sleeping is not noticed for a whole interval.\<close>

lemma stop_unnoticed:
  "tpc t = Mark \<Longrightarrow> tpc (run n (run n (kthread_stop after t))) = Asleep n"
  by (simp add: kthread_stop_def run_laws)

lemma stop_noticed: "tpc t = Asleep k \<Longrightarrow> tpc (kthread_stop after t) = after"
  by (simp add: kthread_stop_def)

lemma all_stop: "stops_within run after n"
  unfolding stops_within_def
proof (intro allI impI)
  fix t assume t: "thr_reach run after n t"
  then have "tpc t = Gone \<longrightarrow> should_stop t" using reach_valid by (simp add: valid_def)
  then show "(tpc t = Gone \<longrightarrow> should_stop t)
     \<and> (\<forall>k u. (thr_step run after n ^^ k) (kthread_stop after t) u \<longrightarrow>
          k \<le> n + 6 \<and> messages u \<le> messages t + 1 \<and> (tpc u = Gone \<or> (\<exists>v. thr_step run after n u v)))
     \<and> (tpc t = Mark \<longrightarrow> tpc (run n (run n (kthread_stop after t))) = Asleep n)
     \<and> (\<forall>k. tpc t = Asleep k \<longrightarrow> tpc (kthread_stop after t) = after)"
    using stops [OF t] stop_unnoticed stop_noticed by blast
qed

end

interpretation sw: stoppable_thread sw_run Check
  by unfold_locales (auto simp: sw_run_def)

interpretation kt: stoppable_thread kt_run Yield
  by unfold_locales (auto simp: kt_run_def)

text \<open>
  C39. Both threads end only when unloading asks them to, and then within their sleeping interval of
  \<open>n\<close> ticks and six steps, printing at most one more message, whatever the interleaving: unloading never hangs.  A thread that is
  asleep is woken at once; but a stop between the last test and the marking as sleeping is lost, and
  unloading waits for the whole interval.
\<close>

theorem kthreads_stop: "stops_within sw_run Check n \<and> stops_within kt_run Yield n"
  by (intro conjI sw.all_stop kt.all_stop)

lemma kthreads_stop_witness:
  "thr_reach kt_run Yield 300 (kt_run 300 new_kthread)
     \<and> tpc (kt_run 300 (kt_run 300 (kthread_stop Yield (kt_run 300 new_kthread)))) = Asleep 300"
proof -
  have r: "thr_reach kt_run Yield 300 (kt_run 300 new_kthread)"
    by (rule thr_reach.step [OF thr_reach.start thr_step.run]) (simp_all add: new_kthread_def)
  have "tpc (kt_run 300 new_kthread) = Mark" by (simp add: kt_run_def new_kthread_def)
  with r show ?thesis using kthreads_stop [of 300] unfolding stops_within_def by blast
qed

section \<open>The work queue\<close>

text \<open>
  The work item of the demonstration runs exactly once between loading and the end of
  unloading, whenever the worker gets to it, and never afterwards.
\<close>

theorem workq_runs_once:
  "wq_runs (workq_demo_exit ((wq_worker ^^ k) (snd (workq_demo_init s)))) = wq_runs s + 1
   \<and> (wq_worker ^^ m) (workq_demo_exit ((wq_worker ^^ k) (snd (workq_demo_init s))))
      = workq_demo_exit ((wq_worker ^^ k) (snd (workq_demo_init s)))"
proof -
  let ?s0 = "snd (workq_demo_init s)"
  have off: "(wq_worker ^^ j) t = t" if "\<not> wq_queued t" for j t
    using that by (induction j) (simp_all add: wq_worker_def)
  have one: "\<not> wq_queued (wq_worker ?s0)" "wq_runs (wq_worker ?s0) = wq_runs s + 1"
    by (simp_all add: wq_worker_def workq_demo_init_def wqd_func_def rel_def Let_def)
  have "workq_demo_exit ((wq_worker ^^ k) ?s0) = wq_worker ?s0"
  proof (cases k)
    case (Suc j)
    have "(wq_worker ^^ Suc j) ?s0 = wq_worker ?s0"
      using off [OF one(1), of j] by (simp add: funpow_swap1)
    then show ?thesis using Suc off [OF one(1), of 1] by (simp add: workq_demo_exit_def)
  qed (simp add: workq_demo_exit_def)
  then show ?thesis using off [OF one(1)] one(2) by simp
qed

end
