(* ===== verification/Module_Claims.thy ===== *)
theory Module_Claims
  imports Calculator Port_Drivers Serial_Driver Video_Ram Sleepy_Claims Net_Modules Kernel_Mechs
begin

text \<open>
  Properties of the drivers as a group: what loading and unloading leaves behind,
  and what the copies between user space and the kernel buffers do.
\<close>

section \<open>Loading and unloading\<close>

text \<open>A successful load followed by an unload returns everything, and nothing twice.\<close>

definition balanced :: "(kenv \<Rightarrow> 's \<Rightarrow> (int \<times> 's) res) \<Rightarrow> ('s \<Rightarrow> 's) \<Rightarrow> ('s \<Rightarrow> kreq list) \<Rightarrow> bool" where
  "balanced ld unld hist \<longleftrightarrow> (\<forall>E s s'. ld E s = Inr (0, s') \<longrightarrow>
     held (hist (unld s')) = held (hist s) \<and> spurious (hist (unld s')) = spurious (hist s))"

text \<open>A load that fails without a fault leaves nothing behind.\<close>

definition fails_clean :: "(kenv \<Rightarrow> 's \<Rightarrow> (int \<times> 's) res) \<Rightarrow> ('s \<Rightarrow> kreq list) \<Rightarrow> bool" where
  "fails_clean ld hist \<longleftrightarrow> (\<forall>E s r s'. ld E s = Inr (r, s') \<longrightarrow> r \<noteq> 0 \<longrightarrow>
     held (hist s') = held (hist s) \<and> spurious (hist s') = spurious (hist s))"

text \<open>
  C29. Nine of the character drivers, both simple network modules, the timer, both kernel threads and the
  work queue give back on unloading exactly what a successful load has taken, for every pattern of
  failing requests; eight of them also leave nothing behind when the load fails.
\<close>

theorem modules_balanced:
  "balanced memory_init memory_exit ktr \<and> balanced reg_CharDevice_init reg_CharDevice_exit ktr
   \<and> balanced dyn_CharDevice_init dyn_CharDevice_exit ktr \<and> balanced ioctl_CharDevice_init ioctl_CharDevice_exit ktr
   \<and> balanced calc_CharDevice_init calc_CharDevice_exit ktr \<and> balanced clock_CharDevice_init clock_CharDevice_exit ktr
   \<and> balanced intr1_init_module intr1_cleanup_module ktr \<and> balanced slpy_init slpy_exit ktr
   \<and> balanced sleepy_init_module sleepy_cleanup_module ktr
   \<and> balanced (stub_my_init N) stub_my_exit ktr \<and> balanced (tx_my_init N) tx_my_exit ktr
   \<and> balanced (\<lambda>_ s. Inr (timer_my_init HZ s)) timer_my_exit ktr \<and> balanced (\<lambda>E s. Inr (kt_my_init E s)) kt_my_exit ktr
   \<and> balanced (\<lambda>E s. Inr (sw_my_init E s)) sw_my_exit ktr \<and> balanced (\<lambda>_ s. Inr (workq_demo_init s)) workq_demo_exit ktr
   \<and> fails_clean (stub_my_init N) ktr \<and> fails_clean (tx_my_init N) ktr
   \<and> fails_clean (\<lambda>E s. Inr (kt_my_init E s)) ktr \<and> fails_clean (\<lambda>E s. Inr (sw_my_init E s)) ktr
   \<and> fails_clean memory_init ktr \<and> fails_clean intr1_init_module ktr \<and> fails_clean slpy_init ktr
   \<and> fails_clean sleepy_init_module ktr"
  unfolding balanced_def fails_clean_def
  by (intro conjI allI impI)
    (simp_all add: stubmod.load_unload txmod.load_unload stubmod.load_fail txmod.load_fail
      timer_mod.load_unload [where HZ = "\<lambda>_. HZ", simplified] kt_mod.load_unload sw_mod.load_unload
      wqd_mod.load_unload kt_mod.load_fail sw_mod.load_fail memory.load_unload reg.load_unload dyn.load_unload ioctl.load_unload calc.load_unload
      clock.load_unload intr1.load_unload slpy_mod.load_unload sleepy_mod.load_unload
      memory.load_fail intr1.load_fail slpy_mod.load_fail sleepy_mod.load_fail)

lemma modules_balanced_witness:
  "\<exists>s'. memory_init easy_kernel \<lparr>ktr = [], memory_buffer = None\<rparr> = Inr (0, s') \<and> held (ktr (memory_exit s')) = {#}"
proof -
  obtain s' where "memory_init easy_kernel \<lparr>ktr = [], memory_buffer = None\<rparr> = Inr (0, s')"
    by (simp add: memory_init_def load_defs easy_kernel_def)
  then show ?thesis using modules_balanced by (fastforce simp: balanced_def)
qed

text \<open>A kernel that grants device numbers and the cdev structure but refuses \<open>cdev_add\<close>.\<close>

definition refuses_cdev :: "kenv \<Rightarrow> bool" where
  "refuses_cdev E \<longleftrightarrow> (\<forall>tr maj n. 0 \<le> kr_int E tr (ChrRegion maj 0 n) \<and> kr_ptr E tr CdevObj = ValidPtr
     \<and> kr_int E tr (CdevReg maj) < 0)"

definition leaks_region :: "(kenv \<Rightarrow> 's \<Rightarrow> (int \<times> 's) res) \<Rightarrow> ('s \<Rightarrow> kreq list) \<Rightarrow> kenv \<Rightarrow> bool" where
  "leaks_region ld hist E \<longleftrightarrow> (\<forall>s. \<exists>maj n s'. ld E s = Inr (-1, s')
     \<and> held (hist s') = held (hist s) + {#ChrRegion maj 0 n, CdevObj#})"

lemma refuses_cdevD:
  assumes "refuses_cdev E"
  shows "\<not> kr_int E tr (ChrRegion maj 0 n) < 0" "kr_ptr E tr CdevObj = ValidPtr" "\<not> 0 \<le> kr_int E tr (CdevReg maj)"
    "kr_int E tr (CdevReg maj) < 0" "0 \<le> kr_int E tr (ChrRegion maj 0 n)"
  using assms by (simp_all add: refuses_cdev_def flip: not_le)

lemma add_my_cdev_refused:
  assumes "refuses_cdev E"
  shows "add_my_cdev E major s = Inr (-1, s\<lparr>ktr := [Acquire (CdevReg major) False, Acquire CdevObj True] @ ktr s\<rparr>)"
  using refuses_cdevD [OF assms] by (simp add: add_my_cdev_def load_defs)

text \<open>
  The six drivers that build their own cdev leak when \<open>cdev_add\<close> fails: the load returns
  -1, so the module is gone, but the device numbers and the cdev structure stay allocated.
\<close>

theorem cdev_add_failure_leaks:
  assumes "refuses_cdev E"
  shows "leaks_region reg_CharDevice_init ktr E \<and> leaks_region dyn_CharDevice_init ktr E
     \<and> leaks_region ioctl_CharDevice_init ktr E \<and> leaks_region calc_CharDevice_init ktr E
     \<and> leaks_region clock_CharDevice_init ktr E \<and> leaks_region serial_CharDevice_init ktr E"
  unfolding leaks_region_def reg_CharDevice_init_def dyn_CharDevice_init_def ioctl_CharDevice_init_def
    calc_CharDevice_init_def clock_CharDevice_init_def serial_CharDevice_init_def
  using refuses_cdevD [OF assms] by (simp add: add_my_cdev_refused [OF assms] acq_int_def Let_def)

lemma cdev_add_failure_leaks_witness:
  "\<exists>maj n s'. serial_CharDevice_init (easy_kernel\<lparr>kr_int := \<lambda>tr r. case r of CdevReg _ \<Rightarrow> - ENOMEM | _ \<Rightarrow> 0\<rparr>) fresh_serial
      = Inr (-1, s') \<and> held (ktr s') = held (ktr fresh_serial) + {#ChrRegion maj 0 n, CdevObj#}"
  using cdev_add_failure_leaks [of "easy_kernel\<lparr>kr_int := \<lambda>tr r. case r of CdevReg _ \<Rightarrow> - ENOMEM | _ \<Rightarrow> 0\<rparr>"]
  by (simp add: refuses_cdev_def easy_kernel_def leaks_region_def)

section \<open>User data\<close>

text \<open>
  The memory device is a one-byte cell: it reads as zero after loading; a write of any
  positive length returns 1 and stores its first byte, and a read of any length returns 1 with
  the byte stored last.
\<close>

theorem memory_cell:
  assumes "memory_init E s = Inr (0, s1)" and "room \<noteq> 0"
  shows "memory_read room cnt s1 = Inr (1, [0])
     \<and> (\<exists>s2. memory_write (x # xs) cnt2 s1 = Inr (1, s2) \<and> memory_read room cnt s2 = Inr (1, [x])
        \<and> (\<exists>s3. memory_write (y # ys) cnt2 s2 = Inr (1, s3) \<and> memory_read room cnt s3 = Inr (1, [y])))"
  using assms by (auto simp: memory_init_def memory_read_def memory_write_def copy_to_user_def load_defs
      Suc_le_eq split: if_splits)

lemma memory_cell_witness:
  "\<exists>s1 s2. memory_init easy_kernel \<lparr>ktr = [], memory_buffer = None\<rparr> = Inr (0, s1)
     \<and> memory_write [65, 66] 2 s1 = Inr (1, s2) \<and> memory_read 1 1 s2 = Inr (1, [65])"
proof -
  obtain s1 where *: "memory_init easy_kernel \<lparr>ktr = [], memory_buffer = None\<rparr> = Inr (0, s1)"
    by (simp add: memory_init_def load_defs easy_kernel_def)
  from memory_cell [OF *, of 1 1 65 "[66]" 2] show ?thesis using * by auto
qed

text \<open>
  Each write method with a buffer on the kernel stack copies as many bytes as the user asks
  for: a count above the size of the buffer overwrites the stack, in all four drivers that have
  one and through every minor of the calculator; an unreadable user buffer within the size
  gives -EFAULT; otherwise the count is returned, unless no NUL is in the buffer, when printing
  it runs out of it.
\<close>

theorem kbuf_writes:
  "(length stk < n \<longrightarrow> reg_write stk ub n = Inl Overrun \<and> dyn_write stk ub n = Inl Overrun
      \<and> ioctl_write stk ub n = Inl Overrun \<and> (f_op s \<noteq> None \<longrightarrow> vfs_write stk ub n s = Inl Overrun))
   \<and> (n \<le> length stk \<longrightarrow> length ub < n \<longrightarrow> (\<exists>kb. reg_write stk ub n = Inr (- EFAULT, kb)
      \<and> dyn_write stk ub n = Inr (- EFAULT, kb) \<and> ioctl_write stk ub n = Inr (- EFAULT, kb))
      \<and> (f_op s \<noteq> None \<longrightarrow> vfs_write stk ub n s = Inr (- EFAULT, s)))
   \<and> (n \<le> length stk \<longrightarrow> n \<le> length ub \<longrightarrow>
      (let kb = take n ub @ drop n stk; out = (if 0 \<in> set kb then Inr (int n, kb) else Inl Overrun)
       in reg_write stk ub n = out \<and> dyn_write stk ub n = out \<and> ioctl_write stk ub n = out))"
proof -
  note w = reg_write_def dyn_write_def ioctl_write_def
  have v: "vfs_write stk ub n s = Inl Overrun" if "length stk < n" "f_op s \<noteq> None"
    using that by (auto simp: vfs_write_def NAME_write_add_def NAME_write_sub_def NAME_write_mul_def
        NAME_write_div_def calc_write_def kbuf_write_overrun split: calc_op.split)
  have f: "vfs_write stk ub n s = Inr (- EFAULT, s)" if "n \<le> length stk" "length ub < n" "f_op s \<noteq> None"
    using that by (auto simp: vfs_write_def NAME_write_add_def NAME_write_sub_def NAME_write_mul_def
        NAME_write_div_def calc_write_def kbuf_write_fault split: calc_op.split)
  show ?thesis
    using v f by (simp add: w kbuf_write_overrun kbuf_write_fault kbuf_write_ok Let_def)
qed

lemma kbuf_writes_witness:
  "reg_write (replicate 80 0) (replicate 100 65) 81 = Inl Overrun \<and> dyn_write (replicate 80 0) [65, 66] 2
     = Inr (2, 65 # 66 # replicate 78 0)"
  using kbuf_writes [of "replicate 80 0" 81 "replicate 100 65" idle_calc]
    kbuf_writes [of "replicate 80 0" 2 "[65, 66]" idle_calc]
  by (simp add: Let_def)

text \<open>
  The read methods ignore the count they are given: they write their whole message to the
  user, once per open file or, for ioctl.c, for ever; a user buffer of less than the message is
  overrun up to what is mapped, and only two of the three report it.
\<close>

theorem reads_ignore_count:
  "length reg_message \<le> room \<longrightarrow> length dyn_message \<le> room \<longrightarrow>
     reg_read room n 0 = (int (length reg_message), reg_message, length reg_message)
   \<and> fst (reg_read room n (length reg_message)) = 0
   \<and> dyn_read room n 0 = (31, dyn_message, 31) \<and> fst (dyn_read room n 31) = 0
   \<and> ioctl_read room n = (int n, reg_message)"
  by (simp add: reg_read_def dyn_read_def ioctl_read_def reg_message_def dyn_message_def Let_def)

lemma reads_ignore_count_witness:
  "dyn_read 100 5 0 = (31, dyn_message, 31)"
proof -
  have "length reg_message \<le> 100" "length dyn_message \<le> 100" by (simp_all add: reg_message_def dyn_message_def)
  then show ?thesis using reads_ignore_count [of 100 5] by blast
qed

text \<open>\<open>cdd_temp/char.c\<close> never stores the major number it is given.\<close>

lemma char_unload_leaks:
  assumes "char_init E s = Inr (0, s')" and "ChrMajor 0 \<notin># held (ktr s)" and "0 < kr_int E (ktr s) (ChrMajor 0)"
  shows "held (ktr (char_exit s')) = add_mset (ChrMajor (kr_int E (ktr s) (ChrMajor 0))) (held (ktr s))
     \<and> spurious (ktr (char_exit s')) = Suc (spurious (ktr s))"
  using assms by (auto simp: char_init_def char_exit_def load_defs split: if_splits)

text \<open>Both messages of \<open>ioctl.c\<close>: known commands give 1 and all others -EINVAL.\<close>

lemma NAME_ioctl_cases:
  "NAME_ioctl cmd arg = (if cmd \<in> {0xC0044F08, 0xC0044F09, 0x40044F0A} then 1 else - EINVAL)"
  by (simp add: NAME_ioctl_def SET_BAUD_RATE_def SET_NO_STOP_BITS_def SET_DIRECTION_WRITE_def ioc_def MAGIC_NUMBER_def)

text \<open>\<open>devfile.c\<close> mistakes refused requests, which come as error pointers, for success.\<close>

lemma devfile_misses_errors:
  assumes "\<forall>tr maj. 0 \<le> kr_int E tr (ChrRegion maj 0 1) \<and> kr_ptr E tr DevClass = ErrPtr
      \<and> kr_ptr E tr (DevNode maj) = ErrPtr \<and> kr_int E tr (CdevReg maj) = - ENOMEM"
  shows "\<exists>s' maj. devfile_init E s = Inr (0, s') \<and> held (ktr s') = held (ktr s) + {#ChrRegion maj 0 1#}"
proof -
  have "\<not> kr_int E tr (ChrRegion maj 0 1) < 0" "0 \<le> kr_int E tr (ChrRegion maj 0 1)" "kr_ptr E tr DevClass = ErrPtr"
    "kr_ptr E tr (DevNode maj) = ErrPtr" "kr_int E tr (CdevReg maj) = - ENOMEM" for tr maj
    using assms by (simp_all flip: not_le)
  then show ?thesis by (simp add: devfile_init_def load_defs)
qed

end
