(* ===== verification/Char_Files.thy ===== *)
theory Char_Files
  imports Port_Drivers Refinement
begin

text \<open>
  Open files of the character drivers: the \<open>file_operations\<close> table of each driver as one function from
  the call a process makes to the driver's answer, the file's position and the driver's state, and what
  holds of every sequence of calls (locales \<open>char_device\<close> and \<open>message_device\<close>).
\<close>

section \<open>Calls on an open file\<close>

text \<open>
  A read says how many bytes of the user's buffer can be written and the count; a write gives the
  user's bytes, the count, and what the kernel stack held where the driver puts its buffer.
\<close>

datatype file_call =
    FOpen
  | FRead nat nat
  | FWrite "byte list" nat "byte list"
  | FIoctl "32 word" "64 word"
  | FRelease

definition ENOTTY :: int where "ENOTTY = 25"

text \<open>The value returned and the bytes that reach the user; the position of the file and the state.\<close>

type_synonym reply = "int \<times> byte list"
type_synonym 's fops_table = "file_call \<Rightarrow> nat \<times> 's \<Rightarrow> (reply \<times> nat \<times> 's) res"

text \<open>A table without an entry for ioctl makes the kernel answer -ENOTTY.\<close>

definition no_out :: "nat \<Rightarrow> int \<times> 's \<Rightarrow> (reply \<times> nat \<times> 's) res" where
  "no_out off = (\<lambda>(r, s). Inr ((r, []), off, s))"

section \<open>The tables\<close>

fun memory_fops :: "mem_state fops_table" where
  "memory_fops FOpen (off, s) = no_out off (memory_open s)"
| "memory_fops (FRead room n) (off, s) = bind_res (memory_read room n s) (\<lambda>(r, out). Inr ((r, out), off, s))"
| "memory_fops (FWrite ub n stk) (off, s) = bind_res (memory_write ub n s) (no_out off)"
| "memory_fops (FIoctl cmd arg) (off, s) = no_out off (- ENOTTY, s)"
| "memory_fops FRelease (off, s) = no_out off (memory_release s)"

fun reg_fops :: "mod_state fops_table" where
  "reg_fops FOpen (off, s) = no_out off (reg_open s)"
| "reg_fops (FRead room n) (off, s) = (case reg_read room n off of (r, out, off') \<Rightarrow> Inr ((r, out), off', s))"
| "reg_fops (FWrite ub n stk) (off, s) = bind_res (reg_write stk ub n) (\<lambda>(r, _). no_out off (r, s))"
| "reg_fops (FIoctl cmd arg) (off, s) = no_out off (- ENOTTY, s)"
| "reg_fops FRelease (off, s) = no_out off (reg_release s)"

fun dyn_fops :: "dyn_state fops_table" where
  "dyn_fops FOpen (off, s) = no_out off (dyn_open s)"
| "dyn_fops (FRead room n) (off, s) = (case dyn_read room n off of (r, out, off') \<Rightarrow> Inr ((r, out), off', s))"
| "dyn_fops (FWrite ub n stk) (off, s) = bind_res (dyn_write stk ub n) (\<lambda>(r, _). no_out off (r, s))"
| "dyn_fops (FIoctl cmd arg) (off, s) = no_out off (- ENOTTY, s)"
| "dyn_fops FRelease (off, s) = no_out off (dyn_release s)"

fun ioctl_fops :: "dyn_state fops_table" where
  "ioctl_fops FOpen (off, s) = no_out off (ioctl_open s)"
| "ioctl_fops (FRead room n) (off, s) = (case ioctl_read room n of (r, out) \<Rightarrow> Inr ((r, out), off, s))"
| "ioctl_fops (FWrite ub n stk) (off, s) = bind_res (ioctl_write stk ub n) (\<lambda>(r, _). no_out off (r, s))"
| "ioctl_fops (FIoctl cmd arg) (off, s) = no_out off (NAME_ioctl cmd arg, s)"
| "ioctl_fops FRelease (off, s) = no_out off (ioctl_release s)"

fun char_fops :: "mod_state fops_table" where
  "char_fops FOpen (off, s) = no_out off (char_open s)"
| "char_fops (FRead room n) (off, s) = no_out off (char_read n, s)"
| "char_fops (FWrite ub n stk) (off, s) = no_out off (char_write n, s)"
| "char_fops (FIoctl cmd arg) (off, s) = no_out off (- ENOTTY, s)"
| "char_fops FRelease (off, s) = no_out off (char_close s)"

fun devfile_fops :: "dvf_state fops_table" where
  "devfile_fops FOpen (off, s) = no_out off (devfile_open s)"
| "devfile_fops (FRead room n) (off, s) = no_out off (devfile_read n, s)"
| "devfile_fops (FWrite ub n stk) (off, s) = no_out off (devfile_write n, s)"
| "devfile_fops (FIoctl cmd arg) (off, s) = no_out off (- ENOTTY, s)"
| "devfile_fops FRelease (off, s) = no_out off (devfile_close s)"

fun clock_fops :: "hw \<Rightarrow> port_state fops_table" where
  "clock_fops H FOpen (off, s) = no_out off (clock_open s)"
| "clock_fops H (FRead room n) (off, s) = (case clock_read H room n off s of (r, out, off', s') \<Rightarrow> Inr ((r, out), off', s'))"
| "clock_fops H (FWrite ub n stk) (off, s) = (case clock_write ub n off s of (r, off', s') \<Rightarrow> Inr ((r, []), off', s'))"
| "clock_fops H (FIoctl cmd arg) (off, s) = no_out off (- ENOTTY, s)"
| "clock_fops H FRelease (off, s) = no_out off (clock_release s)"

text \<open>The user's bytes by their offset from the pointer the driver gets.\<close>

definition at_offset :: "byte list \<Rightarrow> int \<Rightarrow> byte option" where
  "at_offset ub i = (if 0 \<le> i \<and> i < int (length ub) then Some (ub ! nat i) else None)"

fun parlelport_fops :: "hw \<Rightarrow> lp_state fops_table" where
  "parlelport_fops H FOpen (off, s) = no_out off (parlelport_open s)"
| "parlelport_fops H (FRead room n) (off, s) = (case parlelport_read H room n off s of (r, out, off', s') \<Rightarrow> Inr ((r, out), off', s'))"
| "parlelport_fops H (FWrite ub n stk) (off, s) = no_out off (parlelport_write (at_offset ub) n s)"
| "parlelport_fops H (FIoctl cmd arg) (off, s) = no_out off (- ENOTTY, s)"
| "parlelport_fops H FRelease (off, s) = no_out off (parlelport_release s)"

fun int3_fops :: "hw \<Rightarrow> lp_state fops_table" where
  "int3_fops H FOpen (off, s) = no_out off (int3_open s)"
| "int3_fops H (FRead room n) (off, s) = (case int3_read H room n off s of (r, out, off', s') \<Rightarrow> Inr ((r, out), off', s'))"
| "int3_fops H (FWrite ub n stk) (off, s) = no_out off (int3_write (at_offset ub) n s)"
| "int3_fops H (FIoctl cmd arg) (off, s) = no_out off (- ENOTTY, s)"
| "int3_fops H FRelease (off, s) = no_out off (int3_release s)"

section \<open>What a driver owes its callers\<close>

text \<open>A reply never fills more of the user's buffer than can be written.\<close>

fun fits :: "file_call \<Rightarrow> reply \<Rightarrow> bool" where
  "fits (FRead room n) (r, out) = (length out \<le> room)"
| "fits _ (r, out) = (out = [])"

text \<open>Under an invariant of the driver's state a call within the driver's limits does not fault.\<close>

locale char_device =
  fixes call :: "'s fops_table" and inv :: "'s \<Rightarrow> bool" and limit :: "file_call \<Rightarrow> bool"
  assumes call_ok: "inv s \<Longrightarrow> limit c \<Longrightarrow> \<exists>a off' s'. call c (off, s) = Inr (a, off', s') \<and> inv s' \<and> fits c a"
begin

lemma session_ok:
  "inv s \<Longrightarrow> list_all limit cs \<Longrightarrow> \<exists>as off' s'. call_run call cs (off, s) = Inr (as, off', s') \<and> inv s' \<and> list_all2 fits cs as"
proof (induction cs arbitrary: off s)
  case (Cons c cs)
  from Cons.prems call_ok [of s c off] obtain a off1 s1 where
    c: "call c (off, s) = Inr (a, off1, s1)" "inv s1" "fits c a" by auto
  with Cons.IH [of s1 off1] Cons.prems(2) show ?case by auto
qed simp

lemma session_answers:
  "inv s \<Longrightarrow> list_all limit cs \<Longrightarrow> \<exists>as fs. call_run call cs (off, s) = Inr (as, fs) \<and> list_all2 fits cs as"
  using session_ok [of s cs off] by blast

end

text \<open>
  A driver with one message: read at the start of the file it gives the message and moves to its
  end, where it gives nothing.
\<close>

locale message_device = char_device call inv limit for call :: "'s fops_table" and inv limit +
  fixes msg :: "byte list"
  assumes first: "length msg \<le> room \<Longrightarrow> call (FRead room n) (0, s) = Inr ((int (length msg), msg), length msg, s)"
    and again: "0 < off \<Longrightarrow> length msg \<le> room \<Longrightarrow> \<exists>out. call (FRead room n) (off, s) = Inr ((0, out), off, s)"
    and nonempty: "msg \<noteq> []"

text \<open>A program that reads a file to its end, as \<open>cat\<close> does, with fuel for the calls of read.\<close>

fun read_all :: "'s fops_table \<Rightarrow> nat \<Rightarrow> nat \<Rightarrow> nat \<Rightarrow> nat \<times> 's \<Rightarrow> (byte list \<times> nat \<times> 's) option" where
  "read_all call room n 0 fs = None"
| "read_all call room n (Suc fuel) fs = (case call (FRead room n) fs of Inl _ \<Rightarrow> None
     | Inr ((r, out), fs') \<Rightarrow> if r \<le> 0 then Some ([], fs')
         else map_option (\<lambda>(bs, fs2). (take (nat r) out @ bs, fs2)) (read_all call room n fuel fs'))"

context message_device
begin

lemma read_all_ends:
  assumes "length msg \<le> room"
  shows "read_all call room n (Suc (Suc fuel)) (0, s) = Some (msg, length msg, s)"
proof -
  obtain out where "call (FRead room n) (length msg, s) = Inr ((0, out), length msg, s)"
    using again [of "length msg" room n s] assms nonempty by auto
  with first [OF assms] nonempty show ?thesis by simp
qed

end

text \<open>A driver whose reads never report the end of the file.\<close>

lemma read_all_never:
  assumes "\<And>fs. \<exists>r out fs'. call (FRead room n) fs = Inr ((r, out), fs') \<and> 0 < r"
  shows "read_all call room n fuel fs = None"
proof (induction fuel arbitrary: fs)
  case (Suc fuel)
  obtain r out fs' where "call (FRead room n) fs = Inr ((r, out), fs')" "0 < r" using assms [of fs] by blast
  with Suc show ?case by simp
qed simp

section \<open>The drivers\<close>

text \<open>
  The writes that stay inside a kernel buffer of \<open>k\<close> bytes: the count fits, and what is
  printed as a string has a NUL, unless the copy fails.
\<close>

fun buf_limit :: "nat \<Rightarrow> file_call \<Rightarrow> bool" where
  "buf_limit k (FWrite ub n stk) \<longleftrightarrow> length stk = k \<and> n \<le> k \<and> (length ub < n \<or> 0 \<in> set (take n ub))"
| "buf_limit k _ \<longleftrightarrow> True"

lemma kbuf_write_limit:
  assumes "buf_limit k (FWrite ub n stk)"
  shows "\<exists>r kb. kbuf_write stk ub n = Inr (r, kb)"
proof (cases "length ub < n")
  case True
  then show ?thesis using assms by (simp add: kbuf_write_fault)
next
  case False
  then show ?thesis using assms by (auto simp: kbuf_write_ok)
qed

lemmas fops_simps = no_out_def copy_to_user_def Let_def

interpretation reg_dev: message_device reg_fops "\<lambda>_. True" "buf_limit 80" reg_message
proof
  show "\<exists>a off' s'. reg_fops c (off, s) = Inr (a, off', s') \<and> True \<and> fits c a" if "buf_limit 80 c" for c off s
    using that kbuf_write_limit
    by (cases c) (fastforce simp: fops_simps reg_open_def reg_release_def reg_read_def reg_write_def simp del: buf_limit.simps(1))+
qed (simp_all add: fops_simps reg_read_def reg_message_def c_string_def)

interpretation dyn_dev: message_device dyn_fops "\<lambda>_. True" "buf_limit 120" dyn_message
proof
  show "\<exists>a off' s'. dyn_fops c (off, s) = Inr (a, off', s') \<and> True \<and> fits c a" if "buf_limit 120 c" for c off s
    using that kbuf_write_limit
    by (cases c) (fastforce simp: fops_simps dyn_open_def dyn_release_def dyn_read_def dyn_write_def simp del: buf_limit.simps(1))+
qed (simp_all add: fops_simps dyn_read_def dyn_message_def c_string_def)

interpretation ioctl_dev: char_device ioctl_fops "\<lambda>_. True" "buf_limit 100"
proof
  show "\<exists>a off' s'. ioctl_fops c (off, s) = Inr (a, off', s') \<and> True \<and> fits c a" if "buf_limit 100 c" for c off s
    using that kbuf_write_limit
    by (cases c) (fastforce simp: fops_simps ioctl_open_def ioctl_release_def ioctl_read_def ioctl_write_def simp del: buf_limit.simps(1))+
qed

interpretation memory_dev: char_device memory_fops "\<lambda>s. memory_buffer s \<noteq> None" "\<lambda>_. True"
proof
  show "\<exists>a off' s'. memory_fops c (off, s) = Inr (a, off', s') \<and> memory_buffer s' \<noteq> None \<and> fits c a"
    if "memory_buffer s \<noteq> None" for c off s
    using that by (cases c) (auto simp: fops_simps memory_open_def memory_release_def memory_read_def memory_write_def)
qed

interpretation char_dev: char_device char_fops "\<lambda>_. True" "\<lambda>_. True"
proof
  show "\<exists>a off' s'. char_fops c (off, s) = Inr (a, off', s') \<and> True \<and> fits c a" for c off s
    by (cases c) (auto simp: fops_simps char_open_def char_close_def)
qed

interpretation devfile_dev: char_device devfile_fops "\<lambda>_. True" "\<lambda>_. True"
proof
  show "\<exists>a off' s'. devfile_fops c (off, s) = Inr (a, off', s') \<and> True \<and> fits c a" for c off s
    by (cases c) (auto simp: fops_simps devfile_open_def devfile_close_def)
qed

interpretation clock_dev: char_device "clock_fops H" "\<lambda>_. True" "\<lambda>_. True" for H
proof
  show "\<exists>a off' s'. clock_fops H c (off, s) = Inr (a, off', s') \<and> True \<and> fits c a" for c off s
    by (cases c) (auto simp: fops_simps clock_open_def clock_release_def clock_read_def clock_write_def split: prod.splits)
qed

interpretation parlelport_dev: char_device "parlelport_fops H" "\<lambda>_. True" "\<lambda>_. True" for H
proof
  show "\<exists>a off' s'. parlelport_fops H c (off, s) = Inr (a, off', s') \<and> True \<and> fits c a" for c off s
    by (cases c) (auto simp: fops_simps parlelport_open_def parlelport_release_def parlelport_read_def parlelport_write_def split: prod.splits)
qed

interpretation int3_dev: char_device "int3_fops H" "\<lambda>_. True" "\<lambda>_. True" for H
proof
  show "\<exists>a off' s'. int3_fops H c (off, s) = Inr (a, off', s') \<and> True \<and> fits c a" for c off s
    by (cases c) (auto simp: fops_simps int3_open_def int3_release_def int3_read_def int3_write_def split: prod.splits)
qed



text \<open>
  C31. Reading to the end: a program that reads until a read returns nothing gets the whole message from the static and the
  dynamic driver and stops after the second read, whatever the count it asks for; on
  the ioctl driver and the memory device it never stops.
\<close>

theorem reading_ends:
  assumes "length reg_message \<le> room" and "0 < n" and "memory_buffer s \<noteq> None"
  shows "read_all reg_fops room n (Suc (Suc fuel)) (0, sr) = Some (reg_message, length reg_message, sr)
   \<and> read_all dyn_fops room n (Suc (Suc fuel)) (0, sd) = Some (dyn_message, length dyn_message, sd)
   \<and> read_all ioctl_fops room n fuel (off, si) = None \<and> read_all memory_fops room n fuel (off, s) = None"
proof -
  have len: "length dyn_message \<le> room" using assms(1) by (simp add: reg_message_def dyn_message_def)
  have "read_all ioctl_fops room n fuel fs = None" for fs
    by (rule read_all_never) (use assms(1,2) in \<open>auto simp: fops_simps ioctl_read_def\<close>)
  moreover have "read_all memory_fops room n fuel (off, s) = None" for off
    using assms(3)
  proof (induction fuel arbitrary: off)
    case (Suc fuel)
    then show ?case by (auto simp: memory_read_def)
  qed simp
  ultimately show ?thesis using reg_dev.read_all_ends [OF assms(1)] dyn_dev.read_all_ends [OF len] by simp
qed

lemma reading_ends_witness:
  "read_all reg_fops 100 7 2 (0, \<lparr>ktr = []\<rparr>) = Some (reg_message, 66, \<lparr>ktr = []\<rparr>)
   \<and> read_all memory_fops 100 7 9 (0, \<lparr>ktr = [], memory_buffer = Some 5\<rparr>) = None"
proof -
  have "length reg_message = 66" by (simp add: reg_message_def)
  then show ?thesis
    using reading_ends [where room = 100 and n = 7 and s = "\<lparr>ktr = [], memory_buffer = Some 5\<rparr>" and fuel = 0]
      reading_ends [where room = 100 and n = 7 and s = "\<lparr>ktr = [], memory_buffer = Some 5\<rparr>" and fuel = 9]
    by (simp add: numeral_2_eq_2)
qed

end
