(* ===== verification/Apps.thy ===== *)
theory Apps
  imports Serial_Driver
begin

text \<open>
  The user programs that come with the drivers, run against the models of their drivers: the
  running light of \<open>lights.c\<close> on the parallel port, and the programs for the memory device, the
  static and dynamic character drivers, the ioctl driver and the serial port.
\<close>

section \<open>lights.c\<close>

text \<open>\<open>byte<<=1; if (byte == 0) byte = 1;\<close>\<close>

definition next_light :: "byte \<Rightarrow> byte" where
  "next_light b = (let b' = push_bit 1 b in if b' = 0 then 1 else b')"

text \<open>\<open>n\<close> rounds of the endless loop, which writes the byte unbuffered, with either driver.\<close>

fun lights_loop :: "nat \<Rightarrow> byte \<Rightarrow> lp_state \<Rightarrow> lp_state" where
  "lights_loop 0 b s = s"
| "lights_loop (Suc n) b s =
     lights_loop n (next_light b) (snd (parlelport_write (\<lambda>i. if i = 0 then Some b else None) 1 s))"

fun lights3_loop :: "nat \<Rightarrow> byte \<Rightarrow> lp_state \<Rightarrow> lp_state" where
  "lights3_loop 0 b s = s"
| "lights3_loop (Suc n) b s =
     lights3_loop n (next_light b) (snd (int3_write (\<lambda>i. if i = 0 then Some b else None) 1 s))"

definition lights_main :: "nat \<Rightarrow> lp_state \<Rightarrow> lp_state" where "lights_main n s = lights_loop n 1 s"
definition lights3_main :: "nat \<Rightarrow> lp_state \<Rightarrow> lp_state" where "lights3_main n s = lights3_loop n 1 s"

definition light :: "nat \<Rightarrow> byte" where
  "light i = push_bit (i mod 8) 1"

lemma next_light_light: "next_light (light i) = light (Suc i)"
proof -
  have "\<forall>j \<in> set [0..<8]. next_light (push_bit j 1) = push_bit (Suc j mod 8) (1 :: byte)" by code_simp
  then have "next_light (push_bit (i mod 8) 1) = push_bit (Suc (i mod 8) mod 8) 1" by simp
  then show ?thesis by (simp add: light_def mod_Suc_eq)
qed

lemma lights_loop_io:
  "io (lights_loop n (light i) s) = rev (map (\<lambda>k. Outb LP_DATA (light k)) [i..<i + n]) @ io s"
proof (induction n arbitrary: i s)
  case (Suc n)
  then show ?case
    by (simp add: parlelport_write_def next_light_light upt_conv_Cons del: upt_Suc)
qed simp

lemma lights3_loop_eq: "lights3_loop n b s = lights_loop n b s"
  by (induction n arbitrary: b s) (simp_all add: parlelport_write_def int3_write_def)

text \<open>
  The running light: whatever the driver, the program puts 1, 2, 4, ... 128 on the data
  port and starts over, exactly one of the eight lines being on at any time.
\<close>

theorem running_light:
  "io (lights_main n s) = rev (map (\<lambda>k. Outb 0x378 (push_bit (k mod 8) 1)) [0..<n]) @ io s
   \<and> io (lights3_main n s) = io (lights_main n s)"
  using lights_loop_io [of n 0 s]
  by (simp add: lights_main_def lights3_main_def lights3_loop_eq light_def LP_DATA_def)

section \<open>The program of the memory device\<close>

text \<open>
  \<open>char_memory/app.c\<close>: results of write and read, and the buffer of ten bytes (with the old
  contents \<open>stk\<close>), which is printed as a string.
\<close>

definition memory_app :: "byte list \<Rightarrow> mem_state \<Rightarrow> (int \<times> int \<times> byte list) res" where
  "memory_app stk s =
     bind_res (memory_write (map of_char ''123'') 3 s) (\<lambda>(w, s1).
     bind_res (memory_read (length stk) 100 s1) (\<lambda>(r, out).
     bind_res (mem_store stk 0 out) (\<lambda>buff.
     bind_res (print_string buff) (\<lambda>_. Inr (w, r, buff)))))"

section \<open>The programs of the character drivers\<close>

definition Ubuff :: "byte list" where
  "Ubuff = c_string ''THis is the User Buffer......Sending Data to the Kernel....''"

text \<open>
  \<open>register_chrdev/Application.c\<close>, with the contents of the driver's and of its own stack
  buffer, the latter of \<open>length kb\<close> bytes: the string that is printed.
\<close>

definition reg_app :: "byte list \<Rightarrow> byte list \<Rightarrow> byte list res" where
  "reg_app kstk kb =
     bind_res (reg_write kstk Ubuff (length Ubuff)) (\<lambda>_.
       (case reg_read (length kb) (length Ubuff) 0 of (r, out, off) \<Rightarrow>
         bind_res (mem_store kb 0 out) (\<lambda>kb'.
         bind_res (print_string kb') (\<lambda>_. Inr (takeWhile (\<lambda>x. x \<noteq> 0) kb')))))"

text \<open>\<open>dynamic_cdd/App.c\<close> writes its whole buffer of 100 bytes.\<close>

definition dyn_ubuff :: "byte list" where
  "dyn_ubuff = map of_char ''hai hello world'' @ replicate 85 0"

definition dyn_app :: "byte list \<Rightarrow> int res" where
  "dyn_app kstk = bind_res (dyn_write kstk dyn_ubuff (length dyn_ubuff)) (\<lambda>(r, _). Inr r)"

text \<open>\<open>ioctl/app.c\<close>: the result of main, and those of the commands it has given.\<close>

definition ioctl_app :: "int \<times> int list" where
  "ioctl_app = (let r = NAME_ioctl SET_BAUD_RATE 9600 in
     if r < 0 then (-1, [r]) else (0, [r, NAME_ioctl SET_NO_STOP_BITS 8, NAME_ioctl SET_DIRECTION_WRITE 0]))"

text \<open>
  The programs shipped with the character drivers never overrun a buffer of their driver.  The
  memory program reads back the first of the three characters it writes, but prints its buffer
  without a terminator, running out of it unless the stack happens to hold a zero; the program of
  the static driver prints the kernel's whole message; the dynamic one writes all its hundred bytes;
  and the ioctl program has each of its commands accepted.
\<close>

theorem apps_within_limits:
  assumes "memory_buffer s = Some x" and "length stk = 10"
    and "length kstk80 = 80" and "length kb = 100" and "length kstk120 = 120"
  shows "memory_app stk s = (if 0 \<in> set (tl stk) then Inr (1, 1, of_char (CHR ''1'') # tl stk) else Inl Overrun)
    \<and> reg_app kstk80 kb = Inr (butlast reg_message) \<and> dyn_app kstk120 = Inr 100
    \<and> ioctl_app = (0, [1, 1, 1])"
proof (intro conjI)
  show "memory_app stk s = (if 0 \<in> set (tl stk) then Inr (1, 1, of_char (CHR ''1'') # tl stk) else Inl Overrun)"
    using assms(1,2) by (simp add: memory_app_def memory_write_def memory_read_def print_string_def drop_Suc)
  have nul: "0 \<in> set Ubuff" "length Ubuff = 60" by (simp_all add: Ubuff_def c_string_def)
  have msg: "length reg_message = 66" "takeWhile (\<lambda>x. x \<noteq> 0) (reg_message @ xs) = butlast reg_message" "0 \<in> set reg_message" for xs
    by (simp_all add: reg_message_def c_string_def)
  have "reg_write kstk80 Ubuff (length Ubuff) = Inr (60, Ubuff @ drop 60 kstk80)"
    using assms(3) nul by (simp add: reg_write_def kbuf_write_ok)
  then show "reg_app kstk80 kb = Inr (butlast reg_message)"
    using assms(4) msg by (simp add: reg_app_def reg_read_def Let_def print_string_def)
  have ub: "0 \<in> set dyn_ubuff" "length dyn_ubuff = 100" by (simp_all add: dyn_ubuff_def)
  then show "dyn_app kstk120 = Inr 100"
    using assms(5) by (simp add: dyn_app_def dyn_write_def kbuf_write_ok)
  show "ioctl_app = (0, [1, 1, 1])"
    by (simp add: ioctl_app_def NAME_ioctl_def Let_def)
qed

lemma apps_within_limits_witness:
  "reg_app (replicate 80 0) (replicate 100 7) = Inr (butlast reg_message) \<and> dyn_app (replicate 120 1) = Inr 100"
  using apps_within_limits [of "\<lparr>ktr = [], memory_buffer = Some 0\<rparr>" 0 "replicate 10 5" "replicate 80 0" "replicate 100 7" "replicate 120 1"]
  by simp

section \<open>The program of the serial port\<close>

text \<open>
  \<open>SerialDriver/Application.c\<close> sends 50 bytes from an array of 41; \<open>mem\<close> is the stack from the
  array upwards.
\<close>

definition serial_k :: "byte list" where
  "serial_k = c_string ''this is the first program in serial port''"

fun serial_app_loop :: "hw \<Rightarrow> byte list \<Rightarrow> nat \<Rightarrow> nat \<Rightarrow> serial_state \<Rightarrow> serial_state option" where
  "serial_app_loop H mem i 0 s = Some s"
| "serial_app_loop H mem i (Suc n) s = (case serial_write H 0 (drop i mem) 1 s of None \<Rightarrow> None
     | Some (r, s1) \<Rightarrow> serial_app_loop H mem (Suc i) n s1)"

definition serial_app :: "hw \<Rightarrow> byte list \<Rightarrow> serial_state \<Rightarrow> serial_state option" where
  "serial_app H stack s = serial_app_loop H (serial_k @ stack) 0 50 s"

lemma serial_app_loop_sent:
  assumes "tflag s \<noteq> 1" and "\<not> bit (uart_lcr (io s)) 7" and "i + n \<le> length mem"
  shows "\<exists>s'. serial_app_loop H mem i n s = Some s' \<and> uart_sent (io s') = uart_sent (io s) @ take n (drop i mem)"
  using assms
proof (induction n arbitrary: i s)
  case (Suc n)
  let ?s1 = "(outb (mem ! i) TRANSMIT_REG (s\<lparr>tbuff := mem ! i\<rparr>))\<lparr>tflag := 0\<rparr>"
  have i: "i < length mem" using Suc.prems(3) by simp
  then have "hd (fst (copy_from_user (drop i mem) 1)) = mem ! i"
    by (cases "drop i mem") (simp_all add: copy_from_user_def nth_via_drop)
  then have w: "serial_write H 0 (drop i mem) 1 s = Some (1, ?s1)"
    using Suc.prems(1) by (simp add: serial_write_def wait_tflag.simps Let_def)
  have s1: "tflag ?s1 \<noteq> 1" "\<not> bit (uart_lcr (io ?s1)) 7" "uart_sent (io ?s1) = uart_sent (io s) @ [mem ! i]"
    using Suc.prems(2) by (simp_all add: TRANSMIT_REG_def outb_def)
  from Suc.IH [OF s1(1,2), of "Suc i"] Suc.prems(3) s1(3) w i show ?case
    by (auto simp: Cons_nth_drop_Suc [symmetric])
qed simp

text \<open>
  The serial program sends its text with the final NUL and then nine more bytes, which are
  whatever its stack holds above the array.
\<close>

theorem serial_app_leaks_stack:
  assumes "tflag s \<noteq> 1" and "9 \<le> length stack"
  shows "\<exists>s'. serial_app H stack (snd (serial_open s)) = Some s'
     \<and> uart_sent (io s') = uart_sent (io (snd (serial_open s))) @ serial_k @ take 9 stack"
proof -
  have k: "length serial_k = 41" by (simp add: serial_k_def)
  have "tflag (snd (serial_open s)) = tflag s" by (simp add: serial_open_def outb_def)
  moreover have "\<not> bit (uart_lcr (io (snd (serial_open s)))) 7"
    by (simp add: serial_open_def serial_ports bit_simps)
  ultimately obtain s' where "serial_app H stack (snd (serial_open s)) = Some s'"
      "uart_sent (io s') = uart_sent (io (snd (serial_open s))) @ take 50 (serial_k @ stack)"
    using serial_app_loop_sent [of "snd (serial_open s)" 0 50 "serial_k @ stack" H] assms k
    by (auto simp: serial_app_def)
  then show ?thesis using k by simp
qed

lemma serial_app_leaks_stack_witness:
  "\<exists>s'. serial_app plain_uart [1, 2, 3, 4, 5, 6, 7, 8, 9, 10] (snd (serial_open (fresh_serial\<lparr>tflag := 0\<rparr>))) = Some s'
     \<and> uart_sent (io s') = uart_sent (io (snd (serial_open (fresh_serial\<lparr>tflag := 0\<rparr>)))) @ serial_k @ [1, 2, 3, 4, 5, 6, 7, 8, 9]"
  using serial_app_leaks_stack [of "fresh_serial\<lparr>tflag := 0\<rparr>" "[1, 2, 3, 4, 5, 6, 7, 8, 9, 10]" plain_uart] by simp

end
