(* ===== verification/Programs.thy ===== *)
theory Programs
  imports Char_Files Apps
begin

text \<open>
  The user programs of the character drivers from their start to their end, run through the tables
  of file operations: opening the device file, what happens when it cannot be opened, the calls,
  the lines that are printed and the exit status.
\<close>

section \<open>Opening the device file\<close>

text \<open>
  The descriptor the kernel would hand out, or None when it refuses before the driver is asked; the
  driver's open method can still refuse.
\<close>

definition dev_open :: "nat option \<Rightarrow> 's fops_table \<Rightarrow> 's \<Rightarrow> (int \<times> nat \<times> 's) res" where
  "dev_open fd call s = (case fd of None \<Rightarrow> Inr (-1, 0, s)
     | Some n \<Rightarrow> bind_res (call FOpen (0, s)) (\<lambda>((r, _), fs). Inr (if r < 0 then -1 else int n, fs)))"

text \<open>A line that is an error message, one with a number, or one with a string.\<close>

datatype out_line = Failure string | Value string int | Shown "byte list"

text \<open>The exit status, where the program sets one, and the lines; the file and the driver.\<close>

type_synonym 's program = "((int option \<times> out_line list) \<times> nat \<times> 's) res"

definition shown :: "byte list \<Rightarrow> out_line" where
  "shown buf = Shown (takeWhile (\<lambda>x. x \<noteq> 0) buf)"

section \<open>The programs\<close>

definition reg_main :: "nat option \<Rightarrow> byte list \<Rightarrow> byte list \<Rightarrow> mod_state \<Rightarrow> mod_state program" where
  "reg_main fd kstk kbuff s =
     bind_res (dev_open fd reg_fops s) (\<lambda>(f, fs).
       if f < 0 then Inr ((Some 1, [Failure ''Error Opening Device'']), fs)
       else bind_res (reg_fops (FWrite Ubuff (length Ubuff) kstk) fs) (\<lambda>(_, fs1).
         bind_res (reg_fops (FRead (length kbuff) (length Ubuff)) fs1) (\<lambda>((_, out), fs2).
         bind_res (mem_store kbuff 0 out) (\<lambda>kb.
         bind_res (print_string kb) (\<lambda>_.
         bind_res (reg_fops FRelease fs2) (\<lambda>(_, fs3). Inr ((None, [shown kb]), fs3)))))))"

definition dyn_main :: "nat option \<Rightarrow> byte list \<Rightarrow> dyn_state \<Rightarrow> dyn_state program" where
  "dyn_main fd kstk s =
     bind_res (dev_open fd dyn_fops s) (\<lambda>(f, fs).
       if f < 0 then Inr ((Some (-1), [Failure ''open:%s'']), fs)
       else bind_res (dyn_fops (FWrite dyn_ubuff (length dyn_ubuff) kstk) fs) (\<lambda>(_, fs1).
         bind_res (dyn_fops FRelease fs1) (\<lambda>(_, fs2). Inr ((Some 0, []), fs2))))"

definition ioctl_main :: "nat option \<Rightarrow> dyn_state \<Rightarrow> dyn_state program" where
  "ioctl_main fd s =
     bind_res (dev_open fd ioctl_fops s) (\<lambda>(f, fs).
       if f < 0 then Inr ((Some 1, [Failure ''Error Opening Device'']), fs)
       else bind_res (ioctl_fops (FIoctl SET_BAUD_RATE 9600) fs) (\<lambda>((r, _), fs1).
         if r < 0 then Inr ((Some (-1), [Failure ''IOCTL Error'']), fs1)
         else bind_res (ioctl_fops (FIoctl SET_NO_STOP_BITS 8) fs1) (\<lambda>(_, fs2).
           bind_res (ioctl_fops (FIoctl SET_DIRECTION_WRITE 0) fs2) (\<lambda>(_, fs3).
           bind_res (ioctl_fops FRelease fs3) (\<lambda>(_, fs4). Inr ((None, []), fs4))))))"

text \<open>
  The program of the memory device goes on after a failed open: the system then refuses each call
  with -1 and the buffer keeps what the stack held.
\<close>

definition fd_call :: "int \<Rightarrow> 's fops_table \<Rightarrow> 's fops_table" where
  "fd_call f call c fs = (if f < 0 then Inr ((-1, []), fs) else call c fs)"

definition memory_main :: "nat option \<Rightarrow> byte list \<Rightarrow> mem_state \<Rightarrow> mem_state program" where
  "memory_main fd buff s =
     bind_res (dev_open fd memory_fops s) (\<lambda>(f, fs).
     bind_res (fd_call f memory_fops (FWrite (map of_char ''123'') 3 []) fs) (\<lambda>((w, _), fs1).
     bind_res (fd_call f memory_fops (FRead (length buff) 100) fs1) (\<lambda>((r, out), fs2).
     bind_res (mem_store buff 0 out) (\<lambda>buff1.
     bind_res (print_string buff1) (\<lambda>_.
     bind_res (fd_call f memory_fops FRelease fs2) (\<lambda>(_, fs3).
       Inr ((None, (if f < 0 then [Failure ''open FAILS''] else [])
         @ [Value ''write return value:'' w, Value ''read return value:'' r, shown buff1]), fs3)))))))"

text \<open>\<open>RTC/write.c\<close> and \<open>RTC/read.c\<close>; their files are closed by the end of the process.\<close>

definition clock_write_main :: "nat option \<Rightarrow> port_state \<Rightarrow> (int option \<times> out_line list) \<times> port_state" where
  "clock_write_main fd s = (case fd of None \<Rightarrow> ((Some 1, [Failure ''clock:'']), s)
     | Some n \<Rightarrow> (case write_loop (replicate 6 0x04) 0 (snd (clock_open s)) of (_, s1) \<Rightarrow>
         ((None, replicate 6 (Value '' .... %x....'' 4)), snd (clock_release s1))))"

definition clock_read_main :: "hw \<Rightarrow> nat option \<Rightarrow> port_state \<Rightarrow> (int option \<times> out_line list) \<times> port_state" where
  "clock_read_main H fd s = (case fd of None \<Rightarrow> ((Some 1, [Failure ''clock:'']), s)
     | Some n \<Rightarrow> (case read_loop H 6 0 (snd (clock_open s)) of (xs, s1) \<Rightarrow>
         ((None, map (\<lambda>x. Value '' .... %x....'' (uint x)) xs), snd (clock_release s1))))"

text \<open>\<open>SerialDriver/Application.c\<close>; None while it waits for the port.\<close>

definition serial_main :: "hw \<Rightarrow> nat option \<Rightarrow> byte list \<Rightarrow> serial_state \<Rightarrow> ((int option \<times> out_line list) \<times> serial_state) option" where
  "serial_main H fd stack s = (case fd of None \<Rightarrow> Some ((Some 1, [Failure ''Error Opening Device'']), s)
     | Some n \<Rightarrow> map_option (\<lambda>s1. ((None, [Shown (map of_char ''chaacter k send to minicom via serail port'')]), snd (serial_release s1)))
         (serial_app H stack (snd (serial_open s))))"

section \<open>What they do\<close>

text \<open>
  A device that cannot be opened: the programs say so and stop without a call to the driver, except
  that of the memory device, which goes on and shows what its stack happens to hold, reading on
  past its buffer if there is no NUL in it.
\<close>

theorem programs_without_device:
  "reg_main None kstk kb sr = Inr ((Some 1, [Failure ''Error Opening Device'']), 0, sr)
   \<and> dyn_main None kstk sd = Inr ((Some (-1), [Failure ''open:%s'']), 0, sd)
   \<and> ioctl_main None si = Inr ((Some 1, [Failure ''Error Opening Device'']), 0, si)
   \<and> clock_write_main None sc = ((Some 1, [Failure ''clock:'']), sc) \<and> clock_read_main H None sc = ((Some 1, [Failure ''clock:'']), sc)
   \<and> serial_main H None stack ss = Some ((Some 1, [Failure ''Error Opening Device'']), ss)
   \<and> memory_main None buff sm = (if 0 \<in> set buff
       then Inr ((None, [Failure ''open FAILS'', Value ''write return value:'' (-1), Value ''read return value:'' (-1), shown buff]), 0, sm)
       else Inl Overrun)"
  by (simp add: reg_main_def dyn_main_def ioctl_main_def memory_main_def clock_write_main_def clock_read_main_def serial_main_def
      dev_open_def fd_call_def print_string_def)

text \<open>
  With the device the programs of the static, the dynamic and the ioctl driver run to their end,
  whatever their own stack and the driver's hold, and leave the driver as it was; the first
  prints the driver's message.
\<close>

theorem programs_with_device:
  assumes "length kstk80 = 80" and "length kb = 100" and "length kstk120 = 120"
  shows "reg_main (Some n) kstk80 kb sr = Inr ((None, [Shown (butlast reg_message)]), length reg_message, sr)
   \<and> dyn_main (Some n) kstk120 sd = Inr ((Some 0, []), 0, sd)
   \<and> ioctl_main (Some n) si = Inr ((None, []), 0, si)"
proof (intro conjI)
  have nul: "0 \<in> set Ubuff" "length Ubuff = 60" by (simp_all add: Ubuff_def c_string_def)
  have msg: "length reg_message = 66" "takeWhile (\<lambda>x. x \<noteq> 0) (reg_message @ xs) = butlast reg_message" "0 \<in> set reg_message" for xs
    by (simp_all add: reg_message_def c_string_def)
  have "reg_write kstk80 Ubuff (length Ubuff) = Inr (60, Ubuff @ drop 60 kstk80)"
    using assms(1) nul by (simp add: reg_write_def kbuf_write_ok)
  then show "reg_main (Some n) kstk80 kb sr = Inr ((None, [Shown (butlast reg_message)]), length reg_message, sr)"
    using assms(2) msg
    by (simp add: reg_main_def dev_open_def fops_simps reg_open_def reg_release_def reg_read_def print_string_def shown_def)
  have "0 \<in> set dyn_ubuff" "length dyn_ubuff = 100" by (simp_all add: dyn_ubuff_def)
  then show "dyn_main (Some n) kstk120 sd = Inr ((Some 0, []), 0, sd)"
    using assms(3) by (simp add: dyn_main_def dev_open_def fops_simps dyn_open_def dyn_release_def dyn_write_def kbuf_write_ok)
  show "ioctl_main (Some n) si = Inr ((None, []), 0, si)"
    by (simp add: ioctl_main_def dev_open_def fops_simps ioctl_open_def ioctl_release_def NAME_ioctl_def)
qed

lemma programs_with_device_witness:
  "reg_main (Some 3) (replicate 80 9) (replicate 100 7) \<lparr>ktr = []\<rparr> = Inr ((None, [Shown (butlast reg_message)]), length reg_message, \<lparr>ktr = []\<rparr>)"
  using programs_with_device [of "replicate 80 9" "replicate 100 7" "replicate 120 1" 3 "\<lparr>ktr = []\<rparr>"] by simp

text \<open>The two clock programs, one after the other: the second prints the six fours the first has set.\<close>

theorem clock_programs:
  assumes "rtc_law f H"
  shows "fst (clock_read_main H (Some n) (snd (clock_write_main (Some m) s))) = (None, replicate 6 (Value '' .... %x....'' 4))"
proof -
  let ?xs = "replicate 6 (0x04 :: byte)" and ?s1 = "snd (write_loop (replicate 6 0x04) 0 s)"
  have regs: "rtc_reg f (io ?s1) (cmd_arr ! i) = 4" if "i < 6" for i
    using write_loop_regs [of 0 ?xs s f] that by simp
  have "fst (read_loop H 6 0 ?s1) = map (\<lambda>i. rtc_reg f (io ?s1) (cmd_arr ! i)) [0 ..< 0 + 6]"
    by (rule read_loop_regs [OF assms]) simp
  also have "\<dots> = ?xs" by (rule nth_equalityI) (simp_all add: regs)
  finally show ?thesis
    by (auto simp: clock_write_main_def clock_read_main_def clock_open_def clock_release_def split: prod.splits)
qed

lemma clock_programs_witness:
  "fst (clock_read_main plain_rtc (Some 3) (snd (clock_write_main (Some 3) \<lparr>ktr = [], io = []\<rparr>))) = (None, replicate 6 (Value '' .... %x....'' 4))"
proof -
  have "rtc_law (\<lambda>_. 0) plain_rtc" by (simp add: rtc_law_def plain_rtc_def)
  from clock_programs [OF this] show ?thesis .
qed

end
