(* ===== verification/Sleepy_Files.thy ===== *)
theory Sleepy_Files
  imports Programs Sleepy_Claims
begin

text \<open>
  The tables of file operations of the drivers whose readers sleep: a call either answers at once, or,
  for a read, puts the calling process inside the read method, where it takes its steps between
  those of the others.  With the tables, the programs of
  \<open>cdd_temp\<close> and \<open>slpy\<close>, which are the same, run against their drivers.
\<close>

section \<open>The tables\<close>

text \<open>A call by process \<open>p\<close>: the answer, or None when the process is inside the read method.\<close>

type_synonym 's sleep_table = "nat \<Rightarrow> file_call \<Rightarrow> 's wq_sys \<Rightarrow> int option \<times> 's wq_sys"

definition enter_read :: "nat \<Rightarrow> 's wq_sys \<Rightarrow> int option \<times> 's wq_sys" where
  "enter_read p w = (None, w\<lparr>rdrs := (rdrs w)(p := Called)\<rparr>)"

definition answer_at :: "int \<times> 's \<Rightarrow> 's wq_sys \<Rightarrow> int option \<times> 's wq_sys" where
  "answer_at = (\<lambda>(r, s) w. (Some r, w\<lparr>drv := s\<rparr>))"

fun slpy_fops :: "slpy_state sleep_table" where
  "slpy_fops p FOpen w = answer_at (slpy_open (drv w)) w"
| "slpy_fops p (FRead room n) w = enter_read p w"
| "slpy_fops p (FWrite ub n stk) w = apfst Some (slpy_write n w)"
| "slpy_fops p (FIoctl cmd arg) w = (Some (- ENOTTY), w)"
| "slpy_fops p FRelease w = answer_at (slpy_close (drv w)) w"

text \<open>The other two have no open and release methods, which the kernel takes for success.\<close>

fun sleepy_fops :: "sleepy_state sleep_table" where
  "sleepy_fops p (FRead room n) w = enter_read p w"
| "sleepy_fops p (FWrite ub n stk) w = apfst Some (sleepy_write n w)"
| "sleepy_fops p (FIoctl cmd arg) w = (Some (- ENOTTY), w)"
| "sleepy_fops p _ w = (Some 0, w)"

fun slpwq_fops :: "slpwq_state sleep_table" where
  "slpwq_fops p (FRead room n) w = enter_read p w"
| "slpwq_fops p (FWrite ub n stk) w = apfst Some (slpwq_write n w)"
| "slpwq_fops p (FIoctl cmd arg) w = (Some (- ENOTTY), w)"
| "slpwq_fops p _ w = (Some 0, w)"

text \<open>The proc entry of \<open>slpy-proc-ctrl.c\<close> never blocks; its reads have a buffer on the stack.\<close>

fun proc_fops :: "byte list \<Rightarrow> sleepy_state fops_table" where
  "proc_fops stk (FRead room n) (off, s) = bind_res (read_stat stk room n off s) (\<lambda>(r, out, off'). Inr ((r, out), off', s))"
| "proc_fops stk (FWrite ub n _) (off, s) = no_out off (write_wake_one ub n s)"
| "proc_fops stk (FIoctl cmd arg) (off, s) = no_out off (- ENOTTY, s)"
| "proc_fops stk _ (off, s) = no_out off (0, s)"

section \<open>Calls that end\<close>

text \<open>A process that reads after a write, whoever wrote, is done in three steps of its own.\<close>

context sleepers
begin

lemma read_after_write:
  "inv s \<Longrightarrow> fst (run_reader read_step 3 Called (write_set s)) = Returned 0"
  using step_ends set_flag set_inv by blast

end

lemma woken_called: "woken Called = Called"
  by (simp add: woken_def)

text \<open>
  On each of the three drivers a write returns its count, and a read the same process makes next
  is over in three steps and returns 0, whatever other processes have done before.
\<close>

theorem write_then_read:
  assumes "data_present (drv w) \<in> {0, 1}"
  shows "case slpy_fops p (FWrite ub n stk) w of (a, w1) \<Rightarrow> a = Some (int n) \<and>
      (case slpy_fops p (FRead room m) w1 of (a2, w2) \<Rightarrow> a2 = None \<and> fst (run_reader slpy_read_step 3 (rdrs w2 p) (drv w2)) = Returned 0)"
    and "case sleepy_fops p (FWrite ub n stk) v of (a, v1) \<Rightarrow> a = Some (int n) \<and>
      (case sleepy_fops p (FRead room m) v1 of (a2, v2) \<Rightarrow> a2 = None \<and> fst (run_reader sleepy_read_step 3 (rdrs v2 p) (drv v2)) = Returned 0)"
    and "case slpwq_fops p (FWrite ub n stk) u of (a, u1) \<Rightarrow> a = Some (int n) \<and>
      (case slpwq_fops p (FRead room m) u1 of (a2, u2) \<Rightarrow> a2 = None \<and> fst (run_reader slpwq_read_step 3 (rdrs u2 p) (drv u2)) = Returned 0)"
  using slpy.read_after_write [OF assms] sleepy.read_after_write [of "drv v"] slpwq.read_after_write [of "drv u"]
  by (simp_all add: slpy_write_def sleepy_write_def slpwq_write_def enter_read_def)

section \<open>The proc entry\<close>

lemma stat_string_27:
  "data_present s \<in> {0, 1} \<Longrightarrow> wake_one s \<in> {0, 1} \<Longrightarrow> length (stat_string s) = 27"
  by (auto simp: stat_string_def int_digits_def nat_digits.simps)

lemma write_wake_one_bits:
  "data_present s \<in> {0, 1} \<Longrightarrow> wake_one s \<in> {0, 1} \<Longrightarrow>
     data_present (snd (write_wake_one ub n s)) \<in> {0, 1} \<and> wake_one (snd (write_wake_one ub n s)) \<in> {0, 1}"
  by (simp add: write_wake_one_def copy_from_user_def Let_def)

lemma answer_no_out: "no_out off x = Inr ((fst x, []), off, snd x)"
  by (simp add: no_out_def split_beta)

interpretation proc_dev: char_device "proc_fops (replicate 30 0)" "\<lambda>s. data_present s \<in> {0, 1} \<and> wake_one s \<in> {0, 1}" "\<lambda>_. True"
proof
  fix s :: sleepy_state and c off
  assume inv: "data_present s \<in> {0, 1} \<and> wake_one s \<in> {0, 1}"
  then have len: "length (stat_string s) = 27" using stat_string_27 by simp
  show "\<exists>a off' s'. proc_fops (replicate 30 0) c (off, s) = Inr (a, off', s') \<and> (data_present s' \<in> {0, 1} \<and> wake_one s' \<in> {0, 1}) \<and> fits c a"
  proof (cases c)
    case (FRead room n)
    then show ?thesis using inv len by (simp add: read_stat_def copy_to_user_def Let_def)
  next
    case (FWrite ub n stk)
    then show ?thesis using write_wake_one_bits [of s ub n] inv by (simp add: answer_no_out)
  qed (use inv in \<open>simp_all add: answer_no_out\<close>)
qed

text \<open>
  While its two variables are 0 or 1, and they stay so, the proc entry answers every sequence of
  calls without a fault and never writes past the user's buffer.
\<close>

theorem proc_sessions:
  assumes "data_present s \<in> {0, 1} \<and> wake_one s \<in> {0, 1}"
  shows "\<exists>as off' s'. call_run (proc_fops (replicate 30 0)) cs (off, s) = Inr (as, off', s')
     \<and> (data_present s' \<in> {0, 1} \<and> wake_one s' \<in> {0, 1}) \<and> list_all2 fits cs as"
  by (rule proc_dev.session_ok [OF assms]) (simp add: list_all_iff)

section \<open>The programs of cdd\_temp and slpy\<close>

text \<open>
  Both pass a \<open>char\<close>, what is left of the address of a string, where the address of a buffer belongs.
  The kernel refuses an address of its own half, which is a negative \<open>char\<close>; any other one
  reaches the driver, and neither driver looks at it.
\<close>

definition user_ok :: "byte \<Rightarrow> bool" where "user_ok buff \<longleftrightarrow> 0 \<le> sint buff"

definition temp_main :: "nat option \<Rightarrow> byte \<Rightarrow> mod_state \<Rightarrow> mod_state program" where
  "temp_main fd buff s =
     bind_res (dev_open fd char_fops s) (\<lambda>(f, fs).
     bind_res (fd_call (if user_ok buff then f else -1) char_fops (FWrite [] 2 []) fs) (\<lambda>((w, _), fs1).
     bind_res (fd_call (if user_ok buff then f else -1) char_fops (FRead 0 2) fs1) (\<lambda>((r, _), fs2).
       Inr ((None, [Value ''fd:'' f, Value ''count:'' w, Value ''count:'' r]), fs2))))"

text \<open>
  With the driver of \<open>slpy\<close> the process, number \<open>p\<close>, may block in the read; None: it has not come back
  after \<open>n\<close> steps.
\<close>

definition slpy_main :: "nat option \<Rightarrow> byte \<Rightarrow> nat \<Rightarrow> nat \<Rightarrow> slpy_state wq_sys \<Rightarrow> (out_line list \<times> slpy_state wq_sys) option" where
  "slpy_main fd buff p n w =
     (case fd of None \<Rightarrow> Some ([Value ''fd:'' (-1), Value ''count:'' (-1), Value ''count:'' (-1)], w)
      | Some k \<Rightarrow> (case slpy_fops p FOpen w of (_, w1) \<Rightarrow>
          if \<not> user_ok buff then Some ([Value ''fd:'' (int k), Value ''count:'' (-1), Value ''count:'' (-1)], w1)
          else (case slpy_fops p (FWrite [] 2 []) w1 of (c, w2) \<Rightarrow>
            case slpy_fops p (FRead 0 2) w2 of (_, w3) \<Rightarrow>
            case run_reader slpy_read_step n (rdrs w3 p) (drv w3) of (r, s) \<Rightarrow>
              (case r of Returned v \<Rightarrow> Some ([Value ''fd:'' (int k), Value ''count:'' (the c), Value ''count:'' v],
                  w3\<lparr>rdrs := (rdrs w3)(p := Idle), drv := s\<rparr>)
               | _ \<Rightarrow> None))))"

text \<open>
  With the device the programs print the descriptor, 2 for the write and 0 for the read; because it
  has written first the program of \<open>slpy\<close> never sleeps.
\<close>

theorem char_programs:
  assumes "user_ok buff" and "data_present (drv w) \<in> {0, 1}"
  shows "temp_main (Some k) buff s = Inr ((None, [Value ''fd:'' (int k), Value ''count:'' 2, Value ''count:'' 0]), 0, s)
   \<and> (\<exists>w'. slpy_main (Some k) buff p 3 w = Some ([Value ''fd:'' (int k), Value ''count:'' 2, Value ''count:'' 0], w'))"
proof
  show "temp_main (Some k) buff s = Inr ((None, [Value ''fd:'' (int k), Value ''count:'' 2, Value ''count:'' 0]), 0, s)"
    using assms(1) by (simp add: temp_main_def dev_open_def fd_call_def answer_no_out char_open_def char_write_def char_read_def)
  have "fst (run_reader slpy_read_step 3 Called (slpy_write_set (drv w))) = Returned 0"
    by (rule slpy.read_after_write [OF assms(2)])
  then obtain s' where "run_reader slpy_read_step 3 Called (slpy_write_set (drv w)) = (Returned 0, s')"
    by (metis prod.collapse)
  then show "\<exists>w'. slpy_main (Some k) buff p 3 w = Some ([Value ''fd:'' (int k), Value ''count:'' 2, Value ''count:'' 0], w')"
    using assms(1) by (simp add: slpy_main_def slpy_open_def answer_at_def slpy_write_def enter_read_def)
qed

lemma char_programs_witness:
  "temp_main (Some 3) 0x24 \<lparr>ktr = []\<rparr> = Inr ((None, [Value ''fd:'' 3, Value ''count:'' 2, Value ''count:'' 0]), 0, \<lparr>ktr = []\<rparr>)"
  using char_programs [where buff = "0x24" and w = "wq_start \<lparr>ktr = [], data_present = 0\<rparr>" and k = 3 and s = "\<lparr>ktr = []\<rparr>"]
  by (simp add: user_ok_def wq_start_def)

end
