(* ===== verification/Delays.thy ===== *)
theory Delays
  imports KM_Prelude
begin

text \<open>
  The delay macros of \<open>convenient.h\<close>: the spinning loop that beeps in each round, with the number of
  rounds its inner loops take, and the request to sleep.
\<close>

section \<open>Spinning\<close>

text \<open>\<open>beep\<close> prints the character of an int.\<close>

definition beep :: "32 word \<Rightarrow> char" where
  "beep what = char_of (unat (ucast what :: 8 word))"

text \<open>The innermost loop, on the int \<open>m\<close>; \<open>n\<close> counts the rounds.\<close>

function spin_m :: "nat \<Rightarrow> nat \<Rightarrow> nat" where
  "spin_m m n = (if m < 50 then spin_m (m + 1) (n + 1) else n)"
  by pat_completeness auto
termination by (relation "measure (\<lambda>(m, n). 50 - m)") auto

lemma unat_less_inc: "i < lim \<Longrightarrow> unat (i + 1 :: 32 word) = unat i + 1"
  using unsigned_less [of lim, where ?'a = nat] by (simp add: unat_word_ariths word_less_nat_alt)

text \<open>The loop on \<open>inner_index\<close>, an unsigned int, up to \<open>HZ*1000*8\<close>.\<close>

function spin_inner :: "32 word \<Rightarrow> 32 word \<Rightarrow> nat \<Rightarrow> nat" where
  "spin_inner lim i n = (if i < lim then spin_inner lim (i + 1) (spin_m 0 n) else n)"
  by pat_completeness auto
termination
  by (relation "measure (\<lambda>(lim, i, n). unat lim - unat i)") (auto simp: unat_less_inc word_less_nat_alt)

text \<open>The macro: what it prints, its counter \<open>c\<close>, and the rounds of the innermost loop.\<close>

function delay_loop :: "32 word \<Rightarrow> 32 word \<Rightarrow> 32 word \<Rightarrow> 32 word \<Rightarrow> string \<times> 32 word \<times> nat \<Rightarrow> string \<times> 32 word \<times> nat" where
  "delay_loop hz val loop_count i (out, c, n) =
     (if i < loop_count
      then delay_loop hz val loop_count (i + 1) (out @ [beep val], c + 1, spin_inner (hz * 1000 * 8) 0 n)
      else (out, c, n))"
  by pat_completeness auto
termination
  by (relation "measure (\<lambda>(hz, val, lc, i, st). unat lc - unat i)") (auto simp: unat_less_inc word_less_nat_alt)

declare spin_m.simps [simp del] spin_inner.simps [simp del] delay_loop.simps [simp del]

definition DELAY_LOOP :: "32 word \<Rightarrow> 32 word \<Rightarrow> 32 word \<Rightarrow> string \<times> 32 word \<times> nat" where
  "DELAY_LOOP hz val loop_count = delay_loop hz val loop_count 0 ([], 0, 0)"

section \<open>Sleeping\<close>

text \<open>What \<open>DELAY_SEC\<close> asks of the kernel: the state of the task, and a timeout in jiffies.\<close>

datatype task_call = SetInterruptible | ScheduleTimeout "32 word"

definition DELAY_SEC :: "32 word \<Rightarrow> 32 word \<Rightarrow> task_call list" where
  "DELAY_SEC hz val = [SetInterruptible, ScheduleTimeout (val * hz)]"

section \<open>How long the loop is\<close>

lemma spin_m_rounds: "m \<le> 50 \<Longrightarrow> spin_m m n = n + (50 - m)"
proof (induction m n rule: spin_m.induct)
  case (1 m n)
  then show ?case by (cases "m < 50") (simp_all add: spin_m.simps [of m n] spin_m.simps [of 50 n])
qed

text \<open>Counting up to a bound, by the rounds that are left.\<close>

lemma rounds_left:
  assumes "Suc k = unat lim - unat (i :: 32 word)"
  shows "i < lim" "i + 1 \<le> lim" "k = unat lim - unat (i + 1)" "lim - i = 1 + (lim - (i + 1))"
proof -
  show l: "i < lim" using assms by (simp add: word_less_nat_alt)
  show "i + 1 \<le> lim" "k = unat lim - unat (i + 1)"
    using assms by (simp_all add: unat_less_inc [OF l] word_le_nat_alt)
qed simp

lemma spin_inner_rounds: "i \<le> lim \<Longrightarrow> spin_inner lim i n = n + 50 * (unat lim - unat i)"
proof (induction "unat lim - unat i" arbitrary: i n)
  case 0
  then show ?case by (subst spin_inner.simps) (simp add: word_less_nat_alt word_le_nat_alt)
next
  case (Suc k)
  note r = rounds_left [OF Suc.hyps(2)]
  have "spin_inner lim i n = spin_inner lim (i + 1) (n + 50)"
    using r(1) by (subst spin_inner.simps) (simp add: spin_m_rounds)
  also have "\<dots> = n + 50 + 50 * k" using Suc.hyps(1) [OF r(3) r(2)] r(3) by simp
  finally show ?case using Suc.hyps(2) [symmetric] by simp
qed

lemma delay_loop_rounds:
  "i \<le> lc \<Longrightarrow> delay_loop hz val lc i (out, c, n) =
     (out @ replicate (unat lc - unat i) (beep val), c + (lc - i), n + (unat lc - unat i) * (50 * unat (hz * 1000 * 8)))"
proof (induction "unat lc - unat i" arbitrary: i out c n)
  case 0
  then have "i = lc" by (simp add: word_le_nat_alt word_unat_eq_iff)
  then show ?case by (subst delay_loop.simps) simp
next
  case (Suc k)
  note r = rounds_left [OF Suc.hyps(2)]
  have "delay_loop hz val lc i (out, c, n) =
      delay_loop hz val lc (i + 1) (out @ [beep val], c + 1, n + 50 * unat (hz * 1000 * 8))"
    using r(1) by (subst delay_loop.simps) (simp add: spin_inner_rounds)
  also have "\<dots> = (out @ replicate (Suc k) (beep val), c + (lc - i), n + Suc k * (50 * unat (hz * 1000 * 8)))"
    using Suc.hyps(1) [OF r(3) r(2)] r(3) by simp
  finally show ?case using Suc.hyps(2) by simp
qed

text \<open>
  The delay ends: it beeps once for each round it was asked for, a negative number of
  rounds being a large unsigned one, counts them in \<open>c\<close>, and each round costs fifty times \<open>8000 * HZ\<close> steps.
\<close>

theorem delay_loop_cost:
  "DELAY_LOOP hz val loop_count = (replicate (unat loop_count) (beep val), loop_count, unat loop_count * (50 * unat (hz * 1000 * 8)))"
  by (simp add: DELAY_LOOP_def delay_loop_rounds)

end
