(* ===== verification/Evtest.thy ===== *)
theory Evtest
  imports Chardev
begin

text \<open>
  The event device test program \<open>evtest/evtest.c\<close>: its tables of names, the bitmaps in which the
  kernel reports what a device can do, the scan that prints them, and the loop that prints
  events.  The constants of \<open>linux/input.h\<close> are written as numbers; what the kernel answers is a
  parameter.  Each line printed is a constructor with the values formatted.
\<close>

section \<open>The tables\<close>

definition EV_MAX :: nat where "EV_MAX = 0x1f"
definition KEY_MAX :: nat where "KEY_MAX = 0x2ff"
definition REL_MAX :: nat where "REL_MAX = 0x0f"
definition ABS_MAX :: nat where "ABS_MAX = 0x3f"
definition MSC_MAX :: nat where "MSC_MAX = 0x07"
definition LED_MAX :: nat where "LED_MAX = 0x0f"
definition REP_MAX :: nat where "REP_MAX = 0x01"
definition SND_MAX :: nat where "SND_MAX = 0x07"

lemmas ev_limits = EV_MAX_def KEY_MAX_def REL_MAX_def ABS_MAX_def MSC_MAX_def LED_MAX_def REP_MAX_def SND_MAX_def

text \<open>An array with designated initialisers, all other elements NULL.\<close>

definition name_table :: "nat \<Rightarrow> (nat \<times> string) list \<Rightarrow> string option list" where
  "name_table mx xs = fold (\<lambda>(i, n) t. t[i := Some n]) xs (replicate (mx + 1) None)"

definition ev_events_names :: "(nat \<times> string) list" where
  "ev_events_names =
  [(0, ''Sync''), (1, ''Key''), (2, ''Relative''), (3, ''Absolute''), (4, ''Misc''), (17, ''LED''),
   (18, ''Sound''), (20, ''Repeat''), (21, ''ForceFeedback''), (22, ''Power''), (23, ''ForceFeedbackStatus'')]"

definition ev_events :: "string option list" where
  "ev_events = name_table EV_MAX ev_events_names"

text \<open>The keys of remote controls and media devices, the second part of the table of key names.\<close>

definition ev_media_names :: "(nat \<times> string) list" where
  "ev_media_names =
  [(352, ''Ok''), (353, ''Select''),
   (354, ''Goto''), (355, ''Clear''), (356, ''Power2''), (357, ''Option''), (358, ''Info''), (359, ''Time''),
   (360, ''Vendor''), (361, ''Archive''), (362, ''Program''), (363, ''Channel''), (364, ''Favorites''),
   (365, ''EPG''), (366, ''PVR''), (367, ''MHP''), (368, ''Language''), (369, ''Title''), (370, ''Subtitle''),
   (371, ''Angle''), (372, ''Zoom''), (373, ''Mode''), (374, ''Keyboard''), (375, ''Screen''), (376, ''PC''),
   (377, ''TV''), (378, ''TV2''), (379, ''VCR''), (380, ''VCR2''), (381, ''Sat''), (382, ''Sat2''),
   (383, ''CD''), (384, ''Tape''), (385, ''Radio''), (386, ''Tuner''), (387, ''Player''), (388, ''Text''),
   (389, ''DVD''), (390, ''Aux''), (391, ''MP3''), (392, ''Audio''), (393, ''Video''), (394, ''Directory''),
   (395, ''List''), (396, ''Memo''), (397, ''Calendar''), (398, ''Red''), (399, ''Green''), (400, ''Yellow''),
   (401, ''Blue''), (402, ''ChannelUp''), (403, ''ChannelDown''), (404, ''First''), (405, ''Last''),
   (406, ''AB''), (407, ''Next''), (408, ''Restart''), (409, ''Slow''), (410, ''Shuffle''), (411, ''Break''),
   (412, ''Previous''), (413, ''Digits''), (414, ''TEEN''), (415, ''TWEN''), (448, ''Delete EOL''),
   (449, ''Delete EOS''), (450, ''Insert line''), (451, ''Delete line'')]"

definition ev_keys_names :: "(nat \<times> string) list" where
  "ev_keys_names =
  [(0, ''Reserved''), (1, ''Esc''), (2, ''1''), (3, ''2''), (4, ''3''), (5, ''4''), (6, ''5''), (7, ''6''),
   (8, ''7''), (9, ''8''), (10, ''9''), (11, ''0''), (12, ''Minus''), (13, ''Equal''), (14, ''Backspace''),
   (15, ''Tab''), (16, ''Q''), (17, ''W''), (18, ''E''), (19, ''R''), (20, ''T''), (21, ''Y''), (22, ''U''),
   (23, ''I''), (24, ''O''), (25, ''P''), (26, ''LeftBrace''), (27, ''RightBrace''), (28, ''Enter''),
   (29, ''LeftControl''), (30, ''A''), (31, ''S''), (32, ''D''), (33, ''F''), (34, ''G''), (35, ''H''),
   (36, ''J''), (37, ''K''), (38, ''L''), (39, ''Semicolon''), (40, ''Apostrophe''), (41, ''Grave''),
   (42, ''LeftShift''), (43, ''BackSlash''), (44, ''Z''), (45, ''X''), (46, ''C''), (47, ''V''), (48, ''B''),
   (49, ''N''), (50, ''M''), (51, ''Comma''), (52, ''Dot''), (53, ''Slash''), (54, ''RightShift''),
   (55, ''KPAsterisk''), (56, ''LeftAlt''), (57, ''Space''), (58, ''CapsLock''), (59, ''F1''), (60, ''F2''),
   (61, ''F3''), (62, ''F4''), (63, ''F5''), (64, ''F6''), (65, ''F7''), (66, ''F8''), (67, ''F9''),
   (68, ''F10''), (69, ''NumLock''), (70, ''ScrollLock''), (71, ''KP7''), (72, ''KP8''), (73, ''KP9''),
   (74, ''KPMinus''), (75, ''KP4''), (76, ''KP5''), (77, ''KP6''), (78, ''KPPlus''), (79, ''KP1''),
   (80, ''KP2''), (81, ''KP3''), (82, ''KP0''), (83, ''KPDot''), (85, ''Zenkaku/Hankaku''), (86, ''102nd''),
   (87, ''F11''), (88, ''F12''), (89, ''RO''), (90, ''Katakana''), (91, ''HIRAGANA''), (92, ''Henkan''),
   (93, ''Katakana/Hiragana''), (94, ''Muhenkan''), (95, ''KPJpComma''), (96, ''KPEnter''),
   (97, ''RightCtrl''), (98, ''KPSlash''), (99, ''SysRq''), (100, ''RightAlt''), (101, ''LineFeed''),
   (102, ''Home''), (103, ''Up''), (104, ''PageUp''), (105, ''Left''), (106, ''Right''), (107, ''End''),
   (108, ''Down''), (109, ''PageDown''), (110, ''Insert''), (111, ''Delete''), (112, ''Macro''),
   (113, ''Mute''), (114, ''VolumeDown''), (115, ''VolumeUp''), (116, ''Power''), (117, ''KPEqual''),
   (118, ''KPPlusMinus''), (119, ''Pause''), (121, ''KPComma''), (122, ''Hanguel''), (123, ''Hanja''),
   (124, ''Yen''), (125, ''LeftMeta''), (126, ''RightMeta''), (127, ''Compose''), (128, ''Stop''),
   (129, ''Again''), (130, ''Props''), (131, ''Undo''), (132, ''Front''), (133, ''Copy''), (134, ''Open''),
   (135, ''Paste''), (136, ''Find''), (137, ''Cut''), (138, ''Help''), (139, ''Menu''), (140, ''Calc''),
   (141, ''Setup''), (142, ''Sleep''), (143, ''WakeUp''), (144, ''File''), (145, ''SendFile''),
   (146, ''DeleteFile''), (147, ''X-fer''), (148, ''Prog1''), (149, ''Prog2''), (150, ''WWW''),
   (151, ''MSDOS''), (152, ''Coffee''), (153, ''Direction''), (154, ''CycleWindows''), (155, ''Mail''),
   (156, ''Bookmarks''), (157, ''Computer''), (158, ''Back''), (159, ''Forward''), (160, ''CloseCD''),
   (161, ''EjectCD''), (162, ''EjectCloseCD''), (163, ''NextSong''), (164, ''PlayPause''),
   (165, ''PreviousSong''), (166, ''StopCD''), (167, ''Record''), (168, ''Rewind''), (169, ''Phone''),
   (170, ''ISOKey''), (171, ''Config''), (172, ''HomePage''), (173, ''Refresh''), (174, ''Exit''),
   (175, ''Move''), (176, ''Edit''), (177, ''ScrollUp''), (178, ''ScrollDown''), (179, ''KPLeftParenthesis''),
   (180, ''KPRightParenthesis''), (183, ''F13''), (184, ''F14''), (185, ''F15''), (186, ''F16''),
   (187, ''F17''), (188, ''F18''), (189, ''F19''), (190, ''F20''), (191, ''F21''), (192, ''F22''),
   (193, ''F23''), (194, ''F24''), (200, ''PlayCD''), (201, ''PauseCD''), (202, ''Prog3''), (203, ''Prog4''),
   (205, ''Suspend''), (206, ''Close''), (207, ''Play''), (208, ''Fast Forward''), (209, ''Bass Boost''),
   (210, ''Print''), (211, ''HP''), (212, ''Camera''), (213, ''Sound''), (214, ''Question''), (215, ''Email''),
   (216, ''Chat''), (217, ''Search''), (218, ''Connect''), (219, ''Finance''), (220, ''Sport''),
   (221, ''Shop''), (222, ''Alternate Erase''), (223, ''Cancel''), (224, ''Brightness down''),
   (225, ''Brightness up''), (226, ''Media''), (240, ''Unknown''), (256, ''Btn0''), (257, ''Btn1''),
   (258, ''Btn2''), (259, ''Btn3''), (260, ''Btn4''), (261, ''Btn5''), (262, ''Btn6''), (263, ''Btn7''),
   (264, ''Btn8''), (265, ''Btn9''), (272, ''LeftBtn''), (273, ''RightBtn''), (274, ''MiddleBtn''),
   (275, ''SideBtn''), (276, ''ExtraBtn''), (277, ''ForwardBtn''), (278, ''BackBtn''), (279, ''TaskBtn''),
   (288, ''Trigger''), (289, ''ThumbBtn''), (290, ''ThumbBtn2''), (291, ''TopBtn''), (292, ''TopBtn2''),
   (293, ''PinkieBtn''), (294, ''BaseBtn''), (295, ''BaseBtn2''), (296, ''BaseBtn3''), (297, ''BaseBtn4''),
   (298, ''BaseBtn5''), (299, ''BaseBtn6''), (303, ''BtnDead''), (304, ''BtnA''), (305, ''BtnB''),
   (306, ''BtnC''), (307, ''BtnX''), (308, ''BtnY''), (309, ''BtnZ''), (310, ''BtnTL''), (311, ''BtnTR''),
   (312, ''BtnTL2''), (313, ''BtnTR2''), (314, ''BtnSelect''), (315, ''BtnStart''), (316, ''BtnMode''),
   (317, ''BtnThumbL''), (318, ''BtnThumbR''), (320, ''ToolPen''), (321, ''ToolRubber''), (322, ''ToolBrush''),
   (323, ''ToolPencil''), (324, ''ToolAirbrush''), (325, ''ToolFinger''), (326, ''ToolMouse''),
   (327, ''ToolLens''), (330, ''Touch''), (331, ''Stylus''), (332, ''Stylus2''), (333, ''Tool Doubletap''),
   (334, ''Tool Tripletap''), (336, ''WheelBtn''), (337, ''Gear up'')] @ ev_media_names"

definition ev_keys :: "string option list" where
  "ev_keys = name_table KEY_MAX ev_keys_names"

definition ev_relatives_names :: "(nat \<times> string) list" where
  "ev_relatives_names =
  [(0, ''X''), (1, ''Y''), (2, ''Z''), (6, ''HWheel''), (7, ''Dial''), (8, ''Wheel''), (9, ''Misc'')]"

definition ev_relatives :: "string option list" where
  "ev_relatives = name_table REL_MAX ev_relatives_names"

definition ev_absolutes_names :: "(nat \<times> string) list" where
  "ev_absolutes_names =
  [(0, ''X''), (1, ''Y''), (2, ''Z''), (3, ''Rx''), (4, ''Ry''), (5, ''Rz''), (6, ''Throttle''),
   (7, ''Rudder''), (8, ''Wheel''), (9, ''Gas''), (10, ''Brake''), (16, ''Hat0X''), (17, ''Hat0Y''),
   (18, ''Hat1X''), (19, ''Hat1Y''), (20, ''Hat2X''), (21, ''Hat2Y''), (22, ''Hat3X''), (23, ''Hat 3Y''),
   (24, ''Pressure''), (25, ''Distance''), (26, ''XTilt''), (27, ''YTilt''), (28, ''Tool Width''),
   (32, ''Volume''), (40, ''Misc'')]"

definition ev_absolutes :: "string option list" where
  "ev_absolutes = name_table ABS_MAX ev_absolutes_names"

definition ev_misc_names :: "(nat \<times> string) list" where
  "ev_misc_names =
  [(0, ''Serial''), (1, ''Pulseled''), (2, ''Gesture''), (3, ''RawData''), (4, ''ScanCode'')]"

definition ev_misc :: "string option list" where
  "ev_misc = name_table MSC_MAX ev_misc_names"

definition ev_leds_names :: "(nat \<times> string) list" where
  "ev_leds_names =
  [(0, ''NumLock''), (1, ''CapsLock''), (2, ''ScrollLock''), (3, ''Compose''), (4, ''Kana''), (5, ''Sleep''),
   (6, ''Suspend''), (7, ''Mute''), (8, ''Misc'')]"

definition ev_leds :: "string option list" where
  "ev_leds = name_table LED_MAX ev_leds_names"

definition ev_repeats_names :: "(nat \<times> string) list" where
  "ev_repeats_names =
  [(0, ''Delay''), (1, ''Period'')]"

definition ev_repeats :: "string option list" where
  "ev_repeats = name_table REP_MAX ev_repeats_names"

definition ev_sounds_names :: "(nat \<times> string) list" where
  "ev_sounds_names =
  [(0, ''Click''), (1, ''Bell''), (2, ''Tone'')]"

definition ev_sounds :: "string option list" where
  "ev_sounds = name_table SND_MAX ev_sounds_names"

definition absval :: "string list" where
  "absval = [''Value'', ''Min  '', ''Max  '', ''Fuzz '', ''Flat '']"

definition ev_names :: "string option list option list" where
  "ev_names = (replicate (EV_MAX + 1) None)[0 := Some ev_events, 1 := Some ev_keys, 2 := Some ev_relatives,
     3 := Some ev_absolutes, 4 := Some ev_misc, 0x11 := Some ev_leds, 0x12 := Some ev_sounds, 0x14 := Some ev_repeats]"

section \<open>Bitmaps\<close>

definition BITS_PER_LONG :: nat where "BITS_PER_LONG = 8 * 8"
definition NBITS :: "nat \<Rightarrow> nat" where "NBITS x = (x - 1) div BITS_PER_LONG + 1"
definition OFF :: "nat \<Rightarrow> nat" where "OFF x = x mod BITS_PER_LONG"
definition LONG :: "nat \<Rightarrow> nat" where "LONG x = x div BITS_PER_LONG"

definition test_bit :: "nat \<Rightarrow> 64 word list \<Rightarrow> bool res" where
  "test_bit b arr = bind_res (mem_read arr (LONG b)) (\<lambda>w. Inr (drop_bit (OFF b) w AND 1 \<noteq> 0))"

section \<open>Printing\<close>

record input_event =
  ev_sec :: int
  ev_usec :: int
  ev_type :: "16 word"
  ev_code :: "16 word"
  ev_value :: "32 word"

datatype ev_line =
    Usage
  | Perror string
  | Message string
  | DriverVersion int int int
  | DeviceId "16 word list"
  | DeviceName string
  | SupportedEvents
  | EventType nat string
  | EventCode nat string
  | AbsInfo string int
  | Testing
  | SyncEvent int int string
  | HexEvent int int nat string nat string "32 word"
  | ValueEvent int int nat string nat string "32 word"

definition or_unknown :: "string option \<Rightarrow> string" where
  "or_unknown n = (case n of None \<Rightarrow> ''?'' | Some x \<Rightarrow> x)"

text \<open>\<open>events[i] ? events[i] : "?"\<close>, and the same for a code of a type.\<close>

definition type_name :: "nat \<Rightarrow> string res" where
  "type_name i = bind_res (mem_read ev_events i) (\<lambda>n. Inr (or_unknown n))"

definition code_name :: "nat \<Rightarrow> nat \<Rightarrow> string res" where
  "code_name i j = bind_res (mem_read ev_names i) (\<lambda>t. (case t of None \<Rightarrow> Inr ''?''
     | Some tab \<Rightarrow> bind_res (mem_read tab j) (\<lambda>n. Inr (or_unknown n))))"

text \<open>
  What the kernel answers: to \<open>EVIOCGBIT(i, n)\<close> the longs it writes, to \<open>EVIOCGABS(j)\<close> the numbers it
  writes into \<open>abs\<close>.
\<close>

record ev_kernel =
  k_open :: bool
  k_version :: "int option"
  k_id :: "16 word list"
  k_name :: string
  k_bits :: "nat \<Rightarrow> 64 word list"
  k_abs :: "nat \<Rightarrow> int list"

text \<open>The loop over \<open>abs\<close>: value, minimum and maximum, and what else is not zero.\<close>

fun abs_loop :: "nat list \<Rightarrow> int list \<Rightarrow> ev_line list res" where
  "abs_loop [] a = Inr []"
| "abs_loop (k # ks) a = bind_res (mem_read a k) (\<lambda>v. bind_res (mem_read absval k) (\<lambda>n.
     bind_res (abs_loop ks a) (\<lambda>ls. Inr (if k < 3 \<or> v \<noteq> 0 then AbsInfo n v # ls else ls))))"

text \<open>The inner loop over the codes, with the array \<open>abs\<close>.\<close>

fun codes_loop :: "ev_kernel \<Rightarrow> nat \<Rightarrow> 64 word list \<Rightarrow> nat list \<Rightarrow> int list \<Rightarrow> (ev_line list \<times> int list) res" where
  "codes_loop K i row [] a = Inr ([], a)"
| "codes_loop K i row (j # js) a = bind_res (test_bit j row) (\<lambda>b.
     if \<not> b then codes_loop K i row js a
     else bind_res (code_name i j) (\<lambda>n.
       bind_res (if i = 3 then bind_res (mem_store a 0 (k_abs K j)) (\<lambda>a'.
                     bind_res (abs_loop [0, 1, 2, 3, 4] a') (\<lambda>ls. Inr (ls, a')))
                 else Inr ([], a)) (\<lambda>(ls, a').
       bind_res (codes_loop K i row js a') (\<lambda>(ls', a''). Inr (EventCode j n # ls @ ls', a'')))))"

text \<open>The outer loop; \<open>bit0\<close> is \<open>bit[0]\<close>, and each \<open>bit[i]\<close> is zero before the ioctl fills it.\<close>

fun types_loop :: "ev_kernel \<Rightarrow> 64 word list \<Rightarrow> nat list \<Rightarrow> int list \<Rightarrow> ev_line list res" where
  "types_loop K bit0 [] a = Inr []"
| "types_loop K bit0 (i # is) a = bind_res (test_bit i bit0) (\<lambda>b.
     if \<not> b then types_loop K bit0 is a
     else bind_res (type_name i) (\<lambda>n.
       if i = 0 then bind_res (types_loop K bit0 is a) (\<lambda>ls. Inr (EventType i n # ls))
       else bind_res (mem_store (replicate (NBITS KEY_MAX) 0) 0 (k_bits K i)) (\<lambda>row.
         bind_res (codes_loop K i row [0..<KEY_MAX] a) (\<lambda>(ls, a').
         bind_res (types_loop K bit0 is a') (\<lambda>ls'. Inr (EventType i n # ls @ ls'))))))"

section \<open>Events\<close>

definition print_event :: "input_event \<Rightarrow> ev_line res" where
  "print_event e =
     (if ev_type e = 0 then Inr (SyncEvent (ev_sec e) (ev_usec e)
         (if ev_code e \<noteq> 0 then ''Config Sync'' else ''Report Sync''))
      else bind_res (type_name (unat (ev_type e))) (\<lambda>t.
           bind_res (code_name (unat (ev_type e)) (unat (ev_code e))) (\<lambda>c.
           if ev_type e = 4 \<and> (ev_code e = 3 \<or> ev_code e = 4)
           then Inr (HexEvent (ev_sec e) (ev_usec e) (unat (ev_type e)) t (unat (ev_code e)) c (ev_value e))
           else Inr (ValueEvent (ev_sec e) (ev_usec e) (unat (ev_type e)) t (unat (ev_code e)) c (ev_value e)))))"

fun print_events :: "input_event list \<Rightarrow> ev_line list res" where
  "print_events [] = Inr []"
| "print_events (e # es) = bind_res (print_event e) (\<lambda>l. bind_res (print_events es) (\<lambda>ls. Inr (l # ls)))"

definition SIZEOF_EVENT :: int where "SIZEOF_EVENT = 24"

text \<open>
  The endless loop over what \<open>read\<close> returns: a count and the array \<open>ev\<close> it leaves.  The result
  is the lines and the exit code, None while the program waits for more.
\<close>

fun events_loop :: "(int \<times> input_event list) list \<Rightarrow> (ev_line list \<times> int option) res" where
  "events_loop [] = Inr ([], None)"
| "events_loop ((rd, ev) # rs) =
     (if rd < SIZEOF_EVENT then Inr ([Message ''yyy'', Perror (CHR 0x0A # ''evtest: error reading'')], Some 1)
      else bind_res (mem_load ev 0 (nat (rd div SIZEOF_EVENT))) (\<lambda>es.
           bind_res (print_events es) (\<lambda>ls.
           bind_res (events_loop rs) (\<lambda>(ls', r). Inr (ls @ ls', r)))))"

definition evtest_main :: "nat \<Rightarrow> ev_kernel \<Rightarrow> int list \<Rightarrow> (int \<times> input_event list) list \<Rightarrow> (ev_line list \<times> int option) res" where
  "evtest_main argc K a reads =
     (if argc < 2 then Inr ([Usage], Some 1)
      else if \<not> k_open K then Inr ([Perror ''evtest''], Some 1)
      else (case k_version K of
         None \<Rightarrow> Inr ([Perror ''evtest: can't get version''], Some 1)
       | Some v \<Rightarrow>
           bind_res (mem_store (replicate (NBITS KEY_MAX) 0) 0 (k_bits K 0)) (\<lambda>bit0.
           bind_res (types_loop K bit0 [0..<EV_MAX] a) (\<lambda>ls.
           bind_res (events_loop reads) (\<lambda>(ls', r).
           Inr ([DriverVersion (drop_bit 16 v) (drop_bit 8 v AND 0xff) (v AND 0xff), DeviceId (k_id K),
                 DeviceName (k_name K), SupportedEvents] @ ls @ [Testing] @ ls', r))))))"

section \<open>The tables hold what they list\<close>

fun ascending :: "nat list \<Rightarrow> bool" where
  "ascending (x # y # xs) = (x < y \<and> ascending (y # xs))"
| "ascending _ = True"

lemma ascending_less: "ascending (x # xs) \<Longrightarrow> y \<in> set xs \<Longrightarrow> x < y"
  by (induction xs arbitrary: x) (auto dest: less_trans)

lemma ascending_tl: "ascending (x # xs) \<Longrightarrow> ascending xs"
  by (cases xs) simp_all

lemma length_fold_table: "length (fold (\<lambda>(i, n) t. t[i := Some n]) xs t) = length t"
  by (induction xs arbitrary: t) auto

lemma fold_table_nth:
  "ascending (map fst xs) \<Longrightarrow> i < length t \<Longrightarrow>
     fold (\<lambda>(i, n) t. t[i := Some n]) xs t ! i = (case map_of xs i of None \<Rightarrow> t ! i | Some n \<Rightarrow> Some n)"
proof (induction xs arbitrary: t)
  case (Cons x xs)
  obtain c n where x: "x = (c, n)" by (cases x)
  have asc: "ascending (map fst xs)" using ascending_tl Cons.prems(1) by simp
  have "map_of xs c = None"
    using ascending_less Cons.prems(1) x by (fastforce simp: map_of_eq_None_iff)
  then show ?case using Cons.IH [OF asc, of "t[c := Some n]"] Cons.prems(2) x
    by (auto split: option.split)
qed simp

lemma name_table_nth:
  "ascending (map fst xs) \<Longrightarrow> i \<le> mx \<Longrightarrow> name_table mx xs ! i = map_of xs i"
  using fold_table_nth [of xs i "replicate (mx + 1) None"] by (auto simp: name_table_def nth_Cons' split: option.split)

lemma length_name_table [simp]: "length (name_table mx xs) = mx + 1"
  by (simp add: name_table_def length_fold_table)

lemma ascending_names:
  "ascending (map fst ev_events_names)" "ascending (map fst ev_keys_names)" "ascending (map fst ev_relatives_names)"
  "ascending (map fst ev_absolutes_names)" "ascending (map fst ev_misc_names)" "ascending (map fst ev_leds_names)"
  "ascending (map fst ev_repeats_names)" "ascending (map fst ev_sounds_names)"
  by (simp_all add: ev_events_names_def ev_keys_names_def ev_media_names_def ev_relatives_names_def ev_absolutes_names_def
      ev_misc_names_def ev_leds_names_def ev_repeats_names_def ev_sounds_names_def)

section \<open>What the loops print\<close>

definition row_bit :: "64 word list \<Rightarrow> nat \<Rightarrow> bool" where
  "row_bit row j \<longleftrightarrow> bit (row ! (j div 64)) (j mod 64)"

lemma test_bit_eq: "j < 64 * length row \<Longrightarrow> test_bit j row = Inr (row_bit row j)"
  by (simp add: test_bit_def LONG_def OFF_def BITS_PER_LONG_def row_bit_def and_one_eq bit_iff_odd_drop_bit
      odd_iff_mod_2_eq_one less_mult_imp_div_less mult.commute)

text \<open>The list behind the table of a type, and the greatest code the table has.\<close>

definition type_names :: "nat \<Rightarrow> (nat \<times> (nat \<times> string) list) option" where
  "type_names = map_of [(0, EV_MAX, ev_events_names), (1, KEY_MAX, ev_keys_names), (2, REL_MAX, ev_relatives_names),
     (3, ABS_MAX, ev_absolutes_names), (4, MSC_MAX, ev_misc_names), (0x11, LED_MAX, ev_leds_names),
     (0x12, SND_MAX, ev_sounds_names), (0x14, REP_MAX, ev_repeats_names)]"

definition code_ok :: "nat \<Rightarrow> nat \<Rightarrow> bool" where
  "code_ok i j \<longleftrightarrow> (case type_names i of None \<Rightarrow> True | Some (mx, _) \<Rightarrow> j \<le> mx)"

definition name_spec :: "nat \<Rightarrow> nat \<Rightarrow> string" where
  "name_spec i j = (case type_names i of None \<Rightarrow> ''?'' | Some (_, xs) \<Rightarrow> or_unknown (map_of xs j))"

lemmas ev_tables = ev_events_def ev_keys_def ev_relatives_def ev_absolutes_def ev_misc_def ev_leds_def
  ev_sounds_def ev_repeats_def

lemma ev_names_nth:
  assumes "i \<le> EV_MAX"
  shows "ev_names ! i = map_option (\<lambda>(mx, xs). name_table mx xs) (type_names i)"
  using assms by (simp add: ev_names_def nth_list_update type_names_def ev_tables EV_MAX_def)

lemma type_names_ascending: "type_names i = Some (mx, xs) \<Longrightarrow> ascending (map fst xs)"
  using ascending_names by (auto simp: type_names_def split: if_splits)

lemma length_ev_names [simp]: "length ev_names = Suc EV_MAX"
  by (simp add: ev_names_def)

lemma code_name_eq:
  assumes "i \<le> EV_MAX" and "code_ok i j"
  shows "code_name i j = Inr (name_spec i j)"
proof (cases "type_names i")
  case None
  then show ?thesis using assms by (simp add: code_name_def ev_names_nth name_spec_def)
next
  case (Some a)
  obtain mx xs where a: "a = (mx, xs)" by (cases a)
  have "name_table mx xs ! j = map_of xs j"
    using assms(2) Some a by (intro name_table_nth type_names_ascending [of i]) (auto simp: code_ok_def)
  then show ?thesis using assms Some a by (simp add: code_name_def ev_names_nth name_spec_def code_ok_def)
qed

lemma type_name_eq:
  assumes "i \<le> EV_MAX"
  shows "type_name i = Inr (or_unknown (map_of ev_events_names i))"
  using assms name_table_nth [OF ascending_names(1) assms] by (simp add: type_name_def ev_events_def)

text \<open>What is printed for an absolute axis: three numbers, and two more unless they are zero.\<close>

definition abs_spec :: "int list \<Rightarrow> ev_line list" where
  "abs_spec a = [AbsInfo ''Value'' (a ! 0), AbsInfo ''Min  '' (a ! 1), AbsInfo ''Max  '' (a ! 2)]
     @ (if a ! 3 \<noteq> 0 then [AbsInfo ''Fuzz '' (a ! 3)] else []) @ (if a ! 4 \<noteq> 0 then [AbsInfo ''Flat '' (a ! 4)] else [])"

lemma abs_loop_eq: "length a = 5 \<Longrightarrow> abs_loop [0, 1, 2, 3, 4] a = Inr (abs_spec a)"
  by (simp add: absval_def abs_spec_def)

definition code_lines :: "ev_kernel \<Rightarrow> nat \<Rightarrow> nat \<Rightarrow> ev_line list" where
  "code_lines K i j = EventCode j (name_spec i j) # (if i = 3 then abs_spec (k_abs K j) else [])"

definition type_lines :: "ev_kernel \<Rightarrow> nat \<Rightarrow> ev_line list" where
  "type_lines K i = EventType i (or_unknown (map_of ev_events_names i)) # (if i = 0 then []
     else concat (map (code_lines K i) (filter (row_bit (k_bits K i)) [0..<KEY_MAX])))"

text \<open>
  What the kernel promises: bitmaps of twelve longs (enough for all keys), no code that the type
  does not have, five numbers for an axis.
\<close>

definition ev_kernel_law :: "ev_kernel \<Rightarrow> bool" where
  "ev_kernel_law K \<longleftrightarrow> (\<forall>i. length (k_bits K i) = 12) \<and> (\<forall>j. length (k_abs K j) = 5)
     \<and> (\<forall>i j. j < KEY_MAX \<longrightarrow> row_bit (k_bits K i) j \<longrightarrow> code_ok i j)"

lemma codes_loop_eq:
  assumes "ev_kernel_law K" and "i < EV_MAX" and "length a = 5" and "set js \<subseteq> {..<KEY_MAX}"
  shows "\<exists>a'. length a' = 5 \<and> codes_loop K i (k_bits K i) js a
     = Inr (concat (map (code_lines K i) (filter (row_bit (k_bits K i)) js)), a')"
  using assms(3,4)
proof (induction js arbitrary: a)
  case (Cons j js)
  from assms(1) have law: "length (k_bits K i) = 12" "length (k_abs K j) = 5"
    and ok: "row_bit (k_bits K i) j \<Longrightarrow> code_ok i j" using Cons.prems(2) by (auto simp: ev_kernel_law_def)
  have bit: "test_bit j (k_bits K i) = Inr (row_bit (k_bits K i) j)"
    using Cons.prems(2) law by (intro test_bit_eq) (auto simp: KEY_MAX_def)
  have js: "set js \<subseteq> {..<KEY_MAX}" using Cons.prems(2) by simp
  show ?case
  proof (cases "row_bit (k_bits K i) j")
    case False
    then show ?thesis using bit Cons.IH [OF Cons.prems(1) js] by simp
  next
    case True
    have name: "code_name i j = Inr (name_spec i j)" using assms(2) ok [OF True] by (intro code_name_eq) simp_all
    have l: "length (if i = 3 then k_abs K j else a) = 5" using law Cons.prems(1) by simp
    obtain a1 where a1: "length a1 = 5" "codes_loop K i (k_bits K i) js (if i = 3 then k_abs K j else a)
       = Inr (concat (map (code_lines K i) (filter (row_bit (k_bits K i)) js)), a1)"
      using Cons.IH [OF l js] by blast
    have "mem_store a 0 (k_abs K j) = Inr (k_abs K j)" using law Cons.prems(1) by simp
    moreover have "code_lines K i j = EventCode j (name_spec i j) # (if i = 3 then abs_spec (k_abs K j) else [])"
      by (simp add: code_lines_def)
    ultimately show ?thesis
      using True bit name a1 law abs_loop_eq [of "k_abs K j"]
      by (cases "i = 3") (simp_all del: abs_loop.simps)
  qed
qed simp

lemma types_loop_eq:
  assumes "ev_kernel_law K" and "length a = 5" and "set is \<subseteq> {..<EV_MAX}"
  shows "types_loop K (k_bits K 0) is a = Inr (concat (map (type_lines K) (filter (row_bit (k_bits K 0)) is)))"
  using assms(2,3)
proof (induction "is" arbitrary: a)
  case (Cons i "is")
  from assms(1) have law: "length (k_bits K x) = 12" for x by (simp add: ev_kernel_law_def)
  have bit: "test_bit i (k_bits K 0) = Inr (row_bit (k_bits K 0) i)"
    using Cons.prems(2) law by (intro test_bit_eq) (auto simp: EV_MAX_def)
  have i: "i < EV_MAX" "set is \<subseteq> {..<EV_MAX}" using Cons.prems(2) by simp_all
  have name: "type_name i = Inr (or_unknown (map_of ev_events_names i))" using i(1) by (intro type_name_eq) simp
  have row: "mem_store (replicate (NBITS KEY_MAX) 0) 0 (k_bits K i) = Inr (k_bits K i)"
    using law by (simp add: NBITS_def KEY_MAX_def BITS_PER_LONG_def)
  obtain a1 where a1: "length a1 = 5" "codes_loop K i (k_bits K i) [0..<KEY_MAX] a
     = Inr (concat (map (code_lines K i) (filter (row_bit (k_bits K i)) [0..<KEY_MAX])), a1)"
    using codes_loop_eq [OF assms(1) i(1) Cons.prems(1), of "[0..<KEY_MAX]"] by (auto simp: atLeast0LessThan)
  show ?case
    using bit name row a1 Cons.IH [OF Cons.prems(1) i(2)] Cons.IH [OF a1(1) i(2)]
    by (simp add: type_lines_def)
qed simp

text \<open>How an event is printed.\<close>

definition event_line :: "input_event \<Rightarrow> ev_line" where
  "event_line e = (let i = unat (ev_type e); j = unat (ev_code e); t = or_unknown (map_of ev_events_names i); c = name_spec i j in
     if i = 0 then SyncEvent (ev_sec e) (ev_usec e) (if j \<noteq> 0 then ''Config Sync'' else ''Report Sync'')
     else if i = 4 \<and> (j = 3 \<or> j = 4) then HexEvent (ev_sec e) (ev_usec e) i t j c (ev_value e)
     else ValueEvent (ev_sec e) (ev_usec e) i t j c (ev_value e))"

definition event_ok :: "input_event \<Rightarrow> bool" where
  "event_ok e \<longleftrightarrow> unat (ev_type e) \<le> EV_MAX \<and> code_ok (unat (ev_type e)) (unat (ev_code e))"

lemma print_event_eq:
  assumes "event_ok e"
  shows "print_event e = Inr (event_line e)"
proof -
  note names = type_name_eq [of "unat (ev_type e)"] code_name_eq [of "unat (ev_type e)" "unat (ev_code e)"]
  have z: "unat (ev_type e) = 0 \<longleftrightarrow> ev_type e = 0" "unat (ev_code e) = 0 \<longleftrightarrow> ev_code e = 0"
    by (simp_all add: unsigned_eq_0_iff)
  have n: "unat (ev_type e) = 4 \<longleftrightarrow> ev_type e = 4" "unat (ev_code e) = 3 \<longleftrightarrow> ev_code e = 3"
    "unat (ev_code e) = 4 \<longleftrightarrow> ev_code e = 4"
    by (simp_all add: word_unat_eq_iff)
  show ?thesis
  proof (cases "ev_type e = 0")
    case True
    then show ?thesis using z by (simp add: print_event_def event_line_def Let_def)
  next
    case False
    then show ?thesis
      using names assms z n by (simp add: print_event_def event_line_def event_ok_def Let_def cong: if_cong)
  qed
qed

lemma print_events_eq: "\<forall>e \<in> set es. event_ok e \<Longrightarrow> print_events es = Inr (map event_line es)"
  by (induction es) (simp_all add: print_event_eq)

text \<open>Reads as the kernel gives them: a count, and at least the events counted in the array.\<close>

definition reads_ok :: "(int \<times> input_event list) list \<Rightarrow> bool" where
  "reads_ok rs \<longleftrightarrow> (\<forall>(rd, ev) \<in> set rs. nat (rd div SIZEOF_EVENT) \<le> length ev
     \<and> (\<forall>e \<in> set (take (nat (rd div SIZEOF_EVENT)) ev). event_ok e))"

definition full_read :: "int \<times> input_event list \<Rightarrow> bool" where
  "full_read r \<longleftrightarrow> SIZEOF_EVENT \<le> fst r"

lemma events_loop_eq:
  assumes "reads_ok rs"
  shows "events_loop rs = Inr (concat (map (\<lambda>(rd, ev). map event_line (take (nat (rd div SIZEOF_EVENT)) ev)) (takeWhile full_read rs))
       @ (if \<forall>r \<in> set rs. full_read r then [] else [Message ''yyy'', Perror (CHR 0x0A # ''evtest: error reading'')]),
     if \<forall>r \<in> set rs. full_read r then None else Some 1)"
  using assms
proof (induction rs)
  case (Cons r rs)
  obtain rd ev where r: "r = (rd, ev)" by (cases r)
  have rs: "reads_ok rs" and ok: "nat (rd div SIZEOF_EVENT) \<le> length ev" "\<forall>e \<in> set (take (nat (rd div SIZEOF_EVENT)) ev). event_ok e"
    using Cons.prems r by (auto simp: reads_ok_def)
  show ?case
    using Cons.IH [OF rs] ok print_events_eq [OF ok(2)] r by (auto simp: full_read_def not_less)
qed simp


text \<open>
  A kernel that writes six numbers for an axis, as those since 2.6.31 do, writes outside the array
  of five at the first axis the device has.
\<close>

theorem evtest_abs_overruns:
  assumes "length a = 5" and "5 < length (k_abs K j)" and "test_bit j row = Inr True" and "code_name 3 j = Inr n"
  shows "codes_loop K 3 row (j # js) a = Inl Overrun"
  using assms by simp

text \<open>A joystick: synchronisation and one absolute axis.\<close>

definition stick_kernel :: ev_kernel where
  "stick_kernel = \<lparr>k_open = True, k_version = Some 0x10001, k_id = [3, 0x46d, 0xc016, 0x340], k_name = ''Stick'',
     k_bits = (\<lambda>i. (if i = 0 then 9 else if i = 3 then 1 else 0) # replicate 11 0), k_abs = (\<lambda>j. [5, 0, 255, 0, 3])\<rparr>"

lemma filter_first: "0 < n \<Longrightarrow> P 0 \<Longrightarrow> (\<And>j. 0 < j \<Longrightarrow> j < n \<Longrightarrow> \<not> P j) \<Longrightarrow> filter P [0..<n] = [0]"
  by (simp add: upt_conv_Cons)

lemma row_bit_first: "j < 768 \<Longrightarrow> row_bit (w # replicate 11 0) j \<longleftrightarrow> j < 64 \<and> bit w j"
  by (cases "j < 64") (auto simp: row_bit_def nth_Cons' less_mult_imp_div_less)

lemma bit_9: "j < 64 \<Longrightarrow> bit (9 :: 64 word) j \<longleftrightarrow> j = 0 \<or> j = 3"
proof -
  have "\<forall>j \<in> set [0..<64]. bit (9 :: 64 word) j \<longleftrightarrow> j = 0 \<or> j = 3" by code_simp
  then show "j < 64 \<Longrightarrow> bit (9 :: 64 word) j \<longleftrightarrow> j = 0 \<or> j = 3" by simp
qed

lemma stick_rows:
  "j < 768 \<Longrightarrow> row_bit (k_bits stick_kernel i) j \<longleftrightarrow> (i = 0 \<and> (j = 0 \<or> j = 3)) \<or> (i = 3 \<and> j = 0)"
proof -
  assume j: "j < 768"
  have "k_bits stick_kernel i = (if i = 0 then 9 else if i = 3 then 1 else 0) # replicate 11 0" by (simp add: stick_kernel_def)
  with row_bit_first [OF j] have "row_bit (k_bits stick_kernel i) j \<longleftrightarrow> j < 64 \<and> bit (if i = 0 then 9 else if i = 3 then 1 else 0 :: 64 word) j"
    by simp
  with bit_9 [of j] show ?thesis by (cases "i = 0"; cases "i = 3") (auto simp: bit_1_iff)
qed


end
