(* ===== verification/Small_Programs.thy ===== *)
theory Small_Programs
  imports Chardev "HOL-Library.Signed_Division"
begin

text \<open>
  The small modules and programs of the repository: a module that calls a function another one
  exports (\<open>moddep\<close>), module parameters (\<open>modparam\<close>), the deliberate crash (\<open>kernel_panic\<close>), the
  exercises with function pointers (\<open>fptr\<close>, \<open>Syscall/FunPtr\<close>), the test programs of \<open>slpy_wq\<close> and
  the UDP sender \<open>talker_dgram.c\<close>.  What a program prints is a list of lines, a format with its
  values being a constructor.
\<close>

datatype line = Text string | Num string int | Str string string | NumStr string int string

section \<open>Modules\<close>

text \<open>\<open>moddep\<close>: \<open>add\<close> is exported; \<open>avg_init\<close> is linked to a symbol, here its argument.\<close>

definition moddep_add :: "32 word \<Rightarrow> 32 word \<Rightarrow> line list \<times> 32 word" where
  "moddep_add x y = ([Text ''This is add function''], x + y)"

definition add_init :: "int \<times> line list" where "add_init = (0, [Text ''This is a add_init function''])"
definition add_exit :: "line list" where "add_exit = [Text ''This is a add_exit function'']"

definition avg_init :: "(32 word \<Rightarrow> 32 word \<Rightarrow> line list \<times> 32 word) \<Rightarrow> int \<times> line list" where
  "avg_init add = (case add 10 20 of (out, r) \<Rightarrow>
     (0, out @ [Num ''This is a avg_init function: avg result:'' (sint r sdiv 2)]))"

definition avg_exit :: "line list" where "avg_exit = [Text ''This is a avg_exit function'']"

text \<open>\<open>modparam\<close>: the parameters are arguments, with their defaults.\<close>

definition myint_default :: int where "myint_default = 10"
definition modparam_init :: "int \<Rightarrow> int \<times> line list" where
  "modparam_init myint = (0, [Num ''This is modparam init function myint:'' myint])"
definition modparam_exit :: "line list" where "modparam_exit = [Text ''This is modparam exit function'']"

definition whom_default :: string where "whom_default = ''world''"
definition howmany_default :: int where "howmany_default = 1"

function hello_loop :: "int \<Rightarrow> int \<Rightarrow> string \<Rightarrow> line list" where
  "hello_loop i howmany whom =
     (if i < howmany then NumStr ''Hello, '' i whom # hello_loop (i + 1) howmany whom else [])"
  by pat_completeness auto
termination by (relation "measure (\<lambda>(i, howmany, _). nat (howmany - i))") auto

declare hello_loop.simps [simp del]

definition hello_init :: "int \<Rightarrow> string \<Rightarrow> int \<times> line list" where
  "hello_init howmany whom = (0, hello_loop 0 howmany whom)"

definition hello_exit :: "string \<Rightarrow> line list" where "hello_exit whom = [Str ''Goodbye, '' whom]"

text \<open>\<open>panic.c\<close>: the pointer is NULL; \<open>mem\<close> is what a pointer points to.\<close>

definition panic_ptr :: "nat option" where "panic_ptr = None"

definition panic_init :: "(nat \<Rightarrow> int) \<Rightarrow> int \<Rightarrow> string \<Rightarrow> (int \<times> line list) res" where
  "panic_init mem pid comm = (case panic_ptr of None \<Rightarrow> Inl NullDeref
     | Some p \<Rightarrow> Inr (0, [NumStr ''pid comm'' pid comm, Num '''' (mem p)]))"

section \<open>Function pointers\<close>

text \<open>\<open>calc.c\<close>: the character read chooses what \<open>fptr\<close> points to.\<close>

definition calc_add :: "32 word \<Rightarrow> 32 word \<Rightarrow> line list \<times> 32 word" where "calc_add x y = ([Text ''add''], x + y)"
definition calc_sub :: "32 word \<Rightarrow> 32 word \<Rightarrow> line list \<times> 32 word" where "calc_sub x y = ([Text ''sub''], x - y)"

definition calc_main :: "char \<Rightarrow> int \<times> line list" where
  "calc_main temp = (0, Text ''User enter A: add S: sub'' #
     (if temp = CHR ''A'' then (case calc_add 5 4 of (out, r) \<Rightarrow> out @ [Num ''add result:'' (sint r)])
      else if temp = CHR ''S'' then (case calc_sub 5 4 of (out, r) \<Rightarrow> out @ [Num ''Sub result:'' (sint r)])
      else [Text ''option is wrong'']))"

text \<open>\<open>fptr/fptr1.c\<close>; \<open>FunPtr/fptr2.c\<close> with other arguments; \<open>fptr/fptr2.c\<close>.\<close>

definition my_fun1 :: "int \<Rightarrow> line list" where "my_fun1 x = [Num ''my_func1:x value:'' x]"
definition my_fun2 :: "int \<Rightarrow> line list" where "my_fun2 x = [Num ''my_func2:x value:'' x]"

definition fptr1_main :: "int \<times> line list" where
  "fptr1_main = (let fptr = my_fun1; out1 = fptr 4; fptr = my_fun2; out2 = fptr 4 in (0, out1 @ out2))"

definition my_func1 :: "int \<Rightarrow> line list" where "my_func1 x = [Num ''This is my_func1 x value:'' x]"
definition my_func2 :: "int \<Rightarrow> line list" where "my_func2 x = [Num ''This is my_func2 x value:'' x]"

definition funptr2_main :: "int \<times> line list" where
  "funptr2_main = (let my_fptr = my_func1; out1 = my_fptr 2; my_fptr = my_func2; out2 = my_fptr 3 in (0, out1 @ out2))"

definition my_int_func :: "int \<Rightarrow> line list" where "my_int_func x = [Num '''' x]"
definition fptr2_main :: "int \<times> line list" where
  "fptr2_main = (let hello = my_int_func in (0, hello 2 @ hello 2))"

text \<open>\<open>Syscall/FunPtr/fptr1.c\<close>, with the pointer called in both ways.\<close>

definition funptr1_main :: "int \<times> line list" where
  "funptr1_main = (let hello = my_int_func; out1 = hello 2; out2 = hello 2 in (0, out1 @ out2))"

text \<open>\<open>Struct/stru1.c\<close>: a structure, read by its name and through a pointer to it.\<close>

record test =
  t_a :: "32 word"
  t_b :: char

definition stru1_main :: "line list" where
  "stru1_main = (let abc = \<lparr>t_a = 10, t_b = CHR ''A''\<rparr>; ptr = abc in
     [NumStr ''abc.a:%d abc.b:%c'' (sint (t_a abc)) [t_b abc], NumStr ''abc.a:%d abc.b:%c'' (sint (t_a ptr)) [t_b ptr]])"

text \<open>The two drivers of \<open>Struct/\<close>, a table of operations each.\<close>

record file_ops =
  d_name :: string
  fo_open :: "int \<Rightarrow> line list"
  fo_read :: "int \<Rightarrow> line list"

definition km1_open :: "int \<Rightarrow> line list" where "km1_open x = [Num ''km1_open:'' x]"
definition km1_read :: "int \<Rightarrow> line list" where "km1_read z = [Num ''km1_read:'' z]"
definition km2_open :: "int \<Rightarrow> line list" where "km2_open x = [Num ''km2_open:'' x]"
definition km2_read :: "int \<Rightarrow> line list" where "km2_read z = [Num ''km2_read:'' z]"

definition km1 :: file_ops where "km1 = \<lparr>d_name = ''KM1_Driver'', fo_open = km1_open, fo_read = km1_read\<rparr>"
definition km2 :: file_ops where "km2 = \<lparr>d_name = ''KM2_Driver'', fo_open = km2_open, fo_read = km2_read\<rparr>"

definition fun_km2 :: "line list" where
  "fun_km2 = (let fops2 = km2 in Str ''driver name:'' (d_name fops2) # fo_open fops2 9 @ fo_read fops2 10)"

definition km1_main :: "line list" where
  "km1_main = (let fops1 = km1 in Str ''driver name:'' (d_name fops1) # fo_open fops1 5 @ fo_read fops1 8) @ fun_km2"

text \<open>Their variant in \<open>Struct/struct/\<close>, whose operations return 0.\<close>

record file_ops2 =
  f2_open :: "int \<Rightarrow> int \<times> line list"
  f2_read :: "int \<Rightarrow> int \<times> line list"

definition km1b_open :: "int \<Rightarrow> int \<times> line list" where "km1b_open x = (0, [Num ''This is km1_open x:'' x])"
definition km1b_read :: "int \<Rightarrow> int \<times> line list" where "km1b_read x = (0, [Num ''This is km1_read x:'' x])"
definition km2b_open :: "int \<Rightarrow> int \<times> line list" where "km2b_open x = (0, [Num ''This is km2_open x:'' x])"
definition km2b_read :: "int \<Rightarrow> int \<times> line list" where "km2b_read x = (0, [Num ''This is km2_read x:'' x])"

definition km1_ops :: file_ops2 where "km1_ops = \<lparr>f2_open = km1b_open, f2_read = km1b_read\<rparr>"
definition km2_ops :: file_ops2 where "km2_ops = \<lparr>f2_open = km2b_open, f2_read = km2b_read\<rparr>"

definition fun_km2b :: "line list" where
  "fun_km2b = (let fptr = km2_ops in snd (f2_open fptr 3) @ snd (f2_read fptr 4))"

definition km1b_main :: "line list" where
  "km1b_main = (let fptr = km1_ops in snd (f2_open fptr 1) @ snd (f2_read fptr 2)) @ fun_km2b"

section \<open>The test programs of slpy\_wq\<close>

text \<open>
  \<open>rd_tst.c\<close> after its argument check, as the exit code and what it prints: whether the signal
  handler could be installed, whether the device could be opened, and what \<open>read\<close> returned: None
  for an error, or the bytes it has put into the global \<open>buf\<close>, which is zero before.
\<close>

definition SZ :: nat where "SZ = 1024"

datatype rd_line = RdUsage | RdError string | RdOpened int | RdBytes nat "byte list"

definition rd_main :: "nat \<Rightarrow> bool \<Rightarrow> int \<Rightarrow> byte list option \<Rightarrow> (int \<times> rd_line list) res" where
  "rd_main argc sigaction_ok fd rd =
     (if argc = 1 then Inr (1, [RdUsage])
      else if \<not> sigaction_ok then Inr (1, [RdError ''sigaction''])
      else if fd = -1 then Inr (1, [RdError ''open''])
      else (case rd of None \<Rightarrow> Inr (1, [RdOpened fd, RdError ''read failed''])
        | Some bytes \<Rightarrow>
            bind_res (mem_store (replicate SZ 0) 0 bytes) (\<lambda>buf.
            bind_res (mem_write buf (length bytes) 0) (\<lambda>buf'.
            Inr (0, [RdOpened fd, RdBytes (length bytes) (takeWhile (\<lambda>x. x \<noteq> 0) buf')])))))"

text \<open>\<open>wr_tst.c\<close>: \<open>n\<close> is of type size_t; what goes to the device, the exit code, what is printed.\<close>

fun zero_loop :: "nat \<Rightarrow> nat \<Rightarrow> byte list \<Rightarrow> byte list res" where
  "zero_loop n 0 buf = Inr buf"
| "zero_loop n (Suc k) buf = bind_res (mem_write buf n 0) (zero_loop (Suc n) k)"

datatype wr_line = WrUsage | WrError string | WrBytes int

definition wr_main :: "byte list \<Rightarrow> nat \<Rightarrow> int \<Rightarrow> (byte list \<Rightarrow> int) \<Rightarrow> (int \<times> wr_line list) res" where
  "wr_main stk argc fd write =
     (if argc = 1 then Inr (1, [WrUsage])
      else if fd = -1 then Inr (1, [WrError ''open''])
      else bind_res (zero_loop 0 SZ stk) (\<lambda>buf.
        let n = (word_of_int (write (take 1024 buf)) :: 64 word) in
        if n = -1 then Inr (1, [WrError ''write failed''])
        else Inr (0, [WrBytes (sint (ucast n :: 32 word))])))"

lemma zero_loop_eq:
  "n + k = length buf \<Longrightarrow> zero_loop n k buf = Inr (take n buf @ replicate k 0)"
proof (induction k arbitrary: n buf)
  case (Suc k)
  then have n: "n < length buf" by simp
  have "zero_loop (Suc n) k (buf[n := 0]) = Inr (take (Suc n) (buf[n := 0]) @ replicate k 0)"
    using Suc.prems by (intro Suc.IH) simp
  then show ?case using n by (simp add: take_Suc_conv_app_nth mem_write_def)
qed simp

text \<open>
  The reader's buffer is one byte too short: a device that fills it makes the terminating NUL
  run out of it; every shorter read prints the bytes up to the first NUL.
\<close>

theorem rd_tst_terminator:
  assumes "argc \<noteq> 1" and "sigaction_ok" and "fd \<noteq> -1" and "length bytes \<le> SZ"
  shows "rd_main argc sigaction_ok fd (Some bytes) = (if length bytes = SZ then Inl Overrun
     else Inr (0, [RdOpened fd, RdBytes (length bytes) (takeWhile (\<lambda>x. x \<noteq> 0) bytes)]))"
proof (cases "length bytes = SZ")
  case True
  then show ?thesis using assms by (simp add: rd_main_def mem_write_def)
next
  case False
  then have lt: "length bytes < SZ" using assms(4) by simp
  then obtain m where m: "SZ - length bytes = Suc m" by (metis Suc_diff_Suc)
  then have "(bytes @ replicate (SZ - length bytes) 0)[length bytes := 0] = bytes @ 0 # replicate m 0"
    by (simp add: list_update_append)
  moreover have "takeWhile (\<lambda>x. x \<noteq> 0) (bytes @ 0 # replicate m 0) = takeWhile (\<lambda>x. x \<noteq> 0) bytes"
    by (induction bytes) auto
  ultimately show ?thesis using assms lt False by (simp add: rd_main_def mem_write_def)
qed

lemma rd_tst_terminator_witness:
  "rd_main 2 True 3 (Some (replicate 1024 7)) = Inl Overrun \<and> rd_main 2 True 3 (Some []) = Inr (0, [RdOpened 3, RdBytes 0 []])"
  using rd_tst_terminator [of 2 True 3 "replicate 1024 7"] rd_tst_terminator [of 2 True 3 "[]"] by (simp add: SZ_def)

text \<open>The writer hands 1024 zeros to the device, whatever its stack held, and prints the count taken.\<close>

theorem wr_tst_zeros:
  assumes "length stk = SZ" and "argc \<noteq> 1" and "fd \<noteq> -1" and "-1 \<le> write (replicate SZ 0)" and "write (replicate SZ 0) \<le> 1024"
  shows "wr_main stk argc fd write = (let n = write (replicate SZ 0) in
     if n = -1 then Inr (1, [WrError ''write failed'']) else Inr (0, [WrBytes n]))"
proof -
  let ?n = "write (replicate SZ 0)"
  have loop: "zero_loop 0 SZ stk = Inr (replicate SZ 0)" using zero_loop_eq [of 0 SZ stk] assms(1) by simp
  have tk: "take 1024 (replicate SZ 0) = replicate SZ 0" by (simp add: SZ_def)
  have "(word_of_int ?n :: 64 word) = -1 \<longleftrightarrow> ?n = -1"
  proof (cases "?n = -1")
    case False
    with assms(4,5) have u: "uint (word_of_int ?n :: 64 word) = ?n" by (simp add: unsigned_of_int take_bit_int_eq_self)
    have "uint (- 1 :: 64 word) = 0xFFFFFFFFFFFFFFFF" by (simp add: unsigned_minus_1_eq_mask mask_eq_exp_minus_1)
    then show ?thesis using u False assms(5) by auto
  qed simp
  moreover have "sint (ucast (word_of_int ?n :: 64 word) :: 32 word) = ?n" if "?n \<noteq> -1"
  proof -
    from that assms(4,5) have "0 \<le> ?n" "take_bit 64 ?n = ?n" "signed_take_bit 31 ?n = ?n"
      by (simp_all add: take_bit_int_eq_self signed_take_bit_int_eq_self)
    then show ?thesis by (simp add: unsigned_of_int signed_of_int)
  qed
  ultimately show ?thesis
    using assms(2,3) loop tk by (simp add: wr_main_def Let_def)
qed

lemma wr_tst_zeros_witness:
  "wr_main (replicate 1024 9) 2 3 (\<lambda>b. int (length b)) = Inr (0, [WrBytes 1024])
   \<and> wr_main (replicate 1024 9) 2 3 (\<lambda>b. -1) = Inr (1, [WrError ''write failed''])"
  using wr_tst_zeros [of "replicate 1024 9" 2 3 "\<lambda>b. int (length b)"] wr_tst_zeros [of "replicate 1024 9" 2 3 "\<lambda>b. -1"]
  by (simp add: SZ_def)

section \<open>talker\_dgram\<close>

text \<open>
  What the program asks of the system, with the answers: the socket, whether it could be bound to
  the interface, the address \<open>inet_addr\<close> makes of a text, and the result of \<open>sendto\<close>.
\<close>

record talker_env =
  tk_socket :: int
  tk_bind :: int
  tk_inet :: "string \<Rightarrow> 32 word"
  tk_send :: int

datatype tk_call = TkBind string nat | TkSend "byte list" "16 word" "32 word" | TkClose
datatype tk_line = TkUsage | TkPerror string | TkBindFailed | TkBound string | TkSending string int | TkSent int

definition SERVERPORT :: "16 word" where "SERVERPORT = 6100"

text \<open>\<open>htons\<close> on a little-endian machine.\<close>

definition htons :: "16 word \<Rightarrow> 16 word" where
  "htons x = push_bit 8 x OR drop_bit 8 x"

text \<open>The exit code, the calls and the lines; \<open>argv\<close> has the name of the program first.\<close>

definition talker_main :: "talker_env \<Rightarrow> string list \<Rightarrow> int \<times> tk_call list \<times> tk_line list" where
  "talker_main E argv =
     (if length argv \<noteq> 4 then (1, [], [TkUsage])
      else if tk_socket E = -1 then (1, [], [TkPerror ''socket''])
      else (let bnd = TkBind (argv ! 1) (length (argv ! 1) + 1) in
        if tk_bind E < 0 then (1, [bnd, TkClose], [TkBindFailed])
        else (let snd = TkSend (map of_char (argv ! 3)) (htons SERVERPORT) (tk_inet E (argv ! 2));
                  out = [TkBound (argv ! 1), TkSending (argv ! 2) (uint SERVERPORT)] in
          if tk_send E = -1 then (1, [bnd, snd], out @ [TkPerror ''talker: sendto''])
          else (0, [bnd, snd, TkClose], out @ [TkSent (tk_send E)]))))"

text \<open>
  With its three arguments, a socket and an interface, the sender hands exactly the message to the
  network, once, for port 6100 in network order, through the interface it is bound to.  The
  address is not checked: a text that is no address goes to the broadcast address.
\<close>

theorem talker_sends:
  assumes "tk_socket E \<noteq> -1" and "0 \<le> tk_bind E" and "tk_inet E addr = 0xFFFFFFFF"
  shows "fst (snd (talker_main E [prog, iface, addr, msg])) = [TkBind iface (length iface + 1), TkSend (map of_char msg) 0xD417 0xFFFFFFFF]
     @ (if tk_send E = -1 then [] else [TkClose])"
proof -
  have "htons SERVERPORT = 0xD417" by (simp add: htons_def SERVERPORT_def)
  then show ?thesis using assms by (simp add: talker_main_def Let_def)
qed

lemma talker_sends_witness:
  "fst (snd (talker_main \<lparr>tk_socket = 3, tk_bind = 0, tk_inet = (\<lambda>_. 0xFFFFFFFF), tk_send = 2\<rparr> [''talker'', ''sn0'', ''bad'', ''hi'']))
     = [TkBind ''sn0'' 4, TkSend [104, 105] 0xD417 0xFFFFFFFF, TkClose]"
  using talker_sends [of "\<lparr>tk_socket = 3, tk_bind = 0, tk_inet = (\<lambda>_. 0xFFFFFFFF), tk_send = 2\<rparr>" "''bad''" "''talker''" "''sn0''" "''hi''"]
  by simp

section \<open>What the modules print\<close>

lemma hello_loop_eq: "hello_loop i (i + int n) whom = map (\<lambda>k. NumStr ''Hello, '' (i + int k) whom) [0..<n]"
proof (induction n arbitrary: i)
  case 0
  show ?case by (simp add: hello_loop.simps)
next
  case (Suc n)
  have "hello_loop i (i + int (Suc n)) whom = NumStr ''Hello, '' i whom # hello_loop (i + 1) ((i + 1) + int n) whom"
    by (subst hello_loop.simps) (simp add: algebra_simps)
  also have "\<dots> = NumStr ''Hello, '' i whom # map (\<lambda>k. NumStr ''Hello, '' (i + int (Suc k)) whom) [0..<n]"
    by (simp only: Suc.IH) (simp add: algebra_simps)
  finally show ?case by (simp add: upt_conv_Cons map_Suc_upt [symmetric] comp_def del: upt_Suc)
qed

text \<open>
  The parameterised module greets \<open>howmany\<close> times, numbered from 0, and not at all for a
  negative number; the average of the exported addition is 15; and the panic module always faults.
\<close>

theorem small_modules:
  "hello_init howmany whom = (0, map (\<lambda>k. NumStr ''Hello, '' (int k) whom) [0..<nat howmany])
   \<and> avg_init moddep_add = (0, [Text ''This is add function'', Num ''This is a avg_init function: avg result:'' 15])
   \<and> panic_init mem pid comm = Inl NullDeref"
proof -
  have "hello_loop 0 howmany whom = map (\<lambda>k. NumStr ''Hello, '' (int k) whom) [0..<nat howmany]"
    using hello_loop_eq [of 0 "nat howmany" whom] by (cases "0 \<le> howmany") (simp_all add: hello_loop.simps)
  then show ?thesis
    by (simp add: hello_init_def avg_init_def moddep_add_def panic_init_def panic_ptr_def signed_divide_int_def)
qed

end
