(* ===== verification/Syscalls.thy ===== *)
theory Syscalls
  imports Small_Programs
begin

text \<open>
  The system calls that the two kernel patches under \<open>Syscall/\<close> add, and the programs that call
  them.  The rest of the table of system calls is the kernel's and a parameter; entry into the
  kernel and the \<open>syscall\<close> function of the C library follow their documented behaviour.
\<close>

section \<open>The patches\<close>

text \<open>A call gets the argument registers and returns a \<open>long\<close>; it may print to the kernel log.\<close>

type_synonym 'w sys_table = "nat \<rightharpoonup> ((nat \<Rightarrow> 'w word) \<Rightarrow> line list \<times> 'w word)"

definition sys_my_add :: "32 word \<Rightarrow> 32 word \<Rightarrow> line list \<times> 32 word" where
  "sys_my_add a b = ([Num ''The addition is '' (sint (a + b))], a + b)"

definition sys_newsyscall :: "line list \<times> 32 word" where
  "sys_newsyscall = ([Text ''This is new system call funtion''], 0)"

definition NR_my_add :: nat where "NR_my_add = 378"

definition arm_patch :: "32 sys_table \<Rightarrow> 32 sys_table" where
  "arm_patch T = T(NR_my_add \<mapsto> \<lambda>r. sys_my_add (r 0) (r 1))"

definition x86_patch :: "64 sys_table \<Rightarrow> 64 sys_table" where
  "x86_patch T = T(313 \<mapsto> \<lambda>r. map_prod id scast sys_newsyscall)"

section \<open>Calling the kernel\<close>

text \<open>An unknown number is answered with -ENOSYS.\<close>

definition kernel_entry :: "'w::len sys_table \<Rightarrow> nat \<Rightarrow> (nat \<Rightarrow> 'w word) \<Rightarrow> line list \<times> 'w word" where
  "kernel_entry T n r = (case T n of None \<Rightarrow> ([], - 38) | Some f \<Rightarrow> f r)"

definition regs_of :: "'w::len word list \<Rightarrow> nat \<Rightarrow> 'w word" where
  "regs_of args i = (if i < length args then args ! i else 0)"

text \<open>\<open>syscall\<close>: results from -4095 to -1 are errors, reported as -1.\<close>

definition libc_syscall :: "'w::len sys_table \<Rightarrow> nat \<Rightarrow> 'w word list \<Rightarrow> line list \<times> 'w word" where
  "libc_syscall T n args = (case kernel_entry T n (regs_of args) of (k, r) \<Rightarrow>
     (k, if - 4095 \<le> sint r \<and> sint r < 0 then - 1 else r))"

section \<open>The programs\<close>

text \<open>What the kernel logs, and what the program prints.\<close>

definition add_syscall :: "32 sys_table \<Rightarrow> line list \<times> 32 word" where
  "add_syscall T = libc_syscall T 378 [25, 35]"

definition sys_test_main :: "32 sys_table \<Rightarrow> int \<times> line list \<times> line list" where
  "sys_test_main T = (case add_syscall T of (k, a) \<Rightarrow>
     (0, k, [Text ''System call invoked'', Num ''system call returned '' (sint a)]))"

definition newsys_main :: "64 sys_table \<Rightarrow> int \<times> line list \<times> line list" where
  "newsys_main T = (case libc_syscall T 333 [] of (k, r) \<Rightarrow>
     (0, k, [Text ''Entered main function'', Num ''ret: '' (sint (ucast r :: 32 word))]))"

text \<open>
  \<open>assm/sys_x86.c\<close> puts 333 into the number register and traps, through the table of 32-bit calls,
  with whatever the other registers hold; the answer stays in the register.
\<close>

definition sys_x86_main :: "32 sys_table \<Rightarrow> (nat \<Rightarrow> 32 word) \<Rightarrow> line list \<times> 32 word" where
  "sys_x86_main T r = kernel_entry T 333 r"

text \<open>
  \<open>assem/sys.c\<close>, which makes the same call with instructions of its own: the number goes into
  register 7, the arguments into registers 0 and 1, and the second call is the one that exits.
\<close>

datatype arm_instr = Ldr nat "32 word" | Swi

definition sys_asm :: "arm_instr list" where
  "sys_asm = [Ldr 7 378, Ldr 0 25, Ldr 1 35, Swi, Ldr 7 1, Swi]"

text \<open>The kernel log with the status if the program exits, or the registers it goes on with.\<close>

fun arm_run :: "32 sys_table \<Rightarrow> arm_instr list \<Rightarrow> (nat \<Rightarrow> 32 word) \<Rightarrow> line list \<times> (32 word + (nat \<Rightarrow> 32 word))" where
  "arm_run T [] r = ([], Inr r)"
| "arm_run T (Ldr d c # is) r = arm_run T is (r(d := c))"
| "arm_run T (Swi # is) r = (if r 7 = 1 then ([], Inl (r 0))
     else case kernel_entry T (unat (r 7)) r of (k, v) \<Rightarrow> apfst ((@) k) (arm_run T is (r(0 := v))))"

section \<open>What the calls answer\<close>

text \<open>
  Through the C library the new call adds, with the wrap-around of 32 bits, except that a sum from
  -4095 to -1 comes back as the error -1.
\<close>

theorem my_add_answers:
  "libc_syscall (arm_patch T) NR_my_add [a, b]
     = ([Num ''The addition is '' (sint (a + b))], if - 4095 \<le> sint (a + b) \<and> sint (a + b) < 0 then - 1 else a + b)"
  by (simp add: libc_syscall_def kernel_entry_def arm_patch_def regs_of_def sys_my_add_def)

text \<open>
  On the patched kernel both ARM programs make the kernel print 60; the C program prints it too,
  and the assembly program exits with it.  The x86 program calls 333, which is not the number the
  patch gives the new call: unless the kernel has a call 333 of its own it prints -1.
\<close>

theorem syscall_programs:
  assumes "T 333 = None"
  shows "sys_test_main (arm_patch A) = (0, [Num ''The addition is '' 60], [Text ''System call invoked'', Num ''system call returned '' 60])
   \<and> arm_run (arm_patch A) sys_asm r = ([Num ''The addition is '' 60], Inl 60)
   \<and> newsys_main (x86_patch T) = (0, [], [Text ''Entered main function'', Num ''ret: '' (- 1)])"
proof (intro conjI)
  show "sys_test_main (arm_patch A) = (0, [Num ''The addition is '' 60], [Text ''System call invoked'', Num ''system call returned '' 60])"
    using my_add_answers [of A 25 35] by (simp add: sys_test_main_def add_syscall_def NR_my_add_def)
  show "arm_run (arm_patch A) sys_asm r = ([Num ''The addition is '' 60], Inl 60)"
    by (simp add: sys_asm_def kernel_entry_def arm_patch_def NR_my_add_def sys_my_add_def)
  show "newsys_main (x86_patch T) = (0, [], [Text ''Entered main function'', Num ''ret: '' (- 1)])"
  proof -
    have "(ucast (- 1 :: 64 word) :: 32 word) = - 1" by code_simp
    with assms show ?thesis by (simp add: newsys_main_def libc_syscall_def kernel_entry_def x86_patch_def)
  qed
qed

lemma syscall_programs_witness:
  "newsys_main (x86_patch (\<lambda>_. None)) = (0, [], [Text ''Entered main function'', Num ''ret: '' (- 1)])"
  using syscall_programs [of "\<lambda>_. None"] by blast

end
