(* ===== verification/Spec2Isabelle.thy ===== *)
theory Spec2Isabelle
  imports Snull_Methods Snull_Silent Snull_Registry Snull_Mail_Claims Module_Claims Char_Files Net_Modules Kernel_Mechs Apps Sleepy_Files Delays Evtest Small_Programs Syscalls
begin

text \<open>
  A verification development for the Linux device drivers of this repository: the network drivers
  under \<open>src/ndd/\<close>, above all the virtual interface \<open>04_NIC_snull_drv/snull.c\<close>, and the character
  device drivers, kernel mechanisms and user programs under \<open>src/cdd/\<close>.

  \<^bold>\<open>The program.\<close>  Each driver is a kernel module: an init function that asks the kernel for
  device numbers, ports, interrupts and memory, an exit function that gives them back, and
  methods the kernel calls for the files or the interfaces of the device.  The modules do not
  call each other; what they share is the kernel below them and user programs above them.

  \<^bold>\<open>Common ground.\<close>  \<open>KM_Prelude\<close>: results with faults (\<open>'a res\<close>: a NULL dereference, an access
  outside a buffer, a double free, a self-deadlock, a trap, a kernel BUG), C integer conversions,
  memory as byte lists, linked lists in a heap.  \<open>Chardev\<close>: what the character drivers share: the
  history of requests to the kernel, whose answers are arbitrary functions of that history
  (\<open>kenv\<close>), what is held after a history (\<open>held\<close>, a multiset) and what was released without
  being held (\<open>spurious\<close>), the locales \<open>driver_module\<close> and \<open>clean_module\<close> for the contract of
  loading and unloading, user copies, and the common parts of the methods.

  \<^bold>\<open>snull.c\<close>.  \<open>Snull_Defs\<close> and \<open>Snull_Datapath\<close> hold the state (packets, devices, socket buffers,
  the history of kernel calls) and one definition per function of the file; \<open>Snull_Pool\<close>,
  \<open>Snull_Buffers\<close> the packet pools and receive queues, as lists in the heap and as instances of
  the locales \<open>packet_stack\<close> and \<open>packet_queue\<close>; \<open>Snull_Frame\<close>, \<open>Snull_Xmit\<close>, \<open>Snull_Quiet\<close>,
  \<open>Snull_Transmit\<close> what a transmission does, step by step; \<open>Snull_Lifetime\<close>, \<open>Snull_Loader\<close>, \<open>Snull_Load\<close> loading
  and unloading (locale \<open>netdev_loader\<close>, with one interpretation for each of the two drivers); \<open>Snull_Events\<close> all sequences of method calls; \<open>Snull_Poll\<close> NAPI polling;
  \<open>Snull_Bytes\<close> the bytes of a delivered frame; \<open>Snull_Demo\<close> a concrete kernel and state for the
  witnesses; \<open>Snull_Claims\<close>, \<open>Snull_Faults\<close>, \<open>Snull_Methods\<close> the properties; \<open>Snull_Wire\<close> the
  specification of the pair as a wire and the refinement (locale \<open>call_refinement\<close> of \<open>Refinement\<close>);
  \<open>Snull_Silent\<close> the polled mode, in which nothing comes up; \<open>Snull_Registry\<close> what a failing load withdraws
  without having registered it.  The loops over
  lists in the heap (\<open>snull_teardown_pool\<close>, \<open>poll_loop\<close>) have fuel for their iterations; the
  properties about them show that the number of packets is enough.

  \<^bold>\<open>The original.\<close>  \<open>Snull_Orig\<close>: \<open>ldd3_snull_orig/snull.c\<close>, from which \<open>snull.c\<close> is derived;
  functions with the same body are that definition under a name of their own, the others are
  written out on the same state.  \<open>Snull_Orig_Claims\<close>: its transmission is that of \<open>snull.c\<close> on a
  frame with other addresses; polling, headers, initialisation.  \<open>Snull_Napi\<close>: one transmission and
  one poll in polled mode, on two devices with frames under way in both directions; \<open>Snull_Mailbox\<close>,
  \<open>Snull_Mail_Claims\<close>: the specification of that mode as two mailboxes, the refinement for every
  sequence of calls, and the life of the module from loading to unloading.  The fuel of the poll loop is the number of
  packets in memory, which bounds every queue.

  \<^bold>\<open>Other network modules.\<close>  \<open>Net_Modules\<close>: \<open>network.c\<close>, \<open>transmit.c\<close>, \<open>devices.c\<close>; the walk over the
  kernel's list of interfaces may not end, which is None.

  \<^bold>\<open>Kernel mechanisms.\<close>  \<open>Kernel_Mechs\<close>: \<open>timer.c\<close>, \<open>busy_wait.c\<close> (None: it spins for ever),
  \<open>sleep_wait.c\<close> and \<open>kt.c\<close> as threads that take one step at a time (locale \<open>stoppable_thread\<close>),
  \<open>workq_demo.c\<close>.  \<open>Delays\<close>: the delay macros of \<open>convenient.h\<close>.

  \<^bold>\<open>User programs.\<close>  \<open>Apps\<close>: the programs of the drivers, run against the models of their drivers.
  \<open>Programs\<close>: the same programs as a whole, through the tables of file operations, with a device file
  that may not open.  \<open>Evtest\<close>: \<open>evtest.c\<close> with its tables of names; the loops run over what the kernel returns.
  \<open>Small_Programs\<close>: the exercises (\<open>ModuleProg/\<close>, \<open>fptr/\<close>, \<open>FunPtr/\<close>, \<open>panic.c\<close>), the test programs of
  \<open>slpy_wq.c\<close> and \<open>talker_dgram.c\<close>.  \<open>Syscalls\<close>: the system calls added by the patches under
  \<open>Syscall/\<close> and the programs that call them, over a table of system calls.

  \<^bold>\<open>Character drivers.\<close>  \<open>Simple_Drivers\<close>: \<open>memory.c\<close>, \<open>register_chrdev/CharDriver.c\<close>,
  \<open>dynamic_cdd/CharDriver.c\<close>, \<open>ioctl.c\<close>, \<open>cdd_temp/char.c\<close>, \<open>devfile.c\<close>.  \<open>Calculator\<close>:
  \<open>CalculatorDriver.c\<close> and its user programs, as a state machine of processes around the
  semaphore.  \<open>Port_Drivers\<close>: \<open>clock.c\<close>, the two \<open>parlelport.c\<close>, the two keyboard \<open>intr.c\<close>, over
  a record of port accesses whose answers come from an arbitrary hardware.  \<open>Serial_Driver\<close>:
  \<open>serial.c\<close>, whose busy loops take the number of interrupts that arrive, None meaning that the
  process still spins.  \<open>Video_Ram\<close>: \<open>video_ram.c\<close>.  \<open>Sleepy\<close>, \<open>Sleepy_Claims\<close>: \<open>slpy.c\<close>,
  \<open>slpy-proc-ctrl.c\<close>, \<open>slpy_wq.c\<close>: processes on a wait queue, one step at a time, as the
  inductive relation \<open>wq_reach\<close> and the locale \<open>sleepers\<close>.  \<open>Module_Claims\<close>: properties of the
  drivers as a group.  \<open>Sleepy_Files\<close>: the tables of file operations of the drivers that sleep, the proc entry as an instance of
  \<open>char_device\<close>, and the programs of \<open>cdd_temp\<close> and \<open>slpy\<close>.  \<open>Char_Files\<close>: the tables of file operations of nine drivers, and every sequence of
  calls on an open file (locales \<open>char_device\<close>, \<open>message_device\<close>); reading to the end has fuel for the reads, two
  of which are enough where it ends.

  \<^bold>\<open>Parameters.\<close>  The kernel and the hardware are not part of the repository.  Their answers are
  arguments of the definitions (\<open>snull_env\<close>, \<open>kenv\<close>, \<open>hw\<close>); documented behaviour that a property
  needs is a named hypothesis (\<open>eth_type_trans_law\<close>, \<open>check_law\<close>, \<open>rtc_law\<close>, \<open>uart_law\<close>) with an
  instance in its witness.

  \<^bold>\<open>Not modelled.\<close>  Messages of \<open>printk\<close>, except where a claim is about what is printed or
  where printing a string reads outside it; how long delays take; memory barriers and compiler reordering of
  the flags of \<open>serial.c\<close>; assembly sources under \<open>Syscall/\<close>; generated \<open>*.mod.c\<close> files.
\<close>

end
